theory Spec2Isabelle
  imports Complex_Main
begin

section \<open>Python and numpy values\<close>

text \<open>
  The module \<^verbatim>\<open>templates_quat_affine.py\<close> imports numpy only, and its signatures
  annotate every array as \<^verbatim>\<open>np.ndarray\<close>. An array is modelled by its shape and the
  value stored at each index (a list of naturals, outermost axis first). The element type
  is \<open>real\<close>: arithmetic is exact, so the model has no rounding, no \<^verbatim>\<open>nan\<close> and no
  \<^verbatim>\<open>inf\<close>. The literal \<^verbatim>\<open>1e-20\<close> is the real number \<open>1 / 10 ^ 20\<close>.

  Every exception the source can raise is a value of \<open>error\<close>; a function that can raise
  returns \<open>error + 'a\<close> with \<open>Inl\<close> for the exception.
\<close>

datatype error = AssertionError | AttributeError | TypeError | ValueError | IndexError | AxisError

type_synonym 'a res = "error + 'a"

definition bnd :: "'a res \<Rightarrow> ('a \<Rightarrow> 'b res) \<Rightarrow> 'b res" where
  "bnd m f = (case m of Inl e \<Rightarrow> Inl e | Inr x \<Rightarrow> f x)"

record ndarray =
  shape :: "nat list"
  item :: "nat list \<Rightarrow> real"

definition valid_index :: "nat list \<Rightarrow> nat list \<Rightarrow> bool" where
  "valid_index s i = list_all2 (<) i s"

fun indices :: "nat list \<Rightarrow> nat list list" where
  "indices [] = [[]]"
| "indices (d # ds) = concat (map (\<lambda>j. map ((#) j) (indices ds)) [0..<d])"

text \<open>\<^verbatim>\<open>np.array_equal\<close>: the same shape and the same value at every index of it.\<close>

definition array_equal :: "ndarray \<Rightarrow> ndarray \<Rightarrow> bool" where
  "array_equal a b =
     (shape a = shape b \<and> list_all (\<lambda>i. item a i = item b i) (indices (shape a)))"

text \<open>Array literals: a Python float, a flat list, and a list of equally shaped rows.\<close>

definition scalar :: "real \<Rightarrow> ndarray" where
  "scalar c = \<lparr>shape = [], item = (\<lambda>i. c)\<rparr>"

definition array1 :: "real list \<Rightarrow> ndarray" where
  "array1 xs = \<lparr>shape = [length xs], item = (\<lambda>i. xs ! hd i)\<rparr>"

definition rows :: "ndarray list \<Rightarrow> ndarray" where
  "rows as = \<lparr>shape = length as # shape (hd as), item = (\<lambda>i. item (as ! hd i) (tl i))\<rparr>"

subsection \<open>Broadcasting\<close>

text \<open>
  numpy aligns two shapes at their trailing axes; two aligned dimensions are compatible
  when they are equal or one of them is 1, and a missing leading dimension counts as 1.
  \<open>bc_rev\<close> and \<open>bidx_rev\<close> work on reversed lists (trailing axis first).
\<close>

fun bc_rev :: "nat list \<Rightarrow> nat list \<Rightarrow> nat list option" where
  "bc_rev [] ys = Some ys"
| "bc_rev (x # xs) [] = Some (x # xs)"
| "bc_rev (x # xs) (y # ys) =
     (if x = y \<or> y = 1 then map_option ((#) x) (bc_rev xs ys)
      else if x = 1 then map_option ((#) y) (bc_rev xs ys)
      else None)"

definition broadcast_shapes :: "nat list \<Rightarrow> nat list \<Rightarrow> nat list option" where
  "broadcast_shapes s1 s2 = map_option rev (bc_rev (rev s1) (rev s2))"

fun bidx_rev :: "nat list \<Rightarrow> nat list \<Rightarrow> nat list" where
  "bidx_rev (d # ds) (j # js) = (if d = 1 then 0 else j) # bidx_rev ds js"
| "bidx_rev [] js = []"
| "bidx_rev (d # ds) [] = []"

text \<open>The index of an operand of shape \<open>s\<close> that a result index \<open>i\<close> reads.\<close>

definition broadcast_index :: "nat list \<Rightarrow> nat list \<Rightarrow> nat list" where
  "broadcast_index s i = rev (bidx_rev (rev s) (rev i))"

definition broadcast_apply ::
    "(real \<Rightarrow> real \<Rightarrow> real) \<Rightarrow> ndarray \<Rightarrow> ndarray \<Rightarrow> nat list \<Rightarrow> ndarray" where
  "broadcast_apply f a b s =
     \<lparr>shape = s,
      item = (\<lambda>i. f (item a (broadcast_index (shape a) i))
                     (item b (broadcast_index (shape b) i)))\<rparr>"

definition binop :: "(real \<Rightarrow> real \<Rightarrow> real) \<Rightarrow> ndarray \<Rightarrow> ndarray \<Rightarrow> ndarray res" where
  "binop f a b =
     (case broadcast_shapes (shape a) (shape b) of
        None \<Rightarrow> Inl ValueError
      | Some s \<Rightarrow> Inr (broadcast_apply f a b s))"

definition np_add :: "ndarray \<Rightarrow> ndarray \<Rightarrow> ndarray res" where
  "np_add = binop (+)"

definition np_sub :: "ndarray \<Rightarrow> ndarray \<Rightarrow> ndarray res" where
  "np_sub = binop (-)"

definition np_mul :: "ndarray \<Rightarrow> ndarray \<Rightarrow> ndarray res" where
  "np_mul = binop (*)"

definition np_div :: "ndarray \<Rightarrow> ndarray \<Rightarrow> ndarray res" where
  "np_div = binop (/)"

definition unop :: "(real \<Rightarrow> real) \<Rightarrow> ndarray \<Rightarrow> ndarray" where
  "unop f a = \<lparr>shape = shape a, item = (\<lambda>i. f (item a i))\<rparr>"

definition np_neg :: "ndarray \<Rightarrow> ndarray" where
  "np_neg = unop uminus"

definition np_sqrt :: "ndarray \<Rightarrow> ndarray" where
  "np_sqrt = unop sqrt"

definition np_square :: "ndarray \<Rightarrow> ndarray" where
  "np_square = unop (\<lambda>x. x ^ 2)"

definition zeros_like :: "ndarray \<Rightarrow> ndarray" where
  "zeros_like = unop (\<lambda>x. 0)"

definition ones_like :: "ndarray \<Rightarrow> ndarray" where
  "ones_like = unop (\<lambda>x. 1)"

subsection \<open>Axes, indexing, stacking\<close>

text \<open>An axis argument is a Python integer; a negative one counts from the end.\<close>

definition normalize_axis :: "int \<Rightarrow> nat \<Rightarrow> nat res" where
  "normalize_axis ax n =
     (if - int n \<le> ax \<and> ax < int n
      then Inr (nat (if ax < 0 then ax + int n else ax))
      else Inl AxisError)"

text \<open>\<^verbatim>\<open>a[..., i]\<close> and \<^verbatim>\<open>a[..., i, j]\<close>.\<close>

definition getitem_last :: "ndarray \<Rightarrow> nat \<Rightarrow> ndarray res" where
  "getitem_last a i =
     (if shape a = [] \<or> \<not> i < last (shape a) then Inl IndexError
      else Inr \<lparr>shape = butlast (shape a), item = (\<lambda>idx. item a (idx @ [i]))\<rparr>)"

definition getitem_last2 :: "ndarray \<Rightarrow> nat \<Rightarrow> nat \<Rightarrow> ndarray res" where
  "getitem_last2 a i j =
     (if length (shape a) < 2 \<or> \<not> i < last (butlast (shape a)) \<or> \<not> j < last (shape a)
      then Inl IndexError
      else Inr \<lparr>shape = butlast (butlast (shape a)),
                item = (\<lambda>idx. item a (idx @ [i, j]))\<rparr>)"

text \<open>\<^verbatim>\<open>np.concatenate([a, b], axis=-1)\<close>: no broadcasting, the other axes must agree.\<close>

definition concatenate_last :: "ndarray \<Rightarrow> ndarray \<Rightarrow> ndarray res" where
  "concatenate_last a b =
     (if shape a = [] \<or> shape b = [] then Inl ValueError
      else if butlast (shape a) \<noteq> butlast (shape b) then Inl ValueError
      else Inr \<lparr>shape = butlast (shape a) @ [last (shape a) + last (shape b)],
                item = (\<lambda>i. if last i < last (shape a) then item a i
                              else item b (butlast i @ [last i - last (shape a)]))\<rparr>)"

text \<open>
  \<^verbatim>\<open>np.expand_dims(a, axes)\<close>: the axes are positions in the result, whose rank is the
  rank of \<open>a\<close> plus the number of axes; inserting them in ascending order puts each new
  axis at its position. An integer axis is the one-element list.
\<close>

fun normalize_axes :: "int list \<Rightarrow> nat \<Rightarrow> nat list res" where
  "normalize_axes [] n = Inr []"
| "normalize_axes (ax # axs) n =
     bnd (normalize_axis ax n) (\<lambda>k. bnd (normalize_axes axs n) (\<lambda>ks. Inr (k # ks)))"

definition insert_axis :: "nat \<Rightarrow> ndarray \<Rightarrow> ndarray" where
  "insert_axis k a =
     \<lparr>shape = take k (shape a) @ [1] @ drop k (shape a),
      item = (\<lambda>i. item a (take k i @ drop (Suc k) i))\<rparr>"

definition expand_dims :: "ndarray \<Rightarrow> int list \<Rightarrow> ndarray res" where
  "expand_dims a axes =
     bnd (normalize_axes axes (length (shape a) + length axes)) (\<lambda>ks.
       if \<not> distinct ks then Inl ValueError else Inr (fold insert_axis (sort ks) a))"

text \<open>\<^verbatim>\<open>a[..., None]\<close> and \<^verbatim>\<open>a[..., :, None, None]\<close> (the colon needs an axis to take).\<close>

definition getitem_newaxis :: "ndarray \<Rightarrow> ndarray" where
  "getitem_newaxis a = \<lparr>shape = shape a @ [1], item = (\<lambda>i. item a (butlast i))\<rparr>"

definition getitem_colon_newaxis2 :: "ndarray \<Rightarrow> ndarray res" where
  "getitem_colon_newaxis2 a =
     (if shape a = [] then Inl IndexError
      else Inr \<lparr>shape = shape a @ [1, 1], item = (\<lambda>i. item a (butlast (butlast i)))\<rparr>)"

text \<open>\<^verbatim>\<open>np.sum(a, axis=ax)\<close> and \<^verbatim>\<open>np.sum(a, axis=(ax1, ax2))\<close>.\<close>

definition sum_axis :: "ndarray \<Rightarrow> nat \<Rightarrow> ndarray" where
  "sum_axis a k =
     \<lparr>shape = take k (shape a) @ drop (Suc k) (shape a),
      item = (\<lambda>i. sum_list (map (\<lambda>j. item a (take k i @ [j] @ drop k i))
                                 [0..<shape a ! k]))\<rparr>"

definition np_sum :: "ndarray \<Rightarrow> int \<Rightarrow> ndarray res" where
  "np_sum a ax = bnd (normalize_axis ax (length (shape a))) (\<lambda>k. Inr (sum_axis a k))"

definition np_sum2 :: "ndarray \<Rightarrow> int \<Rightarrow> int \<Rightarrow> ndarray res" where
  "np_sum2 a ax1 ax2 =
     bnd (normalize_axis ax1 (length (shape a))) (\<lambda>k1.
     bnd (normalize_axis ax2 (length (shape a))) (\<lambda>k2.
       if k1 = k2 then Inl ValueError
       else Inr (sum_axis (sum_axis a (max k1 k2)) (min k1 k2))))"

text \<open>\<^verbatim>\<open>np.linalg.norm(a, axis=ax)\<close>: the square root of the sum of squares.\<close>

definition linalg_norm :: "ndarray \<Rightarrow> int \<Rightarrow> ndarray res" where
  "linalg_norm a ax = bnd (np_sum (np_square a) ax) (\<lambda>s. Inr (np_sqrt s))"

text \<open>\<^verbatim>\<open>np.reshape\<close> keeps the row-major order of the elements.\<close>

definition ravel_index :: "nat list \<Rightarrow> nat list \<Rightarrow> nat" where
  "ravel_index s i = foldl (\<lambda>acc (d, j). acc * d + j) 0 (zip s i)"

fun unravel_rev :: "nat list \<Rightarrow> nat \<Rightarrow> nat list" where
  "unravel_rev [] k = []"
| "unravel_rev (d # ds) k = (k mod d) # unravel_rev ds (k div d)"

definition unravel_index :: "nat list \<Rightarrow> nat \<Rightarrow> nat list" where
  "unravel_index s k = rev (unravel_rev (rev s) k)"

definition reshape :: "ndarray \<Rightarrow> nat list \<Rightarrow> ndarray res" where
  "reshape a s =
     (if prod_list s \<noteq> prod_list (shape a) then Inl ValueError
      else Inr \<lparr>shape = s,
                item = (\<lambda>i. item a (unravel_index (shape a) (ravel_index s i)))\<rparr>)"

text \<open>\<^verbatim>\<open>a[..., lo:hi]\<close> for \<open>lo \<le> hi\<close>; a slice is clipped to the axis, it never raises.\<close>

definition getitem_last_slice :: "ndarray \<Rightarrow> nat \<Rightarrow> nat \<Rightarrow> ndarray res" where
  "getitem_last_slice a lo hi =
     (if shape a = [] then Inl IndexError
      else Inr \<lparr>shape = butlast (shape a) @ [min hi (last (shape a)) - min lo (last (shape a))],
                item = (\<lambda>i. item a (butlast i @ [last i + lo]))\<rparr>)"

text \<open>
  \<^verbatim>\<open>np.stack(arrays, axis=ax)\<close>: the arrays must have one shape; the new axis has their
  number as its dimension.
\<close>

definition np_stack :: "ndarray list \<Rightarrow> int \<Rightarrow> ndarray res" where
  "np_stack as ax =
     (if as = [] \<or> \<not> list_all (\<lambda>a. shape a = shape (hd as)) as then Inl ValueError
      else bnd (normalize_axis ax (Suc (length (shape (hd as))))) (\<lambda>k.
             Inr \<lparr>shape = take k (shape (hd as)) @ [length as] @ drop k (shape (hd as)),
                  item = (\<lambda>i. item (as ! (i ! k)) (take k i @ drop (Suc k) i))\<rparr>))"

text \<open>
  The \<^verbatim>\<open>shape\<close> attribute of a numpy array is a Python tuple, and so is a slice of it.
  A tuple has no method \<^verbatim>\<open>extend\<close> (a list has): the call raises \<^verbatim>\<open>AttributeError\<close>.
  Likewise \<^verbatim>\<open>np.ndarray\<close> has no method \<^verbatim>\<open>detach\<close>.
\<close>

definition tuple_extend :: "nat list \<Rightarrow> nat list \<Rightarrow> nat list res" where
  "tuple_extend t xs = Inl AttributeError"

definition ndarray_detach :: "ndarray \<Rightarrow> ndarray res" where
  "ndarray_detach a = Inl AttributeError"

section \<open>The coefficient tables\<close>

text \<open>
  \<^verbatim>\<open>QUAT_TO_ROT\<close> is \<^verbatim>\<open>np.zeros((4, 4, 3, 3))\<close> with ten of its sixteen 3x3 blocks
  assigned; \<^verbatim>\<open>QUAT_MULTIPLY\<close> is \<^verbatim>\<open>np.zeros((4, 4, 4))\<close> with its four slices
  \<^verbatim>\<open>[:, :, k]\<close> assigned; \<^verbatim>\<open>QUAT_MULTIPLY_BY_VEC\<close> is \<^verbatim>\<open>QUAT_MULTIPLY[:, 1:, :]\<close>.
\<close>

definition QUAT_TO_ROT_block :: "nat \<Rightarrow> nat \<Rightarrow> real list list" where
  "QUAT_TO_ROT_block i j =
     (if (i, j) = (0, 0) then [[ 1, 0, 0], [ 0, 1, 0], [ 0, 0, 1]]
      else if (i, j) = (1, 1) then [[ 1, 0, 0], [ 0,-1, 0], [ 0, 0,-1]]
      else if (i, j) = (2, 2) then [[-1, 0, 0], [ 0, 1, 0], [ 0, 0,-1]]
      else if (i, j) = (3, 3) then [[-1, 0, 0], [ 0,-1, 0], [ 0, 0, 1]]
      else if (i, j) = (1, 2) then [[ 0, 2, 0], [ 2, 0, 0], [ 0, 0, 0]]
      else if (i, j) = (1, 3) then [[ 0, 0, 2], [ 0, 0, 0], [ 2, 0, 0]]
      else if (i, j) = (2, 3) then [[ 0, 0, 0], [ 0, 0, 2], [ 0, 2, 0]]
      else if (i, j) = (0, 1) then [[ 0, 0, 0], [ 0, 0,-2], [ 0, 2, 0]]
      else if (i, j) = (0, 2) then [[ 0, 0, 2], [ 0, 0, 0], [-2, 0, 0]]
      else if (i, j) = (0, 3) then [[ 0,-2, 0], [ 2, 0, 0], [ 0, 0, 0]]
      else [[0, 0, 0], [0, 0, 0], [0, 0, 0]])"

definition QUAT_TO_ROT :: ndarray where
  "QUAT_TO_ROT =
     \<lparr>shape = [4, 4, 3, 3],
      item = (\<lambda>i. QUAT_TO_ROT_block (i ! 0) (i ! 1) ! (i ! 2) ! (i ! 3))\<rparr>"

definition QUAT_MULTIPLY_slice :: "nat \<Rightarrow> real list list" where
  "QUAT_MULTIPLY_slice k =
     (if k = 0 then [[ 1, 0, 0, 0],
                     [ 0,-1, 0, 0],
                     [ 0, 0,-1, 0],
                     [ 0, 0, 0,-1]]
      else if k = 1 then [[ 0, 1, 0, 0],
                          [ 1, 0, 0, 0],
                          [ 0, 0, 0, 1],
                          [ 0, 0,-1, 0]]
      else if k = 2 then [[ 0, 0, 1, 0],
                          [ 0, 0, 0,-1],
                          [ 1, 0, 0, 0],
                          [ 0, 1, 0, 0]]
      else [[ 0, 0, 0, 1],
            [ 0, 0, 1, 0],
            [ 0,-1, 0, 0],
            [ 1, 0, 0, 0]])"

definition QUAT_MULTIPLY :: ndarray where
  "QUAT_MULTIPLY =
     \<lparr>shape = [4, 4, 4], item = (\<lambda>i. QUAT_MULTIPLY_slice (i ! 2) ! (i ! 0) ! (i ! 1))\<rparr>"

definition QUAT_MULTIPLY_BY_VEC :: ndarray where
  "QUAT_MULTIPLY_BY_VEC =
     \<lparr>shape = [4, 3, 4], item = (\<lambda>i. item QUAT_MULTIPLY [i ! 0, Suc (i ! 1), i ! 2])\<rparr>"

section \<open>Quaternion kernels\<close>

text \<open>
  \<^verbatim>\<open>quat_to_rot\<close> contracts the table against the outer product of the quaternion with
  itself; \<open>quat_to_rot_tensor\<close> is the value of its local \<^verbatim>\<open>rot_tensor\<close>. The function
  then computes the result shape with \<^verbatim>\<open>t_shape = rot_tensor.shape[:-1]\<close> followed by
  \<^verbatim>\<open>t_shape.extend([3, 3])\<close>.
\<close>

definition quat_to_rot_tensor :: "ndarray \<Rightarrow> ndarray res" where
  "quat_to_rot_tensor normalized_quat =
     bnd (expand_dims normalized_quat [-1, -3]) (\<lambda>mat.
     bnd (reshape QUAT_TO_ROT [4, 4, 9]) (\<lambda>tab.
     bnd (getitem_colon_newaxis2 normalized_quat) (\<lambda>q.
     bnd (np_mul tab q) (\<lambda>p.
     bnd (np_mul p mat) (\<lambda>p.
     np_sum2 p (-3) (-2))))))"

definition quat_to_rot :: "ndarray \<Rightarrow> ndarray res" where
  "quat_to_rot normalized_quat =
     bnd (quat_to_rot_tensor normalized_quat) (\<lambda>rot_tensor.
     bnd (tuple_extend (butlast (shape rot_tensor)) [3, 3]) (\<lambda>t_shape.
     reshape rot_tensor t_shape))"

definition quat_multiply_by_vec :: "ndarray \<Rightarrow> ndarray \<Rightarrow> ndarray res" where
  "quat_multiply_by_vec quat vec =
     bnd (expand_dims vec [-1, -3]) (\<lambda>mat.
     bnd (getitem_colon_newaxis2 quat) (\<lambda>q.
     bnd (np_mul QUAT_MULTIPLY_BY_VEC q) (\<lambda>p.
     bnd (np_mul p mat) (\<lambda>p.
     np_sum2 p (-3) (-2)))))"

section \<open>QuatAffine\<close>

text \<open>
  The object holds three fields. \<^verbatim>\<open>quaternion\<close> may be \<^verbatim>\<open>None\<close>; after a successful
  construction \<^verbatim>\<open>rotation\<close> and \<^verbatim>\<open>translation\<close> are arrays.
\<close>

record quat_affine =
  quaternion :: "ndarray option"
  rotation :: ndarray
  translation :: ndarray

text \<open>
  The constructor. Its first assertion reads \<^verbatim>\<open>quaternion.shape[-1]\<close>, which raises
  \<^verbatim>\<open>IndexError\<close> on a zero-dimensional array. With \<^verbatim>\<open>rotation=None\<close> it calls
  \<^verbatim>\<open>quat_to_rot(quaternion)\<close>, also when the quaternion is \<^verbatim>\<open>None\<close>
  (\<^verbatim>\<open>np.expand_dims\<close> then rejects the axis \<^verbatim>\<open>-3\<close> of a rank-2 result). The assertions
  on the rotation and the translation are its last statements. Dividing by a zero norm
  gives \<^verbatim>\<open>nan\<close> in numpy and raises nothing; the model's quotient there is not numpy's.
\<close>

definition assert_last_dim :: "ndarray \<Rightarrow> nat \<Rightarrow> unit res" where
  "assert_last_dim a n =
     (if shape a = [] then Inl IndexError
      else if last (shape a) \<noteq> n then Inl AssertionError
      else Inr ())"

definition assert_last2_dims :: "ndarray \<Rightarrow> unit res" where
  "assert_last2_dims a =
     (if shape a = [] then Inl IndexError
      else if last (shape a) \<noteq> 3 then Inl AssertionError
      else if length (shape a) < 2 then Inl IndexError
      else if last (butlast (shape a)) \<noteq> 3 then Inl AssertionError
      else Inr ())"

definition QuatAffine ::
    "ndarray option \<Rightarrow> ndarray \<Rightarrow> ndarray option \<Rightarrow> bool \<Rightarrow> quat_affine res" where
  "QuatAffine quaternion0 translation0 rotation0 normalize0 =
     bnd (case quaternion0 of None \<Rightarrow> Inr () | Some q \<Rightarrow> assert_last_dim q 4) (\<lambda>_.
     bnd (case quaternion0 of
            None \<Rightarrow> Inr None
          | Some q \<Rightarrow>
              if normalize0
              then bnd (linalg_norm q (-1)) (\<lambda>q_length.
                   bnd (np_div q (getitem_newaxis q_length)) (\<lambda>q'. Inr (Some q')))
              else Inr (Some q)) (\<lambda>quaternion1.
     bnd (case rotation0 of
            Some r \<Rightarrow> Inr r
          | None \<Rightarrow> (case quaternion1 of None \<Rightarrow> Inl AxisError | Some q \<Rightarrow> quat_to_rot q))
       (\<lambda>rotation1.
     bnd (assert_last2_dims rotation1) (\<lambda>_.
     bnd (assert_last_dim translation0 3) (\<lambda>_.
     Inr \<lparr>quaternion = quaternion1, rotation = rotation1, translation = translation0\<rparr>)))))"

text \<open>
  \<^verbatim>\<open>to_tensor\<close> is \<^verbatim>\<open>np.concatenate([self.quaternion, self.translation], axis=-1)\<close>.
  numpy turns \<^verbatim>\<open>None\<close> into a zero-dimensional array, and refuses to concatenate
  zero-dimensional arrays with a \<^verbatim>\<open>ValueError\<close>.
\<close>

definition to_tensor :: "quat_affine \<Rightarrow> ndarray res" where
  "to_tensor self =
     (case quaternion self of
        None \<Rightarrow> Inl ValueError
      | Some q \<Rightarrow> concatenate_last q (translation self))"

text \<open>
  \<^verbatim>\<open>stop_rot_gradient\<close> calls \<^verbatim>\<open>detach()\<close> on the quaternion (when there is one) and on
  the rotation, then builds a frame without normalizing.
\<close>

definition stop_rot_gradient :: "quat_affine \<Rightarrow> quat_affine res" where
  "stop_rot_gradient self =
     bnd (case quaternion self of
            None \<Rightarrow> Inr None
          | Some q \<Rightarrow> bnd (ndarray_detach q) (\<lambda>q'. Inr (Some q'))) (\<lambda>quat.
     bnd (ndarray_detach (rotation self)) (\<lambda>rot.
     QuatAffine quat (translation self) (Some rot) False))"

definition scale_translation :: "quat_affine \<Rightarrow> ndarray \<Rightarrow> quat_affine res" where
  "scale_translation self position_scale =
     bnd (np_mul position_scale (translation self)) (\<lambda>t.
     QuatAffine (quaternion self) t (Some (rotation self)) False)"

text \<open>
  \<open>lin3\<close> is \<^verbatim>\<open>a * x + b * y + c * z\<close> on six arrays.
  \<^verbatim>\<open>apply_rot_to_vec\<close> and \<^verbatim>\<open>apply_inverse_rot_to_vec\<close>. With \<^verbatim>\<open>unstack=False\<close> the
  vector is a Python list that is unpacked into three arrays; with \<^verbatim>\<open>unstack=True\<close> it
  is one array whose last axis is read at 0, 1 and 2.
\<close>

definition lin3 ::
    "ndarray \<Rightarrow> ndarray \<Rightarrow> ndarray \<Rightarrow> ndarray \<Rightarrow> ndarray \<Rightarrow> ndarray \<Rightarrow> ndarray res" where
  "lin3 a b c x y z =
     bnd (np_mul a x) (\<lambda>ax.
     bnd (np_mul b y) (\<lambda>by.
     bnd (np_add ax by) (\<lambda>s.
     bnd (np_mul c z) (\<lambda>cz.
     np_add s cz))))"

text \<open>
  The expression \<^verbatim>\<open>a * x + b * y + c * z\<close> whose operands are themselves expressions that
  can raise: Python evaluates them from left to right, each product as soon as its two
  factors are there.
\<close>

definition lin3_expr ::
    "ndarray res \<Rightarrow> ndarray res \<Rightarrow> ndarray res \<Rightarrow> ndarray res \<Rightarrow> ndarray res \<Rightarrow> ndarray res \<Rightarrow>
     ndarray res" where
  "lin3_expr a x b y c z =
     bnd a (\<lambda>a. bnd x (\<lambda>x. bnd (np_mul a x) (\<lambda>ax.
     bnd b (\<lambda>b. bnd y (\<lambda>y. bnd (np_mul b y) (\<lambda>by.
     bnd (np_add ax by) (\<lambda>s.
     bnd c (\<lambda>c. bnd z (\<lambda>z. bnd (np_mul c z) (\<lambda>cz.
     np_add s cz))))))))))"

definition unpack3 :: "ndarray list \<Rightarrow> (ndarray \<times> ndarray \<times> ndarray) res" where
  "unpack3 v = (case v of [x, y, z] \<Rightarrow> Inr (x, y, z) | _ \<Rightarrow> Inl ValueError)"

definition unstack3 :: "ndarray \<Rightarrow> (ndarray \<times> ndarray \<times> ndarray) res" where
  "unstack3 v =
     bnd (getitem_last v 0) (\<lambda>x.
     bnd (getitem_last v 1) (\<lambda>y.
     bnd (getitem_last v 2) (\<lambda>z. Inr (x, y, z))))"

definition rot_row :: "ndarray \<Rightarrow> nat \<Rightarrow> ndarray \<Rightarrow> ndarray \<Rightarrow> ndarray \<Rightarrow> ndarray res" where
  "rot_row rot i x y z =
     lin3_expr (getitem_last2 rot i 0) (Inr x) (getitem_last2 rot i 1) (Inr y)
               (getitem_last2 rot i 2) (Inr z)"

definition rot_column :: "ndarray \<Rightarrow> nat \<Rightarrow> ndarray \<Rightarrow> ndarray \<Rightarrow> ndarray \<Rightarrow> ndarray res" where
  "rot_column rot i x y z =
     lin3_expr (getitem_last2 rot 0 i) (Inr x) (getitem_last2 rot 1 i) (Inr y)
               (getitem_last2 rot 2 i) (Inr z)"

definition apply_rot_xyz :: "ndarray \<Rightarrow> ndarray \<times> ndarray \<times> ndarray \<Rightarrow> ndarray list res" where
  "apply_rot_xyz rot v =
     (case v of (x, y, z) \<Rightarrow>
        bnd (rot_row rot 0 x y z) (\<lambda>r0.
        bnd (rot_row rot 1 x y z) (\<lambda>r1.
        bnd (rot_row rot 2 x y z) (\<lambda>r2. Inr [r0, r1, r2]))))"

definition apply_rot_to_vec :: "ndarray \<Rightarrow> ndarray list \<Rightarrow> ndarray list res" where
  "apply_rot_to_vec rot v = bnd (unpack3 v) (apply_rot_xyz rot)"

definition apply_rot_to_vec_unstack :: "ndarray \<Rightarrow> ndarray \<Rightarrow> ndarray list res" where
  "apply_rot_to_vec_unstack rot v = bnd (unstack3 v) (apply_rot_xyz rot)"

definition apply_inverse_rot_to_vec :: "ndarray \<Rightarrow> ndarray list \<Rightarrow> ndarray list res" where
  "apply_inverse_rot_to_vec rot v =
     bnd (unpack3 v) (\<lambda>(x, y, z).
     bnd (rot_column rot 0 x y z) (\<lambda>r0.
     bnd (rot_column rot 1 x y z) (\<lambda>r1.
     bnd (rot_column rot 2 x y z) (\<lambda>r2. Inr [r0, r1, r2]))))"

text \<open>
  \<^verbatim>\<open>pre_compose\<close>. With no quaternion, \<^verbatim>\<open>quat_multiply_by_vec\<close> subscripts \<^verbatim>\<open>None\<close>
  (a \<^verbatim>\<open>TypeError\<close>) after it has expanded the vector. \<open>pre_compose_args\<close> is the body
  up to the last statement: it computes \<^verbatim>\<open>new_quaternion\<close> and \<^verbatim>\<open>new_translation\<close>. The
  last statement is \<^verbatim>\<open>return QuatAffine(new_quaternion, new_translation)\<close>: no rotation,
  \<^verbatim>\<open>normalize=True\<close>.
\<close>

definition pre_compose_args :: "quat_affine \<Rightarrow> ndarray \<Rightarrow> (ndarray \<times> ndarray) res" where
  "pre_compose_args self update =
     bnd (getitem_last_slice update 0 3) (\<lambda>vector_quaternion_update.
     bnd (getitem_last update 3) (\<lambda>u3.
     bnd (getitem_last update 4) (\<lambda>u4.
     bnd (getitem_last update 5) (\<lambda>u5.
     bnd (case quaternion self of
            None \<Rightarrow> bnd (expand_dims vector_quaternion_update [-1, -3]) (\<lambda>_. Inl TypeError)
          | Some q \<Rightarrow> bnd (quat_multiply_by_vec q vector_quaternion_update) (np_add q))
       (\<lambda>new_quaternion.
     bnd (apply_rot_to_vec (rotation self) [u3, u4, u5]) (\<lambda>trans_update.
     bnd (np_stack trans_update (-1)) (\<lambda>trans_update.
     bnd (np_add (translation self) trans_update) (\<lambda>new_translation.
     Inr (new_quaternion, new_translation)))))))))"

definition pre_compose :: "quat_affine \<Rightarrow> ndarray \<Rightarrow> quat_affine res" where
  "pre_compose self update =
     bnd (pre_compose_args self update) (\<lambda>(new_quaternion, new_translation).
     QuatAffine (Some new_quaternion) new_translation None True)"

text \<open>
  \<^verbatim>\<open>apply_to_point\<close> and \<^verbatim>\<open>invert_point\<close>. The loop runs \<^verbatim>\<open>extra_dims\<close> times and
  gives the translation a new axis before its last one and the rotation a new axis
  before its last two.
\<close>

fun expand_extra_dims :: "nat \<Rightarrow> ndarray \<Rightarrow> ndarray \<Rightarrow> (ndarray \<times> ndarray) res" where
  "expand_extra_dims 0 rot tr = Inr (rot, tr)"
| "expand_extra_dims (Suc n) rot tr =
     bnd (expand_dims tr [-2]) (\<lambda>tr'.
     bnd (expand_dims rot [-3]) (\<lambda>rot'.
     expand_extra_dims n rot' tr'))"

definition apply_to_point :: "quat_affine \<Rightarrow> ndarray list \<Rightarrow> nat \<Rightarrow> ndarray list res" where
  "apply_to_point self point extra_dims =
     bnd (expand_extra_dims extra_dims (rotation self) (translation self)) (\<lambda>(rot, tr).
     bnd (apply_rot_to_vec rot point) (\<lambda>rot_point.
     bnd (getitem_last tr 0) (\<lambda>t0.
     bnd (np_add (rot_point ! 0) t0) (\<lambda>p0.
     bnd (getitem_last tr 1) (\<lambda>t1.
     bnd (np_add (rot_point ! 1) t1) (\<lambda>p1.
     bnd (getitem_last tr 2) (\<lambda>t2.
     bnd (np_add (rot_point ! 2) t2) (\<lambda>p2.
     Inr [p0, p1, p2]))))))))"

definition getitem_list :: "ndarray list \<Rightarrow> nat \<Rightarrow> ndarray res" where
  "getitem_list xs i = (if i < length xs then Inr (xs ! i) else Inl IndexError)"

definition invert_point :: "quat_affine \<Rightarrow> ndarray list \<Rightarrow> nat \<Rightarrow> ndarray list res" where
  "invert_point self transformed_point extra_dims =
     bnd (expand_extra_dims extra_dims (rotation self) (translation self)) (\<lambda>(rot, tr).
     bnd (getitem_list transformed_point 0) (\<lambda>q0.
     bnd (getitem_last tr 0) (\<lambda>t0.
     bnd (np_sub q0 t0) (\<lambda>p0.
     bnd (getitem_list transformed_point 1) (\<lambda>q1.
     bnd (getitem_last tr 1) (\<lambda>t1.
     bnd (np_sub q1 t1) (\<lambda>p1.
     bnd (getitem_list transformed_point 2) (\<lambda>q2.
     bnd (getitem_last tr 2) (\<lambda>t2.
     bnd (np_sub q2 t2) (\<lambda>p2.
     apply_inverse_rot_to_vec rot [p0, p1, p2]))))))))))"

section \<open>Canonical frames\<close>

text \<open>
  \<^verbatim>\<open>_multiply(a, b)\<close> reads the nine entries of each argument with \<^verbatim>\<open>a[..., i, j]\<close>,
  stacks each row of the product on a new last axis and the three rows on the axis
  before it.
\<close>

definition multiply :: "ndarray \<Rightarrow> ndarray \<Rightarrow> ndarray res" where
  "multiply a b =
     bnd (getitem_last2 a 0 0) (\<lambda>a1.
     bnd (getitem_last2 a 0 1) (\<lambda>a2.
     bnd (getitem_last2 a 0 2) (\<lambda>a3.
     bnd (getitem_last2 a 1 0) (\<lambda>a11.
     bnd (getitem_last2 a 1 1) (\<lambda>a12.
     bnd (getitem_last2 a 1 2) (\<lambda>a13.
     bnd (getitem_last2 a 2 0) (\<lambda>a21.
     bnd (getitem_last2 a 2 1) (\<lambda>a22.
     bnd (getitem_last2 a 2 2) (\<lambda>a23.
     bnd (getitem_last2 b 0 0) (\<lambda>b1.
     bnd (getitem_last2 b 1 0) (\<lambda>b2.
     bnd (getitem_last2 b 0 1) (\<lambda>b3.
     bnd (getitem_last2 b 1 1) (\<lambda>b11.
     bnd (getitem_last2 b 2 0) (\<lambda>b12.
     bnd (getitem_last2 b 0 2) (\<lambda>b13.
     bnd (getitem_last2 b 1 2) (\<lambda>b21.
     bnd (getitem_last2 b 2 1) (\<lambda>b22.
     bnd (getitem_last2 b 2 2) (\<lambda>b23.
     bnd (lin3 a1 a2 a3 b1 b2 b12) (\<lambda>c00.
     bnd (lin3 a1 a2 a3 b3 b11 b22) (\<lambda>c01.
     bnd (lin3 a1 a2 a3 b13 b21 b23) (\<lambda>c02.
     bnd (np_stack [c00, c01, c02] (-1)) (\<lambda>row0.
     bnd (lin3 a11 a12 a13 b1 b2 b12) (\<lambda>c10.
     bnd (lin3 a11 a12 a13 b3 b11 b22) (\<lambda>c11.
     bnd (lin3 a11 a12 a13 b13 b21 b23) (\<lambda>c12.
     bnd (np_stack [c10, c11, c12] (-1)) (\<lambda>row1.
     bnd (lin3 a21 a22 a23 b1 b2 b12) (\<lambda>c20.
     bnd (lin3 a21 a22 a23 b3 b11 b22) (\<lambda>c21.
     bnd (lin3 a21 a22 a23 b13 b21 b23) (\<lambda>c22.
     bnd (np_stack [c20, c21, c22] (-1)) (\<lambda>row2.
     np_stack [row0, row1, row2] (-2)))))))))))))))))))))))))))))))"

text \<open>
  The three rotation matrices are built the same way: nine arrays are stacked on a new
  last axis and the result is reshaped to \<^verbatim>\<open>sin.shape + (3, 3)\<close>.
\<close>

definition stack_matrix :: "ndarray list \<Rightarrow> nat list \<Rightarrow> ndarray res" where
  "stack_matrix entries s = bnd (np_stack entries (-1)) (\<lambda>m. reshape m (s @ [3, 3]))"

text \<open>The constant \<^verbatim>\<open>1e-20\<close> that every normalization of the builder adds.\<close>

definition eps :: real where
  "eps = 1 / 10 ^ 20"

text \<open>
  \<^verbatim>\<open>make_canonical_transform\<close>, statement by statement. A failed \<^verbatim>\<open>assert\<close> raises
  \<^verbatim>\<open>AssertionError\<close>; \<^verbatim>\<open>n_xyz.shape[-1]\<close> cannot fail after the first assertion.
\<close>

definition make_canonical_transform ::
    "ndarray \<Rightarrow> ndarray \<Rightarrow> ndarray \<Rightarrow> (ndarray \<times> ndarray) res" where
  "make_canonical_transform n_xyz0 ca_xyz c_xyz0 =
     (if length (shape n_xyz0) \<noteq> 3 then Inl AssertionError
      else if last (shape n_xyz0) \<noteq> 3 then Inl AssertionError
      else if \<not> (shape n_xyz0 = shape ca_xyz \<and> shape ca_xyz = shape c_xyz0)
        then Inl AssertionError
      else
        let translation = np_neg ca_xyz in
        bnd (np_add n_xyz0 translation) (\<lambda>n_xyz.
        bnd (np_add c_xyz0 translation) (\<lambda>c_xyz.
        bnd (getitem_last c_xyz 0) (\<lambda>c_x.
        bnd (getitem_last c_xyz 1) (\<lambda>c_y.
        bnd (getitem_last c_xyz 2) (\<lambda>c_z.
        bnd (np_add (np_square c_x) (np_square c_y)) (\<lambda>s.
        bnd (np_add s (scalar eps)) (\<lambda>s.
        let norm = np_sqrt s in
        bnd (np_div (np_neg c_y) norm) (\<lambda>sin_c1.
        bnd (np_div c_x norm) (\<lambda>cos_c1.
        let zeros = zeros_like sin_c1; ones = ones_like sin_c1 in
        bnd (stack_matrix [cos_c1, np_neg sin_c1, zeros,
                           sin_c1, cos_c1, zeros,
                           zeros, zeros, ones] (shape sin_c1)) (\<lambda>c1_rot_matrix.
        bnd (np_sum (np_square c_xyz) (-1)) (\<lambda>s.
        bnd (np_add (np_sqrt s) (scalar eps)) (\<lambda>norm.
        bnd (np_div c_z norm) (\<lambda>sin_c2.
        bnd (np_add (np_square c_x) (np_square c_y)) (\<lambda>s.
        bnd (np_div (np_sqrt s) norm) (\<lambda>cos_c2.
        bnd (stack_matrix [cos_c2, zeros, sin_c2,
                           zeros, ones, zeros,
                           np_neg sin_c2, zeros, cos_c2] (shape sin_c2)) (\<lambda>c2_rot_matrix.
        bnd (multiply c2_rot_matrix c1_rot_matrix) (\<lambda>c_rot_matrix.
        bnd (apply_rot_to_vec_unstack c_rot_matrix n_xyz) (\<lambda>rotated.
        bnd (np_stack rotated (-1)) (\<lambda>n_xyz.
        bnd (getitem_last n_xyz 0) (\<lambda>_.
        bnd (getitem_last n_xyz 1) (\<lambda>n_y.
        bnd (getitem_last n_xyz 2) (\<lambda>n_z.
        bnd (np_add (np_square n_y) (np_square n_z)) (\<lambda>s.
        bnd (np_add s (scalar eps)) (\<lambda>s.
        let norm = np_sqrt s in
        bnd (np_div (np_neg n_z) norm) (\<lambda>sin_n.
        bnd (np_div n_y norm) (\<lambda>cos_n.
        bnd (stack_matrix [ones, zeros, zeros,
                           zeros, cos_n, np_neg sin_n,
                           zeros, sin_n, cos_n] (shape sin_n)) (\<lambda>n_rot_matrix.
        bnd (multiply n_rot_matrix c_rot_matrix) (\<lambda>rot.
        Inr (translation, rot))))))))))))))))))))))))))))))"

subsection \<open>The per-vector variant\<close>

text \<open>
  Indexing as the per-vector code writes it: \<^verbatim>\<open>a[i]\<close> reads the first axis and \<^verbatim>\<open>a[:, i]\<close>
  the second one. \<^verbatim>\<open>np.array\<close> of a list of arrays of one shape stacks them on a new first
  axis (an empty list gives an empty array, arrays of different shapes are refused).
  \<^verbatim>\<open>a.T\<close> reverses the axes and \<^verbatim>\<open>np.transpose(a, axes)\<close> permutes them.
\<close>

definition getitem_first :: "ndarray \<Rightarrow> nat \<Rightarrow> ndarray res" where
  "getitem_first a i =
     (if shape a = [] \<or> \<not> i < hd (shape a) then Inl IndexError
      else Inr \<lparr>shape = tl (shape a), item = (\<lambda>idx. item a (i # idx))\<rparr>)"

definition getitem_first2 :: "ndarray \<Rightarrow> nat \<Rightarrow> nat \<Rightarrow> ndarray res" where
  "getitem_first2 a i j = bnd (getitem_first a i) (\<lambda>r. getitem_first r j)"

definition getitem_colon :: "ndarray \<Rightarrow> nat \<Rightarrow> ndarray res" where
  "getitem_colon a i =
     (if length (shape a) < 2 \<or> \<not> i < shape a ! 1 then Inl IndexError
      else Inr \<lparr>shape = hd (shape a) # drop 2 (shape a),
                item = (\<lambda>idx. item a (hd idx # i # tl idx))\<rparr>)"

definition np_array :: "ndarray list \<Rightarrow> ndarray res" where
  "np_array as =
     (if as = [] then Inr \<lparr>shape = [0], item = (\<lambda>idx. 0)\<rparr>
      else if \<not> list_all (\<lambda>a. shape a = shape (hd as)) as then Inl ValueError
      else Inr (rows as))"

definition transpose_T :: "ndarray \<Rightarrow> ndarray" where
  "transpose_T a = \<lparr>shape = rev (shape a), item = (\<lambda>idx. item a (rev idx))\<rparr>"

fun index_of :: "nat \<Rightarrow> nat list \<Rightarrow> nat" where
  "index_of d [] = 0"
| "index_of d (x # xs) = (if x = d then 0 else Suc (index_of d xs))"

definition np_transpose :: "ndarray \<Rightarrow> nat list \<Rightarrow> ndarray res" where
  "np_transpose a axes =
     (if sort axes \<noteq> [0..<length (shape a)] then Inl ValueError
      else Inr \<lparr>shape = map (\<lambda>d. shape a ! d) axes,
                item = (\<lambda>idx. item a (map (\<lambda>d. idx ! index_of d axes)
                                          [0..<length (shape a)]))\<rparr>)"

text \<open>
  \<^verbatim>\<open>apply_rot_to_vec_np\<close> with \<^verbatim>\<open>unstack=True\<close>, and \<^verbatim>\<open>_multiply_np\<close>: every entry of the
  rotation is read with \<^verbatim>\<open>rot[i][j]\<close>; the product is built row by row with \<^verbatim>\<open>np.array\<close>
  and the rows are stacked with \<^verbatim>\<open>np.stack\<close> on the first axis.
\<close>

definition apply_rot_to_vec_np_unstack :: "ndarray \<Rightarrow> ndarray \<Rightarrow> ndarray list res" where
  "apply_rot_to_vec_np_unstack rot v =
     bnd (unstack3 v) (\<lambda>(x, y, z).
     bnd (lin3_expr (getitem_first2 rot 0 0) (Inr x) (getitem_first2 rot 0 1) (Inr y)
            (getitem_first2 rot 0 2) (Inr z)) (\<lambda>r0.
     bnd (lin3_expr (getitem_first2 rot 1 0) (Inr x) (getitem_first2 rot 1 1) (Inr y)
            (getitem_first2 rot 1 2) (Inr z)) (\<lambda>r1.
     bnd (lin3_expr (getitem_first2 rot 2 0) (Inr x) (getitem_first2 rot 2 1) (Inr y)
            (getitem_first2 rot 2 2) (Inr z)) (\<lambda>r2.
     Inr [r0, r1, r2]))))"

definition multiply_np_entry :: "ndarray \<Rightarrow> ndarray \<Rightarrow> nat \<Rightarrow> nat \<Rightarrow> ndarray res" where
  "multiply_np_entry a b i k =
     lin3_expr (getitem_first2 a i 0) (getitem_first2 b 0 k)
               (getitem_first2 a i 1) (getitem_first2 b 1 k)
               (getitem_first2 a i 2) (getitem_first2 b 2 k)"

definition multiply_np_row :: "ndarray \<Rightarrow> ndarray \<Rightarrow> nat \<Rightarrow> ndarray res" where
  "multiply_np_row a b i =
     bnd (multiply_np_entry a b i 0) (\<lambda>c0.
     bnd (multiply_np_entry a b i 1) (\<lambda>c1.
     bnd (multiply_np_entry a b i 2) (\<lambda>c2.
     np_array [c0, c1, c2])))"

definition multiply_np :: "ndarray \<Rightarrow> ndarray \<Rightarrow> ndarray res" where
  "multiply_np a b =
     bnd (multiply_np_row a b 0) (\<lambda>row0.
     bnd (multiply_np_row a b 1) (\<lambda>row1.
     bnd (multiply_np_row a b 2) (\<lambda>row2.
     np_stack [row0, row1, row2] 0)))"

text \<open>
  \<open>stack_rows_np\<close> is \<^verbatim>\<open>np.stack([np.array(r0), np.array(r1), np.array(r2)])\<close>. \<open>norm_np2\<close> is
  the expression \<^verbatim>\<open>np.sqrt(1e-20 + x**2 + y**2)\<close> and \<open>norm_np3\<close> is
  \<^verbatim>\<open>np.sqrt(1e-20 + x**2 + y**2 + z**2)\<close>; the code writes each of them out twice, once for
  the sine and once for the cosine.
\<close>

definition stack_rows_np ::
    "ndarray list \<Rightarrow> ndarray list \<Rightarrow> ndarray list \<Rightarrow> ndarray res" where
  "stack_rows_np r0 r1 r2 =
     bnd (np_array r0) (\<lambda>row0.
     bnd (np_array r1) (\<lambda>row1.
     bnd (np_array r2) (\<lambda>row2.
     np_stack [row0, row1, row2] 0)))"

definition norm_np2 :: "ndarray \<Rightarrow> ndarray \<Rightarrow> ndarray res" where
  "norm_np2 x y =
     bnd (np_add (scalar eps) (np_square x)) (\<lambda>s.
     bnd (np_add s (np_square y)) (\<lambda>s.
     Inr (np_sqrt s)))"

definition norm_np3 :: "ndarray \<Rightarrow> ndarray \<Rightarrow> ndarray \<Rightarrow> ndarray res" where
  "norm_np3 x y z =
     bnd (np_add (scalar eps) (np_square x)) (\<lambda>s.
     bnd (np_add s (np_square y)) (\<lambda>s.
     bnd (np_add s (np_square z)) (\<lambda>s.
     Inr (np_sqrt s))))"

text \<open>
  \<^verbatim>\<open>make_canonical_transform_np\<close>, statement by statement, for arrays of shape
  \<^verbatim>\<open>[batch, 3]\<close>.
\<close>

definition make_canonical_transform_np ::
    "ndarray \<Rightarrow> ndarray \<Rightarrow> ndarray \<Rightarrow> (ndarray \<times> ndarray) res" where
  "make_canonical_transform_np n_xyz0 ca_xyz c_xyz0 =
     (if length (shape n_xyz0) \<noteq> 2 then Inl AssertionError
      else if last (shape n_xyz0) \<noteq> 3 then Inl AssertionError
      else if \<not> (shape n_xyz0 = shape ca_xyz \<and> shape ca_xyz = shape c_xyz0)
        then Inl AssertionError
      else
        let translation = np_neg ca_xyz in
        bnd (np_add n_xyz0 translation) (\<lambda>n_xyz.
        bnd (np_add c_xyz0 translation) (\<lambda>c_xyz.
        bnd (getitem_colon c_xyz 0) (\<lambda>c_x.
        bnd (getitem_colon c_xyz 1) (\<lambda>c_y.
        bnd (getitem_colon c_xyz 2) (\<lambda>c_z.
        bnd (norm_np2 c_x c_y) (\<lambda>norm.
        bnd (np_div (np_neg c_y) norm) (\<lambda>sin_c1.
        bnd (norm_np2 c_x c_y) (\<lambda>norm.
        bnd (np_div c_x norm) (\<lambda>cos_c1.
        let zeros = zeros_like sin_c1; ones = ones_like sin_c1 in
        bnd (stack_rows_np [cos_c1, np_neg sin_c1, zeros]
                           [sin_c1, cos_c1, zeros]
                           [zeros, zeros, ones]) (\<lambda>c1_rot_matrix.
        bnd (norm_np3 c_x c_y c_z) (\<lambda>norm.
        bnd (np_div c_z norm) (\<lambda>sin_c2.
        bnd (np_add (np_square c_x) (np_square c_y)) (\<lambda>s.
        bnd (norm_np3 c_x c_y c_z) (\<lambda>norm.
        bnd (np_div (np_sqrt s) norm) (\<lambda>cos_c2.
        bnd (stack_rows_np [cos_c2, zeros, sin_c2]
                           [zeros, ones, zeros]
                           [np_neg sin_c2, zeros, cos_c2]) (\<lambda>c2_rot_matrix.
        bnd (multiply_np c2_rot_matrix c1_rot_matrix) (\<lambda>c_rot_matrix.
        bnd (apply_rot_to_vec_np_unstack c_rot_matrix n_xyz) (\<lambda>rotated.
        bnd (np_stack rotated 0) (\<lambda>stacked.
        let n_xyz = transpose_T stacked in
        bnd (getitem_colon n_xyz 0) (\<lambda>_.
        bnd (getitem_colon n_xyz 1) (\<lambda>n_y.
        bnd (getitem_colon n_xyz 2) (\<lambda>n_z.
        bnd (norm_np2 n_y n_z) (\<lambda>norm.
        bnd (np_div (np_neg n_z) norm) (\<lambda>sin_n.
        bnd (norm_np2 n_y n_z) (\<lambda>norm.
        bnd (np_div n_y norm) (\<lambda>cos_n.
        bnd (stack_rows_np [ones, zeros, zeros]
                           [zeros, cos_n, np_neg sin_n]
                           [zeros, sin_n, cos_n]) (\<lambda>n_rot_matrix.
        bnd (multiply_np n_rot_matrix c_rot_matrix) (\<lambda>m.
        bnd (np_transpose m [2, 0, 1]) (\<lambda>rot.
        Inr (translation, rot)))))))))))))))))))))))))))))))"

section \<open>Conditions and literals used in the statements\<close>

text \<open>
  \<open>np_full\<close> is \<^verbatim>\<open>np.full(shape, c)\<close> and \<open>eye3\<close> is the 3x3 identity matrix. The three
  conditions are the ones the constructor's assertions test; \<open>frame_ok\<close> holds of every
  frame the constructor returns.
\<close>

definition quat_ok :: "ndarray option \<Rightarrow> bool" where
  "quat_ok qo = (case qo of None \<Rightarrow> True | Some q \<Rightarrow> shape q \<noteq> [] \<and> last (shape q) = 4)"

definition rot_ok :: "ndarray \<Rightarrow> bool" where
  "rot_ok r = (2 \<le> length (shape r) \<and> last (shape r) = 3 \<and> last (butlast (shape r)) = 3)"

definition trans_ok :: "ndarray \<Rightarrow> bool" where
  "trans_ok t = (shape t \<noteq> [] \<and> last (shape t) = 3)"


definition frame_ok :: "quat_affine \<Rightarrow> bool" where
  "frame_ok f = (quat_ok (quaternion f) \<and> rot_ok (rotation f) \<and> trans_ok (translation f))"

definition eye3 :: ndarray where
  "eye3 = rows [array1 [1, 0, 0], array1 [0, 1, 0], array1 [0, 0, 1]]"


type_synonym quat = "real \<times> real \<times> real \<times> real"

definition hamilton :: "quat \<Rightarrow> quat \<Rightarrow> quat" where
  "hamilton p q =
     (case p of (a0, a1, a2, a3) \<Rightarrow> case q of (b0, b1, b2, b3) \<Rightarrow>
        (a0 * b0 - a1 * b1 - a2 * b2 - a3 * b3,
         a0 * b1 + a1 * b0 + a2 * b3 - a3 * b2,
         a0 * b2 - a1 * b3 + a2 * b0 + a3 * b1,
         a0 * b3 + a1 * b2 - a2 * b1 + a3 * b0))"

definition quat_at :: "ndarray \<Rightarrow> nat list \<Rightarrow> quat" where
  "quat_at a l = (item a (l @ [0]), item a (l @ [1]), item a (l @ [2]), item a (l @ [3]))"

definition pure_quat_at :: "ndarray \<Rightarrow> nat list \<Rightarrow> quat" where
  "pure_quat_at v l = (0, item v (l @ [0]), item v (l @ [1]), item v (l @ [2]))"

definition hamilton_vector_part :: "ndarray \<Rightarrow> ndarray \<Rightarrow> ndarray" where
  "hamilton_vector_part quat v =
     \<lparr>shape = butlast (shape quat) @ [3],
      item = (\<lambda>i. case hamilton (quat_at quat (butlast i)) (pure_quat_at v (butlast i)) of
                     (w, x, y, z) \<Rightarrow> [x, y, z] ! last i)\<rparr>"

definition rotation_of_quat :: "quat \<Rightarrow> nat \<Rightarrow> real" where
  "rotation_of_quat q k =
     (case q of (w, x, y, z) \<Rightarrow>
        [w^2 + x^2 - y^2 - z^2, 2 * x * y - 2 * w * z, 2 * x * z + 2 * w * y,
         2 * x * y + 2 * w * z, w^2 - x^2 + y^2 - z^2, 2 * y * z - 2 * w * x,
         2 * x * z - 2 * w * y, 2 * y * z + 2 * w * x, w^2 - x^2 - y^2 + z^2] ! k)"

definition orthonormal3 :: "(nat \<Rightarrow> nat \<Rightarrow> real) \<Rightarrow> bool" where
  "orthonormal3 m =
     list_all (\<lambda>(i, j). m i 0 * m j 0 + m i 1 * m j 1 + m i 2 * m j 2 = (if i = j then 1 else 0))
       [(0, 0), (0, 1), (0, 2), (1, 0), (1, 1), (1, 2), (2, 0), (2, 1), (2, 2)]"

definition det3 :: "(nat \<Rightarrow> nat \<Rightarrow> real) \<Rightarrow> real" where
  "det3 m = m 0 0 * (m 1 1 * m 2 2 - m 1 2 * m 2 1)
          - m 0 1 * (m 1 0 * m 2 2 - m 1 2 * m 2 0)
          + m 0 2 * (m 1 0 * m 2 1 - m 1 1 * m 2 0)"

definition rotation_orthonormal :: "ndarray \<Rightarrow> bool" where
  "rotation_orthonormal r =
     list_all (\<lambda>l. orthonormal3 (\<lambda>i j. item r (l @ [i, j])))
       (indices (butlast (butlast (shape r))))"

subsection \<open>Arrays read one leading index at a time\<close>

text \<open>
  An array of shape \<open>S @ [3]\<close> holds one 3-vector for every index \<open>l\<close> of \<open>S\<close>, an array of
  shape \<open>S @ [3, 3]\<close> one matrix. \<open>pointwise S a g\<close> says that \<open>a\<close> has shape \<open>S\<close> and the value
  \<open>g l\<close> at every index \<open>l\<close>; \<open>pointwise_vec\<close> and \<open>pointwise_mat\<close> say the same of the vectors
  and the matrices.
\<close>

type_synonym vec3 = "nat \<Rightarrow> real"

type_synonym matrix3 = "nat \<Rightarrow> nat \<Rightarrow> real"

definition pointwise :: "nat list \<Rightarrow> ndarray \<Rightarrow> (nat list \<Rightarrow> real) \<Rightarrow> bool" where
  "pointwise S a g = (shape a = S \<and> list_all (\<lambda>l. item a l = g l) (indices S))"

definition pointwise_vec :: "nat list \<Rightarrow> ndarray \<Rightarrow> (nat list \<Rightarrow> vec3) \<Rightarrow> bool" where
  "pointwise_vec S a v =
     (shape a = S @ [3] \<and>
      list_all (\<lambda>l. list_all (\<lambda>k. item a (l @ [k]) = v l k) [0, 1, 2]) (indices S))"

definition pointwise_mat :: "nat list \<Rightarrow> ndarray \<Rightarrow> (nat list \<Rightarrow> matrix3) \<Rightarrow> bool" where
  "pointwise_mat S a m =
     (shape a = S @ [3, 3] \<and>
      list_all (\<lambda>l. list_all (\<lambda>i. list_all (\<lambda>j. item a (l @ [i, j]) = m l i j) [0, 1, 2])
                  [0, 1, 2]) (indices S))"

definition vec_at :: "ndarray \<Rightarrow> nat list \<Rightarrow> vec3" where
  "vec_at a l k = item a (l @ [k])"

definition mat_at :: "ndarray \<Rightarrow> nat list \<Rightarrow> matrix3" where
  "mat_at a l i j = item a (l @ [i, j])"

definition matrix_of :: "real list \<Rightarrow> matrix3" where
  "matrix_of es i j = es ! (3 * i + j)"

definition mmul :: "matrix3 \<Rightarrow> matrix3 \<Rightarrow> matrix3" where
  "mmul a b i j = a i 0 * b 0 j + a i 1 * b 1 j + a i 2 * b 2 j"

definition mvec :: "matrix3 \<Rightarrow> vec3 \<Rightarrow> vec3" where
  "mvec a v i = a i 0 * v 0 + a i 1 * v 1 + a i 2 * v 2"

text \<open>
  The index of the frame that the index \<open>m\<close> of a point is paired with, when the frame's
  leading shape \<open>L\<close> extended by \<^verbatim>\<open>extra_dims\<close> singleton axes is broadcast against the
  shape of the point; and the transpose of a matrix.
\<close>

definition leading_index :: "nat list \<Rightarrow> nat \<Rightarrow> nat list \<Rightarrow> nat list" where
  "leading_index L extra_dims m =
     take (length L) (broadcast_index (L @ replicate extra_dims 1) m)"

definition mtranspose :: "matrix3 \<Rightarrow> matrix3" where
  "mtranspose a i j = a j i"

subsection \<open>The canonical-frame builder on one triplet\<close>

text \<open>
  What the statements of \<^verbatim>\<open>make_canonical_transform\<close> compute for one residue: the rotation
  about the z-axis (\<^verbatim>\<open>c1_rot_matrix\<close>), the one about the y-axis (\<^verbatim>\<open>c2_rot_matrix\<close>, whose norm
  has \<^verbatim>\<open>1e-20\<close> outside the square root), the one about the x-axis (\<^verbatim>\<open>n_rot_matrix\<close>), and
  their product. That the array program computes exactly these is proved below
  (\<open>make_canonical_transform_value\<close>).
\<close>

definition c1_rot :: "vec3 \<Rightarrow> matrix3" where
  "c1_rot c =
     (let norm = sqrt ((c 0)^2 + (c 1)^2 + eps);
          sin_c1 = - c 1 / norm;
          cos_c1 = c 0 / norm
      in matrix_of [cos_c1, - sin_c1, 0,
                    sin_c1, cos_c1, 0,
                    0, 0, 1])"

definition c2_rot :: "vec3 \<Rightarrow> matrix3" where
  "c2_rot c =
     (let norm = sqrt ((c 0)^2 + ((c 1)^2 + (c 2)^2)) + eps;
          sin_c2 = c 2 / norm;
          cos_c2 = sqrt ((c 0)^2 + (c 1)^2) / norm
      in matrix_of [cos_c2, 0, sin_c2,
                    0, 1, 0,
                    - sin_c2, 0, cos_c2])"

definition n_rot :: "vec3 \<Rightarrow> matrix3" where
  "n_rot n =
     (let norm = sqrt ((n 1)^2 + (n 2)^2 + eps);
          sin_n = - n 2 / norm;
          cos_n = n 1 / norm
      in matrix_of [1, 0, 0,
                    0, cos_n, - sin_n,
                    0, sin_n, cos_n])"

definition shifted :: "vec3 \<Rightarrow> vec3 \<Rightarrow> vec3" where
  "shifted p ca k = p k + - ca k"

definition canonical_rotation :: "vec3 \<Rightarrow> vec3 \<Rightarrow> vec3 \<Rightarrow> matrix3" where
  "canonical_rotation n ca c =
     (let n_xyz = shifted n ca;
          c_xyz = shifted c ca;
          c_rot_matrix = mmul (c2_rot c_xyz) (c1_rot c_xyz);
          n_xyz = mvec c_rot_matrix n_xyz
      in mmul (n_rot n_xyz) c_rot_matrix)"





definition triplet :: "real \<Rightarrow> real \<Rightarrow> real \<Rightarrow> ndarray" where
  "triplet x y z = rows [rows [array1 [x, y, z]]]"

text \<open>
  The per-vector variant on one triplet. It differs from the batched builder in the norm
  of the second rotation, which has \<^verbatim>\<open>1e-20\<close> inside the square root. \<open>pointwise_vec0\<close> and
  \<open>pointwise_mat0\<close> describe arrays of shape \<open>3 # S\<close> and \<open>3 # 3 # S\<close>, which the variant
  uses for vectors and matrices. \<open>triplet_np x y z\<close> is the array \<open>[[x, y, z]]\<close>.
\<close>

definition c1_rot_np :: "vec3 \<Rightarrow> matrix3" where
  "c1_rot_np c =
     (let sin_c1 = - c 1 / sqrt (eps + (c 0)^2 + (c 1)^2);
          cos_c1 = c 0 / sqrt (eps + (c 0)^2 + (c 1)^2)
      in matrix_of [cos_c1, - sin_c1, 0,
                    sin_c1, cos_c1, 0,
                    0, 0, 1])"

definition c2_rot_np :: "vec3 \<Rightarrow> matrix3" where
  "c2_rot_np c =
     (let sin_c2 = c 2 / sqrt (eps + (c 0)^2 + (c 1)^2 + (c 2)^2);
          cos_c2 = sqrt ((c 0)^2 + (c 1)^2) / sqrt (eps + (c 0)^2 + (c 1)^2 + (c 2)^2)
      in matrix_of [cos_c2, 0, sin_c2,
                    0, 1, 0,
                    - sin_c2, 0, cos_c2])"

definition n_rot_np :: "vec3 \<Rightarrow> matrix3" where
  "n_rot_np n =
     (let sin_n = - n 2 / sqrt (eps + (n 1)^2 + (n 2)^2);
          cos_n = n 1 / sqrt (eps + (n 1)^2 + (n 2)^2)
      in matrix_of [1, 0, 0,
                    0, cos_n, - sin_n,
                    0, sin_n, cos_n])"

definition canonical_rotation_np :: "vec3 \<Rightarrow> vec3 \<Rightarrow> vec3 \<Rightarrow> matrix3" where
  "canonical_rotation_np n ca c =
     (let n_xyz = shifted n ca;
          c_xyz = shifted c ca;
          c_rot_matrix = mmul (c2_rot_np c_xyz) (c1_rot_np c_xyz);
          n_xyz = mvec c_rot_matrix n_xyz
      in mmul (n_rot_np n_xyz) c_rot_matrix)"

definition pointwise_vec0 :: "nat list \<Rightarrow> ndarray \<Rightarrow> (nat list \<Rightarrow> vec3) \<Rightarrow> bool" where
  "pointwise_vec0 S a v =
     (shape a = 3 # S \<and>
      list_all (\<lambda>l. list_all (\<lambda>k. item a (k # l) = v l k) [0, 1, 2]) (indices S))"

definition pointwise_mat0 :: "nat list \<Rightarrow> ndarray \<Rightarrow> (nat list \<Rightarrow> matrix3) \<Rightarrow> bool" where
  "pointwise_mat0 S a m =
     (shape a = 3 # 3 # S \<and>
      list_all (\<lambda>l. list_all (\<lambda>i. list_all (\<lambda>j. item a (i # j # l) = m l i j) [0, 1, 2])
                  [0, 1, 2]) (indices S))"

definition triplet_np :: "real \<Rightarrow> real \<Rightarrow> real \<Rightarrow> ndarray" where
  "triplet_np x y z = rows [array1 [x, y, z]]"

section \<open>Facts about arrays and broadcasting\<close>

lemma bnd_Inr [simp]: "bnd (Inr x) f = f x" by (simp add: bnd_def)

lemma bnd_Inl [simp]: "bnd (Inl e) f = Inl e" by (simp add: bnd_def)

lemma bnd_eq_Inr: "bnd m f = Inr y \<longleftrightarrow> (\<exists>x. m = Inr x \<and> f x = Inr y)"
  by (cases m) auto

lemma valid_index_Nil [simp]: "valid_index [] i \<longleftrightarrow> i = []"
  by (simp add: valid_index_def)

lemma valid_index_Cons: "valid_index (d # ds) i \<longleftrightarrow> (\<exists>j js. i = j # js \<and> j < d \<and> valid_index ds js)"
  by (cases i) (auto simp: valid_index_def)

lemma valid_index_length: "valid_index s i \<Longrightarrow> length i = length s"
  by (simp add: valid_index_def list_all2_lengthD)

lemma valid_index_append:
  "length i = length s \<Longrightarrow> valid_index (s @ t) (i @ j) \<longleftrightarrow> valid_index s i \<and> valid_index t j"
  by (simp add: valid_index_def list_all2_append)

lemma set_indices: "set (indices s) = {i. valid_index s i}"
proof (induction s)
  case Nil
  show ?case by auto
next
  case (Cons d ds)
  show ?case
    by (auto simp: Cons valid_index_Cons)
qed

lemma array_equal_iff:
  "array_equal a b \<longleftrightarrow> shape a = shape b \<and> (\<forall>i. valid_index (shape a) i \<longrightarrow> item a i = item b i)"
  by (auto simp: array_equal_def list_all_iff set_indices)

lemma bc_rev_Nil2 [simp]: "bc_rev xs [] = Some xs"
  by (cases xs) auto

lemma bc_rev_same [simp]: "bc_rev xs xs = Some xs"
  by (induction xs) auto

lemma bidx_rev_valid: "list_all2 (<) i s \<Longrightarrow> bidx_rev s i = i"
  by (induction s i rule: bidx_rev.induct) auto

lemma broadcast_shapes_same [simp]: "broadcast_shapes s s = Some s"
  by (simp add: broadcast_shapes_def)

lemma broadcast_shapes_Nil [simp]: "broadcast_shapes [] s = Some s" "broadcast_shapes s [] = Some s"
  by (simp_all add: broadcast_shapes_def)

lemma broadcast_index_valid: "valid_index s i \<Longrightarrow> broadcast_index s i = i"
  by (simp add: broadcast_index_def valid_index_def bidx_rev_valid)

lemma broadcast_index_Nil [simp]: "broadcast_index [] i = []"
  by (simp add: broadcast_index_def)

lemma bc_rev_commute: "bc_rev xs ys = bc_rev ys xs"
  by (induction xs ys rule: bc_rev.induct) auto

lemma bc_rev_assoc:
  "bc_rev b c = Some s1 \<Longrightarrow> bc_rev a s1 = Some r \<Longrightarrow>
   \<exists>ab. bc_rev a b = Some ab \<and> bc_rev ab c = Some r"
proof (induction a arbitrary: b c s1 r)
  case Nil
  then show ?case by simp
next
  case (Cons x xs)
  show ?case
  proof (cases b)
    case Nil
    with Cons.prems show ?thesis by simp
  next
    case b: (Cons y ys)
    show ?thesis
    proof (cases c)
      case Nil
      with Cons.prems b show ?thesis by (auto split: if_splits)
    next
      case c: (Cons z zs)
      from Cons.prems b c obtain s1' where s1: "bc_rev ys zs = Some s1'"
        by (auto split: if_splits)
      from Cons.prems b c s1 obtain r' where r': "bc_rev xs s1' = Some r'"
        by (auto split: if_splits)
      from Cons.IH[OF s1 r'] obtain ab' where ab: "bc_rev xs ys = Some ab'" "bc_rev ab' zs = Some r'"
        by blast
      with Cons.prems b c s1 r' show ?thesis
        by (auto split: if_splits)
    qed
  qed
qed

lemma bidx_rev_idem: "bidx_rev s (bidx_rev s i) = bidx_rev s i"
  by (induction s i rule: bidx_rev.induct) auto

lemma bidx_rev_absorb:
  "bc_rev x y = Some z \<Longrightarrow> bidx_rev x (bidx_rev z i) = bidx_rev x i"
proof (induction x y arbitrary: z i rule: bc_rev.induct)
  case (1 ys)
  then show ?case by simp
next
  case (2 x xs)
  then show ?case by (simp add: bidx_rev_idem)
next
  case (3 x xs y ys)
  then show ?case
    by (cases i) (auto split: if_splits)
qed

lemma bidx_rev_absorb2:
  "bc_rev y x = Some z \<Longrightarrow> bidx_rev x (bidx_rev z i) = bidx_rev x i"
  using bidx_rev_absorb[of x y z i] by (simp add: bc_rev_commute)

lemma broadcast_shapes_commute: "broadcast_shapes s t = broadcast_shapes t s"
  by (simp add: broadcast_shapes_def bc_rev_commute)

lemma broadcast_shapes_assoc:
  assumes "broadcast_shapes b c = Some s1" "broadcast_shapes a s1 = Some r"
  shows "\<exists>ab. broadcast_shapes a b = Some ab \<and> broadcast_shapes ab c = Some r"
proof -
  from assms(1) obtain s1' where 1: "bc_rev (rev b) (rev c) = Some s1'" "s1 = rev s1'"
    by (auto simp: broadcast_shapes_def)
  from assms(2) 1 obtain r' where 2: "bc_rev (rev a) s1' = Some r'" "r = rev r'"
    by (auto simp: broadcast_shapes_def)
  from bc_rev_assoc[OF 1(1) 2(1)] obtain ab where
    "bc_rev (rev a) (rev b) = Some ab" "bc_rev ab (rev c) = Some r'" by blast
  then show ?thesis using 2 by (simp add: broadcast_shapes_def)
qed

lemma broadcast_index_absorb:
  "broadcast_shapes x y = Some z \<Longrightarrow> broadcast_index x (broadcast_index z i) = broadcast_index x i"
  by (auto simp: broadcast_shapes_def broadcast_index_def bidx_rev_absorb)

lemma broadcast_index_absorb2:
  "broadcast_shapes y x = Some z \<Longrightarrow> broadcast_index x (broadcast_index z i) = broadcast_index x i"
  by (auto simp: broadcast_shapes_def broadcast_index_def bidx_rev_absorb2)

lemma binop_Inr:
  "binop f a b = Inr c \<longleftrightarrow>
     (\<exists>s. broadcast_shapes (shape a) (shape b) = Some s \<and>
          c = \<lparr>shape = s, item = (\<lambda>i. f (item a (broadcast_index (shape a) i))
                                          (item b (broadcast_index (shape b) i)))\<rparr>)"
  by (auto simp: binop_def broadcast_apply_def split: option.splits)

lemma bc_rev_last_dim:
  "bc_rev xs ys = Some zs \<Longrightarrow> ys \<noteq> [] \<Longrightarrow> hd ys = 3 \<Longrightarrow> zs \<noteq> [] \<and> hd zs = 3"
  by (induction xs ys rule: bc_rev.induct) (auto split: if_splits)

lemma broadcast_shapes_last_dim:
  assumes "broadcast_shapes s t = Some r" "t \<noteq> []" "last t = 3"
  shows "r \<noteq> [] \<and> last r = 3"
proof -
  from assms(1) obtain r' where r': "bc_rev (rev s) (rev t) = Some r'" "r = rev r'"
    by (auto simp: broadcast_shapes_def)
  with bc_rev_last_dim[OF r'(1)] assms(2,3) show ?thesis
    by (simp add: hd_rev last_rev)
qed

lemma broadcast_shapes_unit_last [simp]:
  "broadcast_shapes (l @ [d]) (l @ [Suc 0]) = Some (l @ [d])"
  by (simp add: broadcast_shapes_def)

lemma normalize_axis_neg [simp]:
  "normalize_axis (-1) n = (if 1 \<le> n then Inr (n - 1) else Inl AxisError)"
  "normalize_axis (-2) n = (if 2 \<le> n then Inr (n - 2) else Inl AxisError)"
  "normalize_axis (-3) n = (if 3 \<le> n then Inr (n - 3) else Inl AxisError)"
  by (auto simp: normalize_axis_def)

lemma normalize_axis_nat [simp]:
  "normalize_axis (int k) n = (if k < n then Inr k else Inl AxisError)"
  by (auto simp: normalize_axis_def)

lemma assert_last_dim_cases:
  "assert_last_dim a n = (if shape a \<noteq> [] \<and> last (shape a) = n then Inr () else
     if shape a = [] then Inl IndexError else Inl AssertionError)"
  by (simp add: assert_last_dim_def)

lemma normalize_ok:
  assumes "shape q \<noteq> []"
  shows "\<exists>q'. bnd (linalg_norm q (-1)) (\<lambda>q_length.
                   bnd (np_div q (getitem_newaxis q_length)) (\<lambda>q'. Inr (Some q'))) = Inr (Some q')
            \<and> shape q' = shape q"
proof -
  from assms obtain l d where s: "shape q = l @ [d]"
    by (metis append_butlast_last_id)
  show ?thesis
    by (simp add: linalg_norm_def np_sum_def sum_axis_def np_square_def unop_def s np_sqrt_def
        getitem_newaxis_def np_div_def binop_def broadcast_apply_def)
qed


lemma QuatAffine_with_rotation_None:
  "QuatAffine None t (Some r) nz =
     bnd (assert_last2_dims r) (\<lambda>_. bnd (assert_last_dim t 3) (\<lambda>_.
       Inr \<lparr>quaternion = None, rotation = r, translation = t\<rparr>))"
  by (simp add: QuatAffine_def)

lemma QuatAffine_with_rotation_Some:
  assumes "quat_ok (Some q)"
  shows "\<exists>q'. (\<not> nz \<longrightarrow> q' = q) \<and> QuatAffine (Some q) t (Some r) nz =
     bnd (assert_last2_dims r) (\<lambda>_. bnd (assert_last_dim t 3) (\<lambda>_.
       Inr \<lparr>quaternion = Some q', rotation = r, translation = t\<rparr>))"
proof -
  from assms have q: "shape q \<noteq> []" and a: "assert_last_dim q 4 = Inr ()"
    by (simp_all add: quat_ok_def assert_last_dim_def)
  show ?thesis
  proof (cases nz)
    case True
    from normalize_ok[OF q] obtain q' where
      "bnd (linalg_norm q (-1)) (\<lambda>q_length.
         bnd (np_div q (getitem_newaxis q_length)) (\<lambda>q'. Inr (Some q'))) = Inr (Some q')"
      by blast
    with True a show ?thesis
      by (intro exI[of _ q']) (simp add: QuatAffine_def)
  next
    case False
    with a show ?thesis by (intro exI[of _ q]) (simp add: QuatAffine_def)
  qed
qed

lemma QuatAffine_with_rotation:
  assumes "quat_ok qo"
  shows "\<exists>q'. (\<not> nz \<longrightarrow> q' = qo) \<and> QuatAffine qo t (Some r) nz =
     bnd (assert_last2_dims r) (\<lambda>_. bnd (assert_last_dim t 3) (\<lambda>_.
       Inr \<lparr>quaternion = q', rotation = r, translation = t\<rparr>))"
proof (cases qo)
  case None
  then show ?thesis by (intro exI[of _ None]) (simp add: QuatAffine_with_rotation_None)
next
  case (Some q)
  with assms QuatAffine_with_rotation_Some[of q nz t r] obtain q' where
    "(\<not> nz \<longrightarrow> q' = q)" "QuatAffine (Some q) t (Some r) nz =
     bnd (assert_last2_dims r) (\<lambda>_. bnd (assert_last_dim t 3) (\<lambda>_.
       Inr \<lparr>quaternion = Some q', rotation = r, translation = t\<rparr>))" by blast
  with Some show ?thesis by (intro exI[of _ "Some q'"]) simp
qed

lemma assert_last2_dims_ok: "rot_ok r \<Longrightarrow> assert_last2_dims r = Inr ()"
  by (auto simp: rot_ok_def assert_last2_dims_def)

lemma assert_trans_ok: "trans_ok t \<Longrightarrow> assert_last_dim t 3 = Inr ()"
  by (auto simp: trans_ok_def assert_last_dim_def)

lemma QuatAffine_with_rotation_ok:
  assumes "quat_ok qo" "rot_ok r" "trans_ok t"
  shows "\<exists>f. QuatAffine qo t (Some r) nz = Inr f \<and> rotation f = r \<and> translation f = t \<and>
             (\<not> nz \<longrightarrow> quaternion f = qo)"
proof -
  from QuatAffine_with_rotation[OF assms(1), of nz t r] obtain q' where
    "\<not> nz \<longrightarrow> q' = qo" and
    "QuatAffine qo t (Some r) nz =
       bnd (assert_last2_dims r) (\<lambda>_. bnd (assert_last_dim t 3) (\<lambda>_.
         Inr \<lparr>quaternion = q', rotation = r, translation = t\<rparr>))"
    by blast
  then show ?thesis
    by (simp add: assert_last2_dims_ok[OF assms(2)] assert_trans_ok[OF assms(3)])
qed

text \<open>
  Claim C7 says that \<^verbatim>\<open>stop_rot_gradient\<close> returns a frame with the same numeric
  values, and that on plain arrays it is an identity copy. On numpy arrays the method
  raises \<^verbatim>\<open>AttributeError\<close> for every frame: it calls \<^verbatim>\<open>detach()\<close> on the quaternion or,
  when there is none, on the rotation.
\<close>

theorem stop_rot_gradient_raises: "stop_rot_gradient self = Inl AttributeError"
  by (cases "quaternion self") (simp_all add: stop_rot_gradient_def ndarray_detach_def)

text \<open>
  Claim C10. A frame constructed with \<^verbatim>\<open>quaternion=None\<close> and a supplied rotation has
  no quaternion and \<^verbatim>\<open>to_tensor\<close> raises on it; whenever \<^verbatim>\<open>to_tensor\<close> returns an array the
  frame holds a quaternion.
\<close>

theorem to_tensor_needs_quaternion:
  "(QuatAffine None t (Some r) nz = Inr f \<longrightarrow> quaternion f = None \<and> to_tensor f = Inl ValueError) \<and>
   (to_tensor g = Inr x \<longrightarrow> quaternion g \<noteq> None)"
  by (auto simp: QuatAffine_def to_tensor_def bnd_eq_Inr split: option.splits)

lemma np_mul_Inr:
  "np_mul a b = Inr c \<longleftrightarrow>
     (\<exists>s. broadcast_shapes (shape a) (shape b) = Some s \<and>
          c = \<lparr>shape = s, item = (\<lambda>i. item a (broadcast_index (shape a) i) *
                                         item b (broadcast_index (shape b) i))\<rparr>)"
  by (simp add: np_mul_def binop_Inr)

lemma QuatAffine_no_normalize_Inr:
  assumes "QuatAffine qo t (Some r) False = Inr f"
  shows "f = \<lparr>quaternion = qo, rotation = r, translation = t\<rparr>"
proof (cases qo)
  case None
  with assms show ?thesis
    by (auto simp: QuatAffine_def bnd_eq_Inr)
next
  case (Some q)
  with assms show ?thesis
    by (auto simp: QuatAffine_def bnd_eq_Inr)
qed

lemma scale_translation_Inr:
  assumes "scale_translation f k = Inr f'"
  shows "\<exists>t. np_mul k (translation f) = Inr t \<and>
             f' = \<lparr>quaternion = quaternion f, rotation = rotation f, translation = t\<rparr>"
  using assms QuatAffine_no_normalize_Inr
  by (auto simp: scale_translation_def bnd_eq_Inr)

lemma np_mul_assoc:
  assumes "np_mul k1 t = Inr t1" "np_mul k2 t1 = Inr t2"
  shows "\<exists>k12. np_mul k1 k2 = Inr k12 \<and> np_mul k12 t = Inr t2"
proof -
  from assms(1) obtain s1 where s1: "broadcast_shapes (shape k1) (shape t) = Some s1"
    and t1: "t1 = \<lparr>shape = s1, item = (\<lambda>i. item k1 (broadcast_index (shape k1) i) *
                                         item t (broadcast_index (shape t) i))\<rparr>"
    by (auto simp: np_mul_Inr)
  from assms(2) t1 obtain s2 where s2: "broadcast_shapes (shape k2) s1 = Some s2"
    and t2: "t2 = \<lparr>shape = s2, item = (\<lambda>i. item k2 (broadcast_index (shape k2) i) *
                                         item t1 (broadcast_index s1 i))\<rparr>"
    by (auto simp: np_mul_Inr)
  from broadcast_shapes_assoc[OF s1 s2] obtain s12 where
    s21: "broadcast_shapes (shape k2) (shape k1) = Some s12" and
    s12t: "broadcast_shapes s12 (shape t) = Some s2" by blast
  from s21 have s12: "broadcast_shapes (shape k1) (shape k2) = Some s12"
    by (simp add: broadcast_shapes_commute)
  define k12 where "k12 = \<lparr>shape = s12, item = (\<lambda>i. item k1 (broadcast_index (shape k1) i) *
                                         item k2 (broadcast_index (shape k2) i))\<rparr>"
  have 1: "np_mul k1 k2 = Inr k12"
    by (simp add: np_mul_Inr s12 k12_def)
  have "item t2 i = item k12 (broadcast_index s12 i) * item t (broadcast_index (shape t) i)" for i
    by (simp add: t2 t1 k12_def broadcast_index_absorb[OF s1] broadcast_index_absorb2[OF s1]
        broadcast_index_absorb[OF s12] broadcast_index_absorb2[OF s12])
  then have 2: "np_mul k12 t = Inr t2"
    by (simp add: np_mul_Inr k12_def s12t t2)
  from 1 2 show ?thesis by blast
qed

lemma scale_translation_scalar_ok:
  assumes "frame_ok f"
  shows "\<exists>f'. scale_translation f (scalar k) = Inr f' \<and> frame_ok f'"
proof -
  from assms have "trans_ok (translation f)" by (simp add: frame_ok_def)
  then have t: "trans_ok \<lparr>shape = shape (translation f),
       item = (\<lambda>i. k * item (translation f) (broadcast_index (shape (translation f)) i))\<rparr>"
    by (simp add: trans_ok_def)
  from assms t QuatAffine_with_rotation_ok[OF _ _ t, of "quaternion f" "rotation f" False]
  show ?thesis
    by (auto simp: scale_translation_def np_mul_def binop_def broadcast_apply_def scalar_def frame_ok_def)
qed

text \<open>
  Claim C9. If \<^verbatim>\<open>scale_translation(k1)\<close> and then \<^verbatim>\<open>scale_translation(k2)\<close> return
  frames, then \<^verbatim>\<open>k1 * k2\<close> is defined, the final translation is \<^verbatim>\<open>(k1 * k2) * translation\<close>
  of the first frame, and rotation and quaternion are those of the first frame. The
  factors are arrays of any broadcastable shape; for Python floats and a frame whose
  fields pass the constructor's assertions both calls return.
\<close>

theorem scale_translation_twice:
  "(scale_translation f k1 = Inr f1 \<and> scale_translation f1 k2 = Inr f2 \<longrightarrow>
      (\<exists>k12. np_mul k1 k2 = Inr k12 \<and> np_mul k12 (translation f) = Inr (translation f2)) \<and>
      rotation f2 = rotation f \<and> quaternion f2 = quaternion f) \<and>
   (frame_ok f \<longrightarrow>
      (\<exists>g1 g2. scale_translation f (scalar c1) = Inr g1 \<and>
               scale_translation g1 (scalar c2) = Inr g2))"
proof (intro conjI impI)
  assume a: "scale_translation f k1 = Inr f1 \<and> scale_translation f1 k2 = Inr f2"
  from a scale_translation_Inr[of f k1 f1] obtain t1 where
    t1: "np_mul k1 (translation f) = Inr t1"
      "f1 = \<lparr>quaternion = quaternion f, rotation = rotation f, translation = t1\<rparr>" by blast
  from a scale_translation_Inr[of f1 k2 f2] obtain t2 where
    t2: "np_mul k2 (translation f1) = Inr t2"
      "f2 = \<lparr>quaternion = quaternion f1, rotation = rotation f1, translation = t2\<rparr>" by blast
  from t1 t2 have "np_mul k2 t1 = Inr t2" by simp
  from np_mul_assoc[OF t1(1) this] t2(2)
  show "\<exists>k12. np_mul k1 k2 = Inr k12 \<and> np_mul k12 (translation f) = Inr (translation f2)"
    by simp
  from t1 t2 show "rotation f2 = rotation f" by simp
  from t1 t2 show "quaternion f2 = quaternion f" by simp
next
  assume "frame_ok f"
  from scale_translation_scalar_ok[OF this, of c1] obtain g1 where
    g1: "scale_translation f (scalar c1) = Inr g1" "frame_ok g1" by blast
  from scale_translation_scalar_ok[OF g1(2), of c2] g1(1)
  show "\<exists>g1 g2. scale_translation f (scalar c1) = Inr g1 \<and>
               scale_translation g1 (scalar c2) = Inr g2" by blast
qed

theorem stop_rot_gradient_raises_witness:
  "stop_rot_gradient \<lparr>quaternion = Some (array1 [1, 0, 0, 0]), rotation = eye3,
      translation = array1 [0, 0, 0]\<rparr> = Inl AttributeError"
  by (rule stop_rot_gradient_raises)

theorem to_tensor_needs_quaternion_witness:
  "QuatAffine None (array1 [1, 2, 3]) (Some eye3) True =
     Inr \<lparr>quaternion = None, rotation = eye3, translation = array1 [1, 2, 3]\<rparr> \<and>
   to_tensor \<lparr>quaternion = None, rotation = eye3, translation = array1 [1, 2, 3]\<rparr> = Inl ValueError \<and>
   (\<exists>x. to_tensor \<lparr>quaternion = Some (array1 [1, 0, 0, 0]), rotation = eye3,
                    translation = array1 [1, 2, 3]\<rparr> = Inr x \<and> shape x = [7])"
proof -
  have c: "QuatAffine None (array1 [1, 2, 3]) (Some eye3) True =
     Inr \<lparr>quaternion = None, rotation = eye3, translation = array1 [1, 2, 3]\<rparr>"
    by (simp add: QuatAffine_def assert_last_dim_def assert_last2_dims_def eye3_def rows_def
        array1_def)
  have x: "\<exists>x. to_tensor \<lparr>quaternion = Some (array1 [1, 0, 0, 0]), rotation = eye3,
                    translation = array1 [1, 2, 3]\<rparr> = Inr x \<and> shape x = [7]"
    by (simp add: to_tensor_def concatenate_last_def array1_def)
  from c x to_tensor_needs_quaternion[of "array1 [1, 2, 3]" eye3 True
      "\<lparr>quaternion = None, rotation = eye3, translation = array1 [1, 2, 3]\<rparr>"
      "\<lparr>quaternion = Some (array1 [1, 0, 0, 0]), rotation = eye3,
                    translation = array1 [1, 2, 3]\<rparr>"]
  show ?thesis by auto
qed

theorem scale_translation_twice_witness:
  "\<exists>g1 g2. scale_translation \<lparr>quaternion = Some (array1 [1, 0, 0, 0]), rotation = eye3,
                translation = array1 [1, 2, 3]\<rparr> (scalar 2) = Inr g1 \<and>
           scale_translation g1 (scalar 3) = Inr g2 \<and>
           rotation g2 = eye3 \<and> quaternion g2 = Some (array1 [1, 0, 0, 0]) \<and>
           shape (translation g2) = [3] \<and>
           item (translation g2) [0] = 6 \<and> item (translation g2) [1] = 12 \<and>
           item (translation g2) [2] = 18"
proof -
  let ?f = "\<lparr>quaternion = Some (array1 [1, 0, 0, 0]), rotation = eye3,
                translation = array1 [1, 2, 3]\<rparr>"
  have ok: "frame_ok ?f"
    by (simp add: frame_ok_def quat_ok_def rot_ok_def trans_ok_def eye3_def rows_def array1_def)
  from ok scale_translation_twice[of ?f "scalar 2" _ "scalar 3" _ 2 3] obtain g1 g2 where
    g: "scale_translation ?f (scalar 2) = Inr g1" "scale_translation g1 (scalar 3) = Inr g2"
    by blast
  from g scale_translation_twice[of ?f "scalar 2" g1 "scalar 3" g2 2 3] obtain k12 where
    k: "np_mul (scalar 2) (scalar 3) = Inr k12" "np_mul k12 (translation ?f) = Inr (translation g2)"
    and r: "rotation g2 = rotation ?f" "quaternion g2 = quaternion ?f"
    by blast
  from k(1) have k12: "k12 = \<lparr>shape = [], item = (\<lambda>i. 6)\<rparr>"
    by (simp add: np_mul_Inr scalar_def)
  from k(2) have t: "shape (translation g2) = [3] \<and> item (translation g2) [0] = 6 \<and>
      item (translation g2) [1] = 12 \<and> item (translation g2) [2] = 18"
    by (auto simp: np_mul_Inr k12 array1_def broadcast_index_def)
  from g r t show ?thesis
    by simp
qed


lemma bc_rev_append_same:
  "length xs = length ys \<Longrightarrow> bc_rev (xs @ zs) (ys @ zs) = map_option (\<lambda>r. r @ zs) (bc_rev xs ys)"
  by (induction xs ys rule: list_induct2) (auto simp: option.map_comp comp_def)

lemma bc_rev_append_right:
  "length xs = length ys \<Longrightarrow> bc_rev xs (ys @ zs) = map_option (\<lambda>r. r @ zs) (bc_rev xs ys)"
  by (induction xs ys rule: list_induct2) (auto simp: option.map_comp comp_def)

lemma broadcast_shapes_append_same:
  "length s = length t \<Longrightarrow>
     broadcast_shapes (l @ s) (l @ t) = map_option (\<lambda>r. l @ r) (broadcast_shapes s t)"
  by (simp add: broadcast_shapes_def bc_rev_append_same option.map_comp comp_def)

lemma broadcast_shapes_append_right:
  "length s = length t \<Longrightarrow>
     broadcast_shapes s (l @ t) = map_option (\<lambda>r. l @ r) (broadcast_shapes s t)"
  by (simp add: broadcast_shapes_def bc_rev_append_right option.map_comp comp_def)

lemma bidx_rev_append:
  "length xs = length ys \<Longrightarrow> bidx_rev (xs @ zs) (ys @ ws) = bidx_rev xs ys @ bidx_rev zs ws"
  by (induction xs ys rule: list_induct2) auto

lemma bidx_rev_short:
  "length xs = length ys \<Longrightarrow> bidx_rev xs (ys @ ws) = bidx_rev xs ys"
  by (induction xs ys rule: list_induct2) auto

lemma broadcast_index_append:
  "length s = length i \<Longrightarrow>
     broadcast_index (l @ s) (j @ i) = broadcast_index l j @ broadcast_index s i"
  by (simp add: broadcast_index_def bidx_rev_append)

lemma broadcast_index_short:
  "length s = length i \<Longrightarrow> broadcast_index s (j @ i) = broadcast_index s i"
  by (simp add: broadcast_index_def bidx_rev_short)

lemma expand_dims_m1_m3:
  assumes "shape a = L @ [d]"
  shows "\<exists>m. expand_dims a [-1, -3] = Inr m \<and> shape m = L @ [1, d, 1] \<and>
           (\<forall>l x y z. length l = length L \<longrightarrow> item m (l @ [x, y, z]) = item a (l @ [y]))"
  using assms
  by (simp add: expand_dims_def insert_axis_def)

lemma upt_3: "[0..<3] = [0, 1, 2]" by (simp add: upt_rec)

lemma upt_4: "[0..<4] = [0, 1, 2, 3]" by (simp add: upt_rec)

lemma shape_broadcast_apply [simp]: "shape (broadcast_apply f a b s) = s"
  by (simp add: broadcast_apply_def)

lemma item_broadcast_apply:
  "item (broadcast_apply f a b s) i =
     f (item a (broadcast_index (shape a) i)) (item b (broadcast_index (shape b) i))"
  by (simp add: broadcast_apply_def)

lemma binop_ok:
  "broadcast_shapes (shape a) (shape b) = Some s \<Longrightarrow> binop f a b = Inr (broadcast_apply f a b s)"
  by (simp add: binop_def)

lemma np_sum2_m3_m2:
  assumes "shape p = L @ [a, b, c]"
  shows "np_sum2 p (-3) (-2) = Inr (sum_axis (sum_axis p (Suc (length L))) (length L))"
  using assms by (simp add: np_sum2_def)

lemma sum_axis2_value:
  assumes "shape p = L @ [a, b, c]" "length l = length L"
  shows "shape (sum_axis (sum_axis p (Suc (length L))) (length L)) = L @ [c]"
    and "item (sum_axis (sum_axis p (Suc (length L))) (length L)) (l @ [k]) =
       sum_list (map (\<lambda>x. sum_list (map (\<lambda>y. item p (l @ [x, y, k])) [0..<b])) [0..<a])"
  using assms by (simp_all add: sum_axis_def nth_append)

lemma broadcast_index_tail3:
  "broadcast_index [4, 3, 4] (l @ [x, y, k]) = [x, y, k]"
  by (simp add: broadcast_index_def)

lemma broadcast_index_lead:
  assumes "valid_index L l" "length t = length i"
  shows "broadcast_index (L @ t) (l @ i) = l @ broadcast_index t i"
  using assms by (simp add: broadcast_index_append broadcast_index_valid)

lemma quat_multiply_by_vec_value:
  assumes q: "shape quat = L @ [4]" and v: "shape v = L @ [3]"
  shows "\<exists>r. quat_multiply_by_vec quat v = Inr r \<and> shape r = L @ [4] \<and>
     (\<forall>l k. valid_index L l \<longrightarrow> item r (l @ [k]) =
        sum_list (map (\<lambda>x. sum_list (map (\<lambda>y.
           item QUAT_MULTIPLY_BY_VEC [x, y, k] * item quat (l @ [x]) * item v (l @ [y]))
           [0..<3])) [0..<4]))"
proof -
  from expand_dims_m1_m3[OF v] obtain m where
    m: "expand_dims v [-1, -3] = Inr m" "shape m = L @ [1, 3, 1]"
       "\<And>l x y z. length l = length L \<Longrightarrow> item m (l @ [x, y, z]) = item v (l @ [y])"
    by blast
  obtain qn where qn: "getitem_colon_newaxis2 quat = Inr qn" "shape qn = L @ [4, 1, 1]"
      "\<And>i. item qn i = item quat (butlast (butlast i))"
    by (simp add: getitem_colon_newaxis2_def q)
  have bs1: "broadcast_shapes (shape QUAT_MULTIPLY_BY_VEC) (shape qn) = Some (L @ [4, 3, 4])"
    by (simp add: qn(2) QUAT_MULTIPLY_BY_VEC_def broadcast_shapes_append_right)
       (simp add: broadcast_shapes_def)
  define p1 where "p1 = broadcast_apply (*) QUAT_MULTIPLY_BY_VEC qn (L @ [4, 3, 4])"
  have p1: "np_mul QUAT_MULTIPLY_BY_VEC qn = Inr p1"
    by (simp add: np_mul_def binop_ok[OF bs1] p1_def)
  have bs2: "broadcast_shapes (shape p1) (shape m) = Some (L @ [4, 3, 4])"
    by (simp add: p1_def m(2) broadcast_shapes_append_same) (simp add: broadcast_shapes_def)
  define p2 where "p2 = broadcast_apply (*) p1 m (L @ [4, 3, 4])"
  have p2: "np_mul p1 m = Inr p2"
    by (simp add: np_mul_def binop_ok[OF bs2] p2_def)
  have sh2: "shape p2 = L @ [4, 3, 4]" by (simp add: p2_def)
  define r where "r = sum_axis (sum_axis p2 (Suc (length L))) (length L)"
  have r: "quat_multiply_by_vec quat v = Inr r"
    by (simp add: quat_multiply_by_vec_def m(1) qn(1) p1 p2 np_sum2_m3_m2[OF sh2] r_def)
  have item_p2: "item p2 (l @ [x, y, k]) =
      item QUAT_MULTIPLY_BY_VEC [x, y, k] * item quat (l @ [x]) * item v (l @ [y])"
    if l: "valid_index L l" for l x y k
  proof -
    have len: "length l = length L" using l by (simp add: valid_index_length)
    have b1: "broadcast_index (L @ [4, 3, 4]) (l @ [x, y, k]) = l @ [x, y, k]"
      by (simp add: broadcast_index_lead[OF l]) (simp add: broadcast_index_def)
    have b2: "broadcast_index (L @ [1, 3, 1]) (l @ [x, y, k]) = l @ [0, y, 0]"
      by (simp add: broadcast_index_lead[OF l]) (simp add: broadcast_index_def)
    have b3: "broadcast_index (shape QUAT_MULTIPLY_BY_VEC) (l @ [x, y, k]) = [x, y, k]"
      by (simp add: QUAT_MULTIPLY_BY_VEC_def broadcast_index_def)
    have b4: "broadcast_index (L @ [4, 1, 1]) (l @ [x, y, k]) = l @ [x, 0, 0]"
      by (simp add: broadcast_index_lead[OF l]) (simp add: broadcast_index_def)
    have bb: "butlast (butlast (l @ [x, 0, 0])) = l @ [x]"
      by (simp add: butlast_append)
    have "item p2 (l @ [x, y, k]) = item p1 (l @ [x, y, k]) * item m (l @ [0, y, 0])"
      unfolding p2_def item_broadcast_apply by (simp only: p1_def shape_broadcast_apply m(2) b1 b2)
    also have "item p1 (l @ [x, y, k]) = item QUAT_MULTIPLY_BY_VEC [x, y, k] * item qn (l @ [x, 0, 0])"
      unfolding p1_def item_broadcast_apply by (simp only: qn(2) b3 b4)
    finally show ?thesis
      by (simp only: qn(3) bb m(3)[OF len])
  qed
  have "item r (l @ [k]) =
        sum_list (map (\<lambda>x. sum_list (map (\<lambda>y.
           item QUAT_MULTIPLY_BY_VEC [x, y, k] * item quat (l @ [x]) * item v (l @ [y]))
           [0..<3])) [0..<4])" if l: "valid_index L l" for l k
  proof -
    have len: "length l = length L" using l by (simp add: valid_index_length)
    show ?thesis
      unfolding r_def sum_axis2_value(2)[OF sh2 len] by (simp only: item_p2[OF l])
  qed
  moreover have "shape r = L @ [4]"
    unfolding r_def using sum_axis2_value(1)[OF sh2] by simp
  ultimately show ?thesis using r by blast
qed

lemma QUAT_MULTIPLY_BY_VEC_item:
  "item QUAT_MULTIPLY_BY_VEC [x, y, k] = QUAT_MULTIPLY_slice k ! x ! Suc y"
  by (simp add: QUAT_MULTIPLY_BY_VEC_def QUAT_MULTIPLY_def)

lemma quat_multiply_by_vec_product:
  assumes "shape quat = L @ [4]" "shape v = L @ [3]"
  shows "\<exists>r. quat_multiply_by_vec quat v = Inr r \<and> shape r = L @ [4] \<and>
          (\<forall>l. valid_index L l \<longrightarrow>
                 quat_at r l = hamilton (quat_at quat l) (pure_quat_at v l))"
proof -
  from assms quat_multiply_by_vec_value[of quat L v] obtain r where
    r: "quat_multiply_by_vec quat v = Inr r" "shape r = L @ [4]"
    and i: "\<And>l k. valid_index L l \<Longrightarrow> item r (l @ [k]) =
        sum_list (map (\<lambda>x. sum_list (map (\<lambda>y.
           item QUAT_MULTIPLY_BY_VEC [x, y, k] * item quat (l @ [x]) * item v (l @ [y]))
           [0..<3])) [0..<4])"
    by blast
  have "quat_at r l = hamilton (quat_at quat l) (pure_quat_at v l)" if l: "valid_index L l" for l
    by (simp add: quat_at_def pure_quat_at_def hamilton_def i[OF l] upt_3 upt_4
        QUAT_MULTIPLY_BY_VEC_item QUAT_MULTIPLY_slice_def)
  with r show ?thesis by blast
qed

text \<open>
  Claim C4, as amended. For a quaternion array of shape \<open>L @ [4]\<close> and a vector array of shape
  \<open>L @ [3]\<close>, \<^verbatim>\<open>quat_multiply_by_vec\<close> returns an array of shape \<open>L @ [4]\<close> that holds, at
  every leading index, the whole Hamilton product of the quaternion with the pure
  quaternion \<open>(0, v)\<close>: the scalar part and the vector part.
\<close>

theorem quat_multiply_by_vec_hamilton:
  "shape quat = L @ [4] \<and> shape v = L @ [3] \<longrightarrow>
     (\<exists>r. quat_multiply_by_vec quat v = Inr r \<and> shape r = L @ [4] \<and>
          (\<forall>l. valid_index L l \<longrightarrow>
                 quat_at r l = hamilton (quat_at quat l) (pure_quat_at v l)))"
  using quat_multiply_by_vec_product[of quat L v] by blast

theorem quat_multiply_by_vec_hamilton_witness:
  "\<exists>r. quat_multiply_by_vec (array1 [0, 1, 0, 0]) (array1 [1, 0, 0]) = Inr r \<and> shape r = [4] \<and>
       quat_at r [] = (-1, 0, 0, 0)"
proof -
  have s: "shape (array1 [0, 1, 0, 0]) = [] @ [4] \<and> shape (array1 [1, 0, 0]) = [] @ [3]"
    by (simp add: array1_def)
  from s quat_multiply_by_vec_hamilton[of "array1 [0, 1, 0, 0]" "[]" "array1 [1, 0, 0]"]
  obtain r where r: "quat_multiply_by_vec (array1 [0, 1, 0, 0]) (array1 [1, 0, 0]) = Inr r"
     "shape r = [4]"
     "quat_at r [] = hamilton (quat_at (array1 [0, 1, 0, 0]) []) (pure_quat_at (array1 [1, 0, 0]) [])"
    by auto
  have "hamilton (quat_at (array1 [0, 1, 0, 0]) []) (pure_quat_at (array1 [1, 0, 0]) []) = (-1, 0, 0, 0)"
    by (simp add: hamilton_def quat_at_def pure_quat_at_def array1_def)
  with r show ?thesis by auto
qed

text \<open>
  Claim C4 as stated fails: for \<open>q = i\<close> and \<open>v = (1, 0, 0)\<close> the function returns the four
  components \<open>(-1, 0, 0, 0)\<close> of \<open>i * i\<close>, not the three components of the vector part.
\<close>

theorem quat_multiply_by_vec_vector_part_counterexample:
  "\<not> (\<exists>r. quat_multiply_by_vec (array1 [0, 1, 0, 0]) (array1 [1, 0, 0]) = Inr r \<and>
           array_equal r (hamilton_vector_part (array1 [0, 1, 0, 0]) (array1 [1, 0, 0])))"
proof
  assume "\<exists>r. quat_multiply_by_vec (array1 [0, 1, 0, 0]) (array1 [1, 0, 0]) = Inr r \<and>
           array_equal r (hamilton_vector_part (array1 [0, 1, 0, 0]) (array1 [1, 0, 0]))"
  then obtain r where r: "quat_multiply_by_vec (array1 [0, 1, 0, 0]) (array1 [1, 0, 0]) = Inr r"
    and e: "array_equal r (hamilton_vector_part (array1 [0, 1, 0, 0]) (array1 [1, 0, 0]))"
    by blast
  have s: "shape (array1 [0, 1, 0, 0]) = [] @ [4]" "shape (array1 [1, 0, 0]) = [] @ [3]"
    by (simp_all add: array1_def)
  from quat_multiply_by_vec_value[OF s] r have "shape r = [4]" by auto
  moreover from e have "shape r = [3]"
    by (simp add: array_equal_def hamilton_vector_part_def array1_def)
  ultimately show False by simp
qed

lemma reshape_QUAT_TO_ROT:
  "\<exists>tab. reshape QUAT_TO_ROT [4, 4, 9] = Inr tab \<and> shape tab = [4, 4, 9] \<and>
     (\<forall>i. item tab i = item QUAT_TO_ROT (unravel_index [4, 4, 3, 3] (ravel_index [4, 4, 9] i)))"
  by (simp add: reshape_def QUAT_TO_ROT_def)

lemma quat_to_rot_tensor_value:
  assumes q: "shape quat = L @ [4]"
  shows "\<exists>r. quat_to_rot_tensor quat = Inr r \<and> shape r = L @ [9] \<and>
     (\<forall>l k. valid_index L l \<longrightarrow> item r (l @ [k]) =
        sum_list (map (\<lambda>x. sum_list (map (\<lambda>y.
           item QUAT_TO_ROT (unravel_index [4, 4, 3, 3] (ravel_index [4, 4, 9] [x, y, k])) *
           item quat (l @ [x]) * item quat (l @ [y]))
           [0..<4])) [0..<4]))"
proof -
  from expand_dims_m1_m3[OF q] obtain m where
    m: "expand_dims quat [-1, -3] = Inr m" "shape m = L @ [1, 4, 1]"
       "\<And>l x y z. length l = length L \<Longrightarrow> item m (l @ [x, y, z]) = item quat (l @ [y])"
    by blast
  from reshape_QUAT_TO_ROT obtain tab where
    tab: "reshape QUAT_TO_ROT [4, 4, 9] = Inr tab" "shape tab = [4, 4, 9]"
       "\<And>i. item tab i = item QUAT_TO_ROT (unravel_index [4, 4, 3, 3] (ravel_index [4, 4, 9] i))"
    by blast
  obtain qn where qn: "getitem_colon_newaxis2 quat = Inr qn" "shape qn = L @ [4, 1, 1]"
      "\<And>i. item qn i = item quat (butlast (butlast i))"
    by (simp add: getitem_colon_newaxis2_def q)
  have bs1: "broadcast_shapes (shape tab) (shape qn) = Some (L @ [4, 4, 9])"
    by (simp add: qn(2) tab(2) broadcast_shapes_append_right)
       (simp add: broadcast_shapes_def)
  define p1 where "p1 = broadcast_apply (*) tab qn (L @ [4, 4, 9])"
  have p1: "np_mul tab qn = Inr p1"
    by (simp add: np_mul_def binop_ok[OF bs1] p1_def)
  have bs2: "broadcast_shapes (shape p1) (shape m) = Some (L @ [4, 4, 9])"
    by (simp add: p1_def m(2) broadcast_shapes_append_same) (simp add: broadcast_shapes_def)
  define p2 where "p2 = broadcast_apply (*) p1 m (L @ [4, 4, 9])"
  have p2: "np_mul p1 m = Inr p2"
    by (simp add: np_mul_def binop_ok[OF bs2] p2_def)
  have sh2: "shape p2 = L @ [4, 4, 9]" by (simp add: p2_def)
  define r where "r = sum_axis (sum_axis p2 (Suc (length L))) (length L)"
  have r: "quat_to_rot_tensor quat = Inr r"
    by (simp add: quat_to_rot_tensor_def m(1) tab(1) qn(1) p1 p2 np_sum2_m3_m2[OF sh2] r_def)
  have item_p2: "item p2 (l @ [x, y, k]) =
      item QUAT_TO_ROT (unravel_index [4, 4, 3, 3] (ravel_index [4, 4, 9] [x, y, k])) *
        item quat (l @ [x]) * item quat (l @ [y])"
    if l: "valid_index L l" for l x y k
  proof -
    have len: "length l = length L" using l by (simp add: valid_index_length)
    have b1: "broadcast_index (L @ [4, 4, 9]) (l @ [x, y, k]) = l @ [x, y, k]"
      by (simp add: broadcast_index_lead[OF l]) (simp add: broadcast_index_def)
    have b2: "broadcast_index (L @ [1, 4, 1]) (l @ [x, y, k]) = l @ [0, y, 0]"
      by (simp add: broadcast_index_lead[OF l]) (simp add: broadcast_index_def)
    have b3: "broadcast_index [4, 4, 9] (l @ [x, y, k]) = [x, y, k]"
      by (simp add: broadcast_index_def)
    have b4: "broadcast_index (L @ [4, 1, 1]) (l @ [x, y, k]) = l @ [x, 0, 0]"
      by (simp add: broadcast_index_lead[OF l]) (simp add: broadcast_index_def)
    have bb: "butlast (butlast (l @ [x, 0, 0])) = l @ [x]"
      by (simp add: butlast_append)
    have "item p2 (l @ [x, y, k]) = item p1 (l @ [x, y, k]) * item m (l @ [0, y, 0])"
      unfolding p2_def item_broadcast_apply by (simp only: p1_def shape_broadcast_apply m(2) b1 b2)
    also have "item p1 (l @ [x, y, k]) = item tab [x, y, k] * item qn (l @ [x, 0, 0])"
      unfolding p1_def item_broadcast_apply by (simp only: qn(2) tab(2) b3 b4)
    finally show ?thesis
      by (simp only: qn(3) bb m(3)[OF len] tab(3))
  qed
  have "item r (l @ [k]) =
        sum_list (map (\<lambda>x. sum_list (map (\<lambda>y.
           item QUAT_TO_ROT (unravel_index [4, 4, 3, 3] (ravel_index [4, 4, 9] [x, y, k])) *
             item quat (l @ [x]) * item quat (l @ [y]))
           [0..<4])) [0..<4])" if l: "valid_index L l" for l k
  proof -
    have len: "length l = length L" using l by (simp add: valid_index_length)
    show ?thesis
      unfolding r_def sum_axis2_value(2)[OF sh2 len] by (simp only: item_p2[OF l])
  qed
  moreover have "shape r = L @ [9]"
    unfolding r_def using sum_axis2_value(1)[OF sh2] by simp
  ultimately show ?thesis using r by blast
qed

lemma QUAT_TO_ROT_entry:
  "x < 4 \<Longrightarrow> y < 4 \<Longrightarrow> i < 3 \<Longrightarrow> j < 3 \<Longrightarrow>
   item QUAT_TO_ROT (unravel_index [4, 4, 3, 3] (ravel_index [4, 4, 9] [x, y, 3 * i + j])) =
     QUAT_TO_ROT_block x y ! i ! j"
proof -
  assume b: "x < 4" "y < 4" "i < 3" "j < 3"
  let ?n = "36 * x + y * 9 + (3 * i + j)"
  from b have 1: "?n mod 3 = j" by presburger
  from b have 2: "?n div 3 = 12 * x + 3 * y + i" by presburger
  from b have 3: "(12 * x + 3 * y + i) mod 3 = i" by presburger
  from b have 4: "(12 * x + 3 * y + i) div 3 = 4 * x + y" by presburger
  from b have 5: "(4 * x + y) mod 4 = y" by presburger
  from b have 6: "(4 * x + y) div 4 = x" by presburger
  from b show ?thesis
    by (simp add: QUAT_TO_ROT_def ravel_index_def unravel_index_def 1 2 3 4 5 6)
qed

lemma quat_to_rot_fails:
  assumes "shape quat = L @ [4]"
  shows "quat_to_rot quat = Inl AttributeError"
proof -
  from quat_to_rot_tensor_value[OF assms] obtain r where "quat_to_rot_tensor quat = Inr r" by blast
  then show ?thesis
    by (simp add: quat_to_rot_def tuple_extend_def)
qed







text \<open>
  Claim C3 says that \<^verbatim>\<open>quat_to_rot\<close> returns an orthonormal matrix of determinant 1 for a
  unit quaternion. On a numpy array whose trailing dimension is 4 the function computes
  \<^verbatim>\<open>rot_tensor\<close> and then raises \<^verbatim>\<open>AttributeError\<close> at \<^verbatim>\<open>t_shape.extend([3, 3])\<close>, unit
  quaternion or not. (The nine numbers of \<^verbatim>\<open>rot_tensor\<close> are those of a rotation matrix:
  \<open>quat_to_rot_tensor_entries\<close>, \<open>rotation_of_quat_orthonormal\<close>, \<open>rotation_of_quat_det\<close>.)
\<close>

theorem quat_to_rot_raises:
  "shape quat = L @ [4] \<longrightarrow> quat_to_rot quat = Inl AttributeError"
  using quat_to_rot_fails[of quat L] by blast

theorem quat_to_rot_raises_witness:
  "quat_to_rot (array1 [1, 0, 0, 0]) = Inl AttributeError"
proof -
  have "shape (array1 [1, 0, 0, 0]) = [] @ [4]" by (simp add: array1_def)
  with quat_to_rot_raises[of "array1 [1, 0, 0, 0]" "[]"] show ?thesis by blast
qed

lemma QUAT_TO_ROT_flat:
  assumes "x < 4" "y < 4" "k < 9"
  shows "item QUAT_TO_ROT (unravel_index [4, 4, 3, 3] (ravel_index [4, 4, 9] [x, y, k])) =
     QUAT_TO_ROT_block x y ! (k div 3) ! (k mod 3)"
proof -
  from assms(3) have "k div 3 < 3" "k mod 3 < 3" by presburger+
  from QUAT_TO_ROT_entry[OF assms(1,2) this] show ?thesis by simp
qed

lemma quat_to_rot_tensor_entries:
  assumes q: "shape quat = L @ [4]"
  shows "\<exists>r. quat_to_rot_tensor quat = Inr r \<and> shape r = L @ [9] \<and>
     (\<forall>l k. valid_index L l \<and> k < 9 \<longrightarrow> item r (l @ [k]) = rotation_of_quat (quat_at quat l) k)"
proof -
  from quat_to_rot_tensor_value[OF q] obtain r where
    r: "quat_to_rot_tensor quat = Inr r" "shape r = L @ [9]"
    and i: "\<And>l k. valid_index L l \<Longrightarrow> item r (l @ [k]) =
        sum_list (map (\<lambda>x. sum_list (map (\<lambda>y.
           item QUAT_TO_ROT (unravel_index [4, 4, 3, 3] (ravel_index [4, 4, 9] [x, y, k])) *
           item quat (l @ [x]) * item quat (l @ [y]))
           [0..<4])) [0..<4])"
    by blast
  have "item r (l @ [k]) = rotation_of_quat (quat_at quat l) k"
    if l: "valid_index L l" and k: "k < 9" for l k
  proof -
    have e: "item r (l @ [k]) =
        sum_list (map (\<lambda>x. sum_list (map (\<lambda>y.
           QUAT_TO_ROT_block x y ! (k div 3) ! (k mod 3) *
           item quat (l @ [x]) * item quat (l @ [y]))
           [0..<4])) [0..<4])" if "k < 9" for k
      using that by (simp add: i[OF l] upt_4 QUAT_TO_ROT_flat)
    from k consider "k = 0" | "k = 1" | "k = 2" | "k = 3" | "k = 4" | "k = 5" | "k = 6"
      | "k = 7" | "k = 8" by linarith
    then show ?thesis
      by cases
        (simp_all add: e upt_4 QUAT_TO_ROT_block_def rotation_of_quat_def quat_at_def
          power2_eq_square)
  qed
  with r show ?thesis by blast
qed

lemma rotation_of_quat_gram:
  "list_all (\<lambda>(i, j). rotation_of_quat (w, x, y, z) (3 * i + 0) * rotation_of_quat (w, x, y, z) (3 * j + 0)
        + rotation_of_quat (w, x, y, z) (3 * i + 1) * rotation_of_quat (w, x, y, z) (3 * j + 1)
        + rotation_of_quat (w, x, y, z) (3 * i + 2) * rotation_of_quat (w, x, y, z) (3 * j + 2)
        = (if i = j then (w^2 + x^2 + y^2 + z^2)^2 else 0))
       [(0, 0), (0, 1), (0, 2), (1, 0), (1, 1), (1, 2), (2, 0), (2, 1), (2, 2)]"
  unfolding rotation_of_quat_def
  by (simp add: power2_eq_square algebra_simps)

lemma rotation_of_quat_orthonormal:
  assumes n: "w^2 + x^2 + y^2 + z^2 = (1::real)"
  shows "orthonormal3 (\<lambda>i j. rotation_of_quat (w, x, y, z) (3 * i + j))"
  using rotation_of_quat_gram[of w x y z] unfolding orthonormal3_def n
  by simp

lemma rotation_of_quat_det:
  assumes n: "w^2 + x^2 + y^2 + z^2 = (1::real)"
  shows "det3 (\<lambda>i j. rotation_of_quat (w, x, y, z) (3 * i + j)) = 1"
proof -
  have "det3 (\<lambda>i j. rotation_of_quat (w, x, y, z) (3 * i + j)) = (w^2 + x^2 + y^2 + z^2)^3"
    unfolding det3_def rotation_of_quat_def
    by (simp add: power2_eq_square power3_eq_cube algebra_simps)
  then show ?thesis using n by simp
qed


lemma bidx_rev_valid_bc:
  "bc_rev s t = Some r \<Longrightarrow> list_all2 (<) i r \<Longrightarrow> list_all2 (<) (bidx_rev s i) s"
proof (induction s t arbitrary: r i rule: bc_rev.induct)
  case (1 ys)
  then show ?case by simp
next
  case (2 x xs)
  then show ?case by (simp add: bidx_rev_valid)
next
  case (3 x xs y ys)
  then show ?case
    by (cases i) (auto split: if_splits)
qed

lemma broadcast_index_valid_bc:
  assumes "broadcast_shapes s t = Some r" "valid_index r i"
  shows "valid_index s (broadcast_index s i)"
proof -
  from assms(1) obtain r' where r': "bc_rev (rev s) (rev t) = Some r'" "r = rev r'"
    by (auto simp: broadcast_shapes_def)
  from assms(2) r' have "list_all2 (<) (rev i) r'"
    by (simp add: valid_index_def list_all2_rev1)
  from bidx_rev_valid_bc[OF r'(1) this] show ?thesis
    by (simp add: valid_index_def broadcast_index_def list_all2_rev1)
qed

lemma binop_frame_left:
  assumes "broadcast_shapes (shape a) (shape x) = Some (shape x)"
  shows "\<exists>r. binop f a x = Inr r \<and> shape r = shape x \<and>
     (\<forall>i. valid_index (shape x) i \<longrightarrow>
        item r i = f (item a (broadcast_index (shape a) i)) (item x i))"
  using assms
  by (simp add: binop_ok item_broadcast_apply broadcast_index_valid)

lemma binop_frame_right:
  assumes "broadcast_shapes (shape a) (shape x) = Some (shape x)"
  shows "\<exists>r. binop f x a = Inr r \<and> shape r = shape x \<and>
     (\<forall>i. valid_index (shape x) i \<longrightarrow>
        item r i = f (item x i) (item a (broadcast_index (shape a) i)))"
proof -
  from assms have "broadcast_shapes (shape x) (shape a) = Some (shape x)"
    by (simp add: broadcast_shapes_commute)
  then show ?thesis
    by (simp add: binop_ok item_broadcast_apply broadcast_index_valid)
qed

lemma binop_same:
  assumes "shape x = shape y"
  shows "\<exists>r. binop f x y = Inr r \<and> shape r = shape x \<and>
     (\<forall>i. valid_index (shape x) i \<longrightarrow> item r i = f (item x i) (item y i))"
  using assms
  by (simp add: binop_ok item_broadcast_apply broadcast_index_valid)

lemma lin3_expr_Inr:
  "lin3_expr (Inr a) (Inr x) (Inr b) (Inr y) (Inr c) (Inr z) = lin3 a b c x y z"
  by (simp add: lin3_expr_def lin3_def)

lemma lin3_frame:
  assumes a: "shape a = A" "shape b = A" "shape c = A"
    and x: "shape x = S" "shape y = S" "shape z = S"
    and bs: "broadcast_shapes A S = Some S"
  shows "\<exists>r. lin3 a b c x y z = Inr r \<and> shape r = S \<and>
     (\<forall>i. valid_index S i \<longrightarrow>
        item r i = item a (broadcast_index A i) * item x i
                 + item b (broadcast_index A i) * item y i
                 + item c (broadcast_index A i) * item z i)"
proof -
  from binop_frame_left[of a x "(*)"] a x bs obtain ax where
    ax: "np_mul a x = Inr ax" "shape ax = S"
      "\<And>i. valid_index S i \<Longrightarrow> item ax i = item a (broadcast_index A i) * item x i"
    by (auto simp: np_mul_def)
  from binop_frame_left[of b y "(*)"] a x bs obtain byy where
    byy: "np_mul b y = Inr byy" "shape byy = S"
      "\<And>i. valid_index S i \<Longrightarrow> item byy i = item b (broadcast_index A i) * item y i"
    by (auto simp: np_mul_def)
  from binop_frame_left[of c z "(*)"] a x bs obtain cz where
    cz: "np_mul c z = Inr cz" "shape cz = S"
      "\<And>i. valid_index S i \<Longrightarrow> item cz i = item c (broadcast_index A i) * item z i"
    by (auto simp: np_mul_def)
  from binop_same[of ax byy "(+)"] ax(2) byy(2) obtain s where
    s: "np_add ax byy = Inr s" "shape s = S"
      "\<And>i. valid_index S i \<Longrightarrow> item s i = item ax i + item byy i"
    by (auto simp: np_add_def)
  from binop_same[of s cz "(+)"] s(2) cz(2) obtain r where
    r: "np_add s cz = Inr r" "shape r = S"
      "\<And>i. valid_index S i \<Longrightarrow> item r i = item s i + item cz i"
    by (auto simp: np_add_def)
  have "lin3 a b c x y z = Inr r"
    by (simp add: lin3_def ax(1) byy(1) cz(1) s(1) r(1))
  with r(2) r(3) s(3) ax(3) byy(3) cz(3) show ?thesis by simp
qed

lemma expand_dims_m2:
  assumes "shape a = M @ [d]"
  shows "\<exists>m. expand_dims a [-2] = Inr m \<and> shape m = (M @ [1]) @ [d] \<and>
           (\<forall>l e x. length l = length M \<longrightarrow> item m ((l @ [e]) @ [x]) = item a (l @ [x]))"
  using assms
  by (simp add: expand_dims_def insert_axis_def)

lemma expand_dims_m3:
  assumes "shape a = M @ [c, d]"
  shows "\<exists>m. expand_dims a [-3] = Inr m \<and> shape m = (M @ [1]) @ [c, d] \<and>
           (\<forall>l e x y. length l = length M \<longrightarrow> item m ((l @ [e]) @ [x, y]) = item a (l @ [x, y]))"
  using assms
  by (simp add: expand_dims_def insert_axis_def)

lemma expand_extra_dims_value:
  assumes "shape rot = M @ [3, 3]" "shape tr = M @ [3]"
  shows "\<exists>rot' tr'. expand_extra_dims k rot tr = Inr (rot', tr') \<and>
      shape rot' = M @ replicate k 1 @ [3, 3] \<and> shape tr' = M @ replicate k 1 @ [3] \<and>
      (\<forall>l e x y. length l = length M \<and> length e = k \<longrightarrow>
          item rot' (l @ e @ [x, y]) = item rot (l @ [x, y])) \<and>
      (\<forall>l e x. length l = length M \<and> length e = k \<longrightarrow>
          item tr' (l @ e @ [x]) = item tr (l @ [x]))"
  using assms
proof (induction k arbitrary: rot tr M)
  case 0
  then show ?case by simp
next
  case (Suc k)
  from expand_dims_m2[OF Suc.prems(2)] obtain tr1 where
    tr1: "expand_dims tr [-2] = Inr tr1" "shape tr1 = (M @ [1]) @ [3]"
      "\<And>l e x. length l = length M \<Longrightarrow> item tr1 ((l @ [e]) @ [x]) = item tr (l @ [x])"
    by blast
  from expand_dims_m3[OF Suc.prems(1)] obtain rot1 where
    rot1: "expand_dims rot [-3] = Inr rot1" "shape rot1 = (M @ [1]) @ [3, 3]"
      "\<And>l e x y. length l = length M \<Longrightarrow> item rot1 ((l @ [e]) @ [x, y]) = item rot (l @ [x, y])"
    by blast
  from Suc.IH[OF rot1(2) tr1(2)] obtain rot' tr' where
    r: "expand_extra_dims k rot1 tr1 = Inr (rot', tr')"
      "shape rot' = (M @ [1]) @ replicate k 1 @ [3, 3]"
      "shape tr' = (M @ [1]) @ replicate k 1 @ [3]"
      "\<And>l e x y. length l = length (M @ [1]) \<and> length e = k \<Longrightarrow>
          item rot' (l @ e @ [x, y]) = item rot1 (l @ [x, y])"
      "\<And>l e x. length l = length (M @ [1]) \<and> length e = k \<Longrightarrow>
          item tr' (l @ e @ [x]) = item tr1 (l @ [x])"
    by blast
  have 1: "expand_extra_dims (Suc k) rot tr = Inr (rot', tr')"
    by (simp add: tr1(1) rot1(1) r(1))
  have 2: "item rot' (l @ e @ [x, y]) = item rot (l @ [x, y])"
    if "length l = length M" "length e = Suc k" for l e x y
  proof -
    from that obtain e0 e' where e: "e = e0 # e'" "length e' = k" by (cases e) auto
    have "item rot' (l @ e @ [x, y]) = item rot' ((l @ [e0]) @ e' @ [x, y])"
      by (simp add: e)
    also have "\<dots> = item rot1 ((l @ [e0]) @ [x, y])"
      by (rule r(4)) (simp add: that e)
    also have "\<dots> = item rot (l @ [x, y])"
      by (rule rot1(3)) (simp add: that)
    finally show ?thesis .
  qed
  have 3: "item tr' (l @ e @ [x]) = item tr (l @ [x])"
    if "length l = length M" "length e = Suc k" for l e x
  proof -
    from that obtain e0 e' where e: "e = e0 # e'" "length e' = k" by (cases e) auto
    have "item tr' (l @ e @ [x]) = item tr' ((l @ [e0]) @ e' @ [x])"
      by (simp add: e)
    also have "\<dots> = item tr1 ((l @ [e0]) @ [x])"
      by (rule r(5)) (simp add: that e)
    also have "\<dots> = item tr (l @ [x])"
      by (rule tr1(3)) (simp add: that)
    finally show ?thesis .
  qed
  from 1 2 3 r(2,3) show ?case
    by (simp add: replicate_append_same)
qed

lemma col_norm:
  fixes a b c d e f g h i :: real
  assumes "a*a + b*b + c*c = 1" "d*d + e*e + f*f = 1" "g*g + h*h + i*i = 1"
    "a*d + b*e + c*f = 0" "a*g + b*h + c*i = 0" "d*g + e*h + f*i = 0"
  shows "a*a + d*d + g*g = 1"
  using assms by algebra

lemma col_dot:
  fixes a b c d e f g h i :: real
  assumes "a*a + b*b + c*c = 1" "d*d + e*e + f*f = 1" "g*g + h*h + i*i = 1"
    "a*d + b*e + c*f = 0" "a*g + b*h + c*i = 0" "d*g + e*h + f*i = 0"
  shows "a*b + d*e + g*h = 0"
  using assms by algebra

lemma orthonormal3_columns:
  assumes "orthonormal3 m"
  shows "m 0 0 * m 0 0 + m 1 0 * m 1 0 + m 2 0 * m 2 0 = 1"
    and "m 0 1 * m 0 1 + m 1 1 * m 1 1 + m 2 1 * m 2 1 = 1"
    and "m 0 2 * m 0 2 + m 1 2 * m 1 2 + m 2 2 * m 2 2 = 1"
    and "m 0 0 * m 0 1 + m 1 0 * m 1 1 + m 2 0 * m 2 1 = 0"
    and "m 0 0 * m 0 2 + m 1 0 * m 1 2 + m 2 0 * m 2 2 = 0"
    and "m 0 1 * m 0 2 + m 1 1 * m 1 2 + m 2 1 * m 2 2 = 0"
proof -
  from assms have r:
    "m 0 0 * m 0 0 + m 0 1 * m 0 1 + m 0 2 * m 0 2 = 1"
    "m 1 0 * m 1 0 + m 1 1 * m 1 1 + m 1 2 * m 1 2 = 1"
    "m 2 0 * m 2 0 + m 2 1 * m 2 1 + m 2 2 * m 2 2 = 1"
    "m 0 0 * m 1 0 + m 0 1 * m 1 1 + m 0 2 * m 1 2 = 0"
    "m 0 0 * m 2 0 + m 0 1 * m 2 1 + m 0 2 * m 2 2 = 0"
    "m 1 0 * m 2 0 + m 1 1 * m 2 1 + m 1 2 * m 2 2 = 0"
    by (simp_all add: orthonormal3_def)
  show "m 0 0 * m 0 0 + m 1 0 * m 1 0 + m 2 0 * m 2 0 = 1"
    by (rule col_norm[OF r])
  show "m 0 1 * m 0 1 + m 1 1 * m 1 1 + m 2 1 * m 2 1 = 1"
    using col_norm[of "m 0 1" "m 0 0" "m 0 2" "m 1 1" "m 1 0" "m 1 2" "m 2 1" "m 2 0" "m 2 2"] r
    by (simp add: add.commute)
  show "m 0 2 * m 0 2 + m 1 2 * m 1 2 + m 2 2 * m 2 2 = 1"
    using col_norm[of "m 0 2" "m 0 1" "m 0 0" "m 1 2" "m 1 1" "m 1 0" "m 2 2" "m 2 1" "m 2 0"] r
    by (simp add: add.commute add.left_commute)
  show "m 0 0 * m 0 1 + m 1 0 * m 1 1 + m 2 0 * m 2 1 = 0"
    by (rule col_dot[OF r])
  show "m 0 0 * m 0 2 + m 1 0 * m 1 2 + m 2 0 * m 2 2 = 0"
    using col_dot[of "m 0 0" "m 0 2" "m 0 1" "m 1 0" "m 1 2" "m 1 1" "m 2 0" "m 2 2" "m 2 1"] r
    by (simp add: add.commute add.left_commute)
  show "m 0 1 * m 0 2 + m 1 1 * m 1 2 + m 2 1 * m 2 2 = 0"
    using col_dot[of "m 0 1" "m 0 2" "m 0 0" "m 1 1" "m 1 2" "m 1 0" "m 2 1" "m 2 2" "m 2 0"] r
    by (simp add: add.commute add.left_commute)
qed

lemma rot_inverse_apply:
  assumes "orthonormal3 m"
  shows "m 0 0 * ((m 0 0 * X + m 0 1 * Y + m 0 2 * Z + t0) - t0)
       + m 1 0 * ((m 1 0 * X + m 1 1 * Y + m 1 2 * Z + t1) - t1)
       + m 2 0 * ((m 2 0 * X + m 2 1 * Y + m 2 2 * Z + t2) - t2) = X"
    and "m 0 1 * ((m 0 0 * X + m 0 1 * Y + m 0 2 * Z + t0) - t0)
       + m 1 1 * ((m 1 0 * X + m 1 1 * Y + m 1 2 * Z + t1) - t1)
       + m 2 1 * ((m 2 0 * X + m 2 1 * Y + m 2 2 * Z + t2) - t2) = Y"
    and "m 0 2 * ((m 0 0 * X + m 0 1 * Y + m 0 2 * Z + t0) - t0)
       + m 1 2 * ((m 1 0 * X + m 1 1 * Y + m 1 2 * Z + t1) - t1)
       + m 2 2 * ((m 2 0 * X + m 2 1 * Y + m 2 2 * Z + t2) - t2) = Z"
proof -
  note c = orthonormal3_columns[OF assms]
  have "m 0 0 * ((m 0 0 * X + m 0 1 * Y + m 0 2 * Z + t0) - t0)
       + m 1 0 * ((m 1 0 * X + m 1 1 * Y + m 1 2 * Z + t1) - t1)
       + m 2 0 * ((m 2 0 * X + m 2 1 * Y + m 2 2 * Z + t2) - t2)
     = (m 0 0 * m 0 0 + m 1 0 * m 1 0 + m 2 0 * m 2 0) * X
     + (m 0 0 * m 0 1 + m 1 0 * m 1 1 + m 2 0 * m 2 1) * Y
     + (m 0 0 * m 0 2 + m 1 0 * m 1 2 + m 2 0 * m 2 2) * Z"
    by (simp add: algebra_simps)
  also have "\<dots> = 1 * X + 0 * Y + 0 * Z"
    by (simp only: c)
  finally show "m 0 0 * ((m 0 0 * X + m 0 1 * Y + m 0 2 * Z + t0) - t0)
       + m 1 0 * ((m 1 0 * X + m 1 1 * Y + m 1 2 * Z + t1) - t1)
       + m 2 0 * ((m 2 0 * X + m 2 1 * Y + m 2 2 * Z + t2) - t2) = X"
    by simp
  have "m 0 1 * ((m 0 0 * X + m 0 1 * Y + m 0 2 * Z + t0) - t0)
       + m 1 1 * ((m 1 0 * X + m 1 1 * Y + m 1 2 * Z + t1) - t1)
       + m 2 1 * ((m 2 0 * X + m 2 1 * Y + m 2 2 * Z + t2) - t2)
     = (m 0 0 * m 0 1 + m 1 0 * m 1 1 + m 2 0 * m 2 1) * X
     + (m 0 1 * m 0 1 + m 1 1 * m 1 1 + m 2 1 * m 2 1) * Y
     + (m 0 1 * m 0 2 + m 1 1 * m 1 2 + m 2 1 * m 2 2) * Z"
    by (simp add: algebra_simps)
  also have "\<dots> = 0 * X + 1 * Y + 0 * Z"
    by (simp only: c)
  finally show "m 0 1 * ((m 0 0 * X + m 0 1 * Y + m 0 2 * Z + t0) - t0)
       + m 1 1 * ((m 1 0 * X + m 1 1 * Y + m 1 2 * Z + t1) - t1)
       + m 2 1 * ((m 2 0 * X + m 2 1 * Y + m 2 2 * Z + t2) - t2) = Y"
    by simp
  have "m 0 2 * ((m 0 0 * X + m 0 1 * Y + m 0 2 * Z + t0) - t0)
       + m 1 2 * ((m 1 0 * X + m 1 1 * Y + m 1 2 * Z + t1) - t1)
       + m 2 2 * ((m 2 0 * X + m 2 1 * Y + m 2 2 * Z + t2) - t2)
     = (m 0 0 * m 0 2 + m 1 0 * m 1 2 + m 2 0 * m 2 2) * X
     + (m 0 1 * m 0 2 + m 1 1 * m 1 2 + m 2 1 * m 2 2) * Y
     + (m 0 2 * m 0 2 + m 1 2 * m 1 2 + m 2 2 * m 2 2) * Z"
    by (simp add: algebra_simps)
  also have "\<dots> = 0 * X + 0 * Y + 1 * Z"
    by (simp only: c)
  finally show "m 0 2 * ((m 0 0 * X + m 0 1 * Y + m 0 2 * Z + t0) - t0)
       + m 1 2 * ((m 1 0 * X + m 1 1 * Y + m 1 2 * Z + t1) - t1)
       + m 2 2 * ((m 2 0 * X + m 2 1 * Y + m 2 2 * Z + t2) - t2) = Z"
    by simp
qed

lemma getitem_last2_value:
  assumes "shape a = A @ [c, d]" "i < c" "j < d"
  shows "\<exists>r. getitem_last2 a i j = Inr r \<and> shape r = A \<and> (\<forall>m. item r m = item a (m @ [i, j]))"
  using assms by (simp add: getitem_last2_def butlast_append)

lemma getitem_last_value:
  assumes "shape a = A @ [d]" "i < d"
  shows "\<exists>r. getitem_last a i = Inr r \<and> shape r = A \<and> (\<forall>m. item r m = item a (m @ [i]))"
  using assms by (simp add: getitem_last_def butlast_append)

lemma rot_row_frame:
  assumes r: "shape rot = A @ [3, 3]" and i: "i < 3"
    and x: "shape x = S" "shape y = S" "shape z = S"
    and bs: "broadcast_shapes A S = Some S"
  shows "\<exists>r. rot_row rot i x y z = Inr r \<and> shape r = S \<and>
     (\<forall>m. valid_index S m \<longrightarrow>
        item r m = item rot (broadcast_index A m @ [i, 0]) * item x m
                 + item rot (broadcast_index A m @ [i, 1]) * item y m
                 + item rot (broadcast_index A m @ [i, 2]) * item z m)"
proof -
  from getitem_last2_value[OF r i, of 0] obtain a where
    a: "getitem_last2 rot i 0 = Inr a" "shape a = A" "\<And>m. item a m = item rot (m @ [i, 0])"
    by auto
  from getitem_last2_value[OF r i, of 1] obtain b where
    b: "getitem_last2 rot i 1 = Inr b" "shape b = A" "\<And>m. item b m = item rot (m @ [i, 1])"
    by auto
  from getitem_last2_value[OF r i, of 2] obtain c where
    c: "getitem_last2 rot i 2 = Inr c" "shape c = A" "\<And>m. item c m = item rot (m @ [i, 2])"
    by auto
  from lin3_frame[OF a(2) b(2) c(2) x bs] show ?thesis
    by (simp add: rot_row_def lin3_expr_Inr a b c del: One_nat_def)
qed

lemma rot_column_frame:
  assumes r: "shape rot = A @ [3, 3]" and i: "i < 3"
    and x: "shape x = S" "shape y = S" "shape z = S"
    and bs: "broadcast_shapes A S = Some S"
  shows "\<exists>r. rot_column rot i x y z = Inr r \<and> shape r = S \<and>
     (\<forall>m. valid_index S m \<longrightarrow>
        item r m = item rot (broadcast_index A m @ [0, i]) * item x m
                 + item rot (broadcast_index A m @ [1, i]) * item y m
                 + item rot (broadcast_index A m @ [2, i]) * item z m)"
proof -
  from getitem_last2_value[OF r _ i, of 0] obtain a where
    a: "getitem_last2 rot 0 i = Inr a" "shape a = A" "\<And>m. item a m = item rot (m @ [0, i])"
    by auto
  from getitem_last2_value[OF r _ i, of 1] obtain b where
    b: "getitem_last2 rot 1 i = Inr b" "shape b = A" "\<And>m. item b m = item rot (m @ [1, i])"
    by auto
  from getitem_last2_value[OF r _ i, of 2] obtain c where
    c: "getitem_last2 rot 2 i = Inr c" "shape c = A" "\<And>m. item c m = item rot (m @ [2, i])"
    by auto
  from lin3_frame[OF a(2) b(2) c(2) x bs] show ?thesis
    by (simp add: rot_column_def lin3_expr_Inr a b c del: One_nat_def)
qed

lemma apply_rot_to_vec_frame:
  assumes r: "shape rot = A @ [3, 3]"
    and x: "shape x = S" "shape y = S" "shape z = S"
    and bs: "broadcast_shapes A S = Some S"
  shows "\<exists>r0 r1 r2. apply_rot_to_vec rot [x, y, z] = Inr [r0, r1, r2] \<and>
     shape r0 = S \<and> shape r1 = S \<and> shape r2 = S \<and>
     (\<forall>m. valid_index S m \<longrightarrow>
        item r0 m = item rot (broadcast_index A m @ [0, 0]) * item x m
                  + item rot (broadcast_index A m @ [0, 1]) * item y m
                  + item rot (broadcast_index A m @ [0, 2]) * item z m \<and>
        item r1 m = item rot (broadcast_index A m @ [1, 0]) * item x m
                  + item rot (broadcast_index A m @ [1, 1]) * item y m
                  + item rot (broadcast_index A m @ [1, 2]) * item z m \<and>
        item r2 m = item rot (broadcast_index A m @ [2, 0]) * item x m
                  + item rot (broadcast_index A m @ [2, 1]) * item y m
                  + item rot (broadcast_index A m @ [2, 2]) * item z m)"
proof -
  from rot_row_frame[OF r _ x bs, of 0] obtain r0 where
    r0: "rot_row rot 0 x y z = Inr r0" "shape r0 = S"
     "\<And>m. valid_index S m \<Longrightarrow>
        item r0 m = item rot (broadcast_index A m @ [0, 0]) * item x m
                  + item rot (broadcast_index A m @ [0, 1]) * item y m
                  + item rot (broadcast_index A m @ [0, 2]) * item z m"
    by auto
  from rot_row_frame[OF r _ x bs, of 1] obtain r1 where
    r1: "rot_row rot 1 x y z = Inr r1" "shape r1 = S"
     "\<And>m. valid_index S m \<Longrightarrow>
        item r1 m = item rot (broadcast_index A m @ [1, 0]) * item x m
                  + item rot (broadcast_index A m @ [1, 1]) * item y m
                  + item rot (broadcast_index A m @ [1, 2]) * item z m"
    by auto
  from rot_row_frame[OF r _ x bs, of 2] obtain r2 where
    r2: "rot_row rot 2 x y z = Inr r2" "shape r2 = S"
     "\<And>m. valid_index S m \<Longrightarrow>
        item r2 m = item rot (broadcast_index A m @ [2, 0]) * item x m
                  + item rot (broadcast_index A m @ [2, 1]) * item y m
                  + item rot (broadcast_index A m @ [2, 2]) * item z m"
    by auto
  have "apply_rot_to_vec rot [x, y, z] = Inr [r0, r1, r2]"
    by (simp add: apply_rot_to_vec_def unpack3_def apply_rot_xyz_def r0(1) r1(1) r2(1)
        del: One_nat_def)
  with r0(2,3) r1(2,3) r2(2,3) show ?thesis by blast
qed

lemma apply_inverse_rot_to_vec_frame:
  assumes r: "shape rot = A @ [3, 3]"
    and x: "shape x = S" "shape y = S" "shape z = S"
    and bs: "broadcast_shapes A S = Some S"
  shows "\<exists>r0 r1 r2. apply_inverse_rot_to_vec rot [x, y, z] = Inr [r0, r1, r2] \<and>
     shape r0 = S \<and> shape r1 = S \<and> shape r2 = S \<and>
     (\<forall>m. valid_index S m \<longrightarrow>
        item r0 m = item rot (broadcast_index A m @ [0, 0]) * item x m
                  + item rot (broadcast_index A m @ [1, 0]) * item y m
                  + item rot (broadcast_index A m @ [2, 0]) * item z m \<and>
        item r1 m = item rot (broadcast_index A m @ [0, 1]) * item x m
                  + item rot (broadcast_index A m @ [1, 1]) * item y m
                  + item rot (broadcast_index A m @ [2, 1]) * item z m \<and>
        item r2 m = item rot (broadcast_index A m @ [0, 2]) * item x m
                  + item rot (broadcast_index A m @ [1, 2]) * item y m
                  + item rot (broadcast_index A m @ [2, 2]) * item z m)"
proof -
  from rot_column_frame[OF r _ x bs, of 0] obtain r0 where
    r0: "rot_column rot 0 x y z = Inr r0" "shape r0 = S"
     "\<And>m. valid_index S m \<Longrightarrow>
        item r0 m = item rot (broadcast_index A m @ [0, 0]) * item x m
                  + item rot (broadcast_index A m @ [1, 0]) * item y m
                  + item rot (broadcast_index A m @ [2, 0]) * item z m"
    by auto
  from rot_column_frame[OF r _ x bs, of 1] obtain r1 where
    r1: "rot_column rot 1 x y z = Inr r1" "shape r1 = S"
     "\<And>m. valid_index S m \<Longrightarrow>
        item r1 m = item rot (broadcast_index A m @ [0, 1]) * item x m
                  + item rot (broadcast_index A m @ [1, 1]) * item y m
                  + item rot (broadcast_index A m @ [2, 1]) * item z m"
    by auto
  from rot_column_frame[OF r _ x bs, of 2] obtain r2 where
    r2: "rot_column rot 2 x y z = Inr r2" "shape r2 = S"
     "\<And>m. valid_index S m \<Longrightarrow>
        item r2 m = item rot (broadcast_index A m @ [0, 2]) * item x m
                  + item rot (broadcast_index A m @ [1, 2]) * item y m
                  + item rot (broadcast_index A m @ [2, 2]) * item z m"
    by auto
  have "apply_inverse_rot_to_vec rot [x, y, z] = Inr [r0, r1, r2]"
    by (simp add: apply_inverse_rot_to_vec_def unpack3_def r0(1) r1(1) r2(1)
        del: One_nat_def)
  with r0(2,3) r1(2,3) r2(2,3) show ?thesis by blast
qed

lemma translate_frame:
  assumes t: "shape tr = A @ [3]" and i: "i < 3" and x: "shape x = S"
    and bs: "broadcast_shapes A S = Some S"
  shows "\<exists>t0. getitem_last tr i = Inr t0 \<and>
     (\<exists>p. np_add x t0 = Inr p \<and> shape p = S \<and>
        (\<forall>m. valid_index S m \<longrightarrow> item p m = item x m + item tr (broadcast_index A m @ [i]))) \<and>
     (\<exists>p. np_sub x t0 = Inr p \<and> shape p = S \<and>
        (\<forall>m. valid_index S m \<longrightarrow> item p m = item x m - item tr (broadcast_index A m @ [i])))"
proof -
  from getitem_last_value[OF t i] obtain t0 where
    t0: "getitem_last tr i = Inr t0" "shape t0 = A" "\<And>m. item t0 m = item tr (m @ [i])"
    by auto
  from bs x t0(2) have b: "broadcast_shapes (shape t0) (shape x) = Some (shape x)" by simp
  from binop_frame_right[OF b, of "(+)"] binop_frame_right[OF b, of "(-)"] t0 x
  show ?thesis by (simp add: np_add_def np_sub_def)
qed

lemma rotation_orthonormalD:
  assumes "rotation_orthonormal r" "shape r = L @ [3, 3]" "valid_index L l"
  shows "orthonormal3 (\<lambda>i j. item r (l @ [i, j]))"
  using assms by (simp add: rotation_orthonormal_def list_all_iff set_indices butlast_append)

lemma leading_index_split:
  assumes bs: "broadcast_shapes (L @ replicate e 1) S = Some S" and m: "valid_index S m"
  shows "valid_index L (leading_index L e m) \<and>
         (\<exists>ex. broadcast_index (L @ replicate e 1) m = leading_index L e m @ ex \<and>
               length (leading_index L e m) = length L \<and> length ex = e)"
proof -
  define P where "P = broadcast_index (L @ replicate e 1) m"
  define l where "l = take (length L) P"
  define ex where "ex = drop (length L) P"
  have vP: "valid_index (L @ replicate e 1) P"
    unfolding P_def by (rule broadcast_index_valid_bc[OF bs m])
  then have lenP: "length P = length L + e"
    by (simp add: valid_index_length)
  have P: "P = l @ ex" by (simp add: l_def ex_def)
  have len: "length l = length L \<and> length ex = e"
    using lenP by (simp add: l_def ex_def)
  from vP have "valid_index (L @ replicate e 1) (l @ ex)" by (simp add: P)
  with len have vl: "valid_index L l" by (simp add: valid_index_append)
  have "l = leading_index L e m" by (simp add: l_def P_def leading_index_def)
  with vl P len show ?thesis unfolding P_def by blast
qed

lemma apply_to_point_value:
  assumes sr: "shape (rotation f) = L @ [3, 3]" and st: "shape (translation f) = L @ [3]"
    and x: "shape x = S" "shape y = S" "shape z = S"
    and bs: "broadcast_shapes (L @ replicate extra_dims 1) S = Some S"
  shows "\<exists>p0 p1 p2. apply_to_point f [x, y, z] extra_dims = Inr [p0, p1, p2] \<and>
           shape p0 = S \<and> shape p1 = S \<and> shape p2 = S \<and>
           (\<forall>m i. valid_index S m \<and> i < 3 \<longrightarrow>
              item ([p0, p1, p2] ! i) m =
                mvec (mat_at (rotation f) (leading_index L extra_dims m))
                     (\<lambda>k. item ([x, y, z] ! k) m) i
                + vec_at (translation f) (leading_index L extra_dims m) i)"
proof -
  define A where "A = L @ replicate extra_dims 1"
  from bs have bs: "broadcast_shapes A S = Some S" by (simp add: A_def)
  from expand_extra_dims_value[OF sr st, of extra_dims] obtain rot' tr' where
    e: "expand_extra_dims extra_dims (rotation f) (translation f) = Inr (rot', tr')"
    and sr': "shape rot' = A @ [3, 3]" and st': "shape tr' = A @ [3]"
    and ir: "\<And>l e x y. length l = length L \<and> length e = extra_dims \<Longrightarrow>
          item rot' (l @ e @ [x, y]) = item (rotation f) (l @ [x, y])"
    and it: "\<And>l e x. length l = length L \<and> length e = extra_dims \<Longrightarrow>
          item tr' (l @ e @ [x]) = item (translation f) (l @ [x])"
    unfolding A_def by (auto simp: append_assoc)
  from apply_rot_to_vec_frame[OF sr' x bs] obtain r0 r1 r2 where
    r: "apply_rot_to_vec rot' [x, y, z] = Inr [r0, r1, r2]"
      "shape r0 = S" "shape r1 = S" "shape r2 = S"
    and ri: "\<And>m. valid_index S m \<Longrightarrow>
        item r0 m = item rot' (broadcast_index A m @ [0, 0]) * item x m
                  + item rot' (broadcast_index A m @ [0, 1]) * item y m
                  + item rot' (broadcast_index A m @ [0, 2]) * item z m \<and>
        item r1 m = item rot' (broadcast_index A m @ [1, 0]) * item x m
                  + item rot' (broadcast_index A m @ [1, 1]) * item y m
                  + item rot' (broadcast_index A m @ [1, 2]) * item z m \<and>
        item r2 m = item rot' (broadcast_index A m @ [2, 0]) * item x m
                  + item rot' (broadcast_index A m @ [2, 1]) * item y m
                  + item rot' (broadcast_index A m @ [2, 2]) * item z m"
    by blast
  from translate_frame[OF st' _ r(2) bs, of 0] obtain t0 p0 where
    t0: "getitem_last tr' 0 = Inr t0" and p0: "np_add r0 t0 = Inr p0" "shape p0 = S"
      "\<And>m. valid_index S m \<Longrightarrow> item p0 m = item r0 m + item tr' (broadcast_index A m @ [0])"
    by auto
  from translate_frame[OF st' _ r(3) bs, of 1] obtain t1 p1 where
    t1: "getitem_last tr' 1 = Inr t1" and p1: "np_add r1 t1 = Inr p1" "shape p1 = S"
      "\<And>m. valid_index S m \<Longrightarrow> item p1 m = item r1 m + item tr' (broadcast_index A m @ [1])"
    by auto
  from translate_frame[OF st' _ r(4) bs, of 2] obtain t2 p2 where
    t2: "getitem_last tr' 2 = Inr t2" and p2: "np_add r2 t2 = Inr p2" "shape p2 = S"
      "\<And>m. valid_index S m \<Longrightarrow> item p2 m = item r2 m + item tr' (broadcast_index A m @ [2])"
    by auto
  have ap: "apply_to_point f [x, y, z] extra_dims = Inr [p0, p1, p2]"
    by (simp add: apply_to_point_def e r(1) t0 t1 t2 p0(1) p1(1) p2(1) del: One_nat_def)
  have v: "item ([p0, p1, p2] ! i) m =
                mvec (mat_at (rotation f) (leading_index L extra_dims m))
                     (\<lambda>k. item ([x, y, z] ! k) m) i
                + vec_at (translation f) (leading_index L extra_dims m) i"
    if m: "valid_index S m" and i: "i < 3" for m i
  proof -
    from leading_index_split[OF bs[unfolded A_def] m] obtain ex where
      P: "broadcast_index A m = leading_index L extra_dims m @ ex"
      and len: "length (leading_index L extra_dims m) = length L \<and> length ex = extra_dims"
      unfolding A_def by blast
    have R: "item rot' (broadcast_index A m @ [a, b]) =
        item (rotation f) (leading_index L extra_dims m @ [a, b])" for a b
      using ir[OF len, of a b] by (simp add: P)
    have T: "item tr' (broadcast_index A m @ [a]) =
        item (translation f) (leading_index L extra_dims m @ [a])" for a
      using it[OF len, of a] by (simp add: P)
    from i have "i = 0 \<or> i = 1 \<or> i = 2" by auto
    then show ?thesis
      using ri[OF m] p0(3)[OF m] p1(3)[OF m] p2(3)[OF m]
      by (auto simp: R T mvec_def mat_at_def vec_at_def simp del: One_nat_def)
  qed
  from ap p0(2) p1(2) p2(2) v show ?thesis by blast
qed

lemma invert_point_value:
  assumes sr: "shape (rotation f) = L @ [3, 3]" and st: "shape (translation f) = L @ [3]"
    and x: "shape x = S" "shape y = S" "shape z = S"
    and bs: "broadcast_shapes (L @ replicate extra_dims 1) S = Some S"
  shows "\<exists>q0 q1 q2. invert_point f [x, y, z] extra_dims = Inr [q0, q1, q2] \<and>
           shape q0 = S \<and> shape q1 = S \<and> shape q2 = S \<and>
           (\<forall>m i. valid_index S m \<and> i < 3 \<longrightarrow>
              item ([q0, q1, q2] ! i) m =
                mvec (mtranspose (mat_at (rotation f) (leading_index L extra_dims m)))
                     (\<lambda>k. item ([x, y, z] ! k) m
                          - vec_at (translation f) (leading_index L extra_dims m) k) i)"
proof -
  define A where "A = L @ replicate extra_dims 1"
  from bs have bs: "broadcast_shapes A S = Some S" by (simp add: A_def)
  from expand_extra_dims_value[OF sr st, of extra_dims] obtain rot' tr' where
    e: "expand_extra_dims extra_dims (rotation f) (translation f) = Inr (rot', tr')"
    and sr': "shape rot' = A @ [3, 3]" and st': "shape tr' = A @ [3]"
    and ir: "\<And>l e x y. length l = length L \<and> length e = extra_dims \<Longrightarrow>
          item rot' (l @ e @ [x, y]) = item (rotation f) (l @ [x, y])"
    and it: "\<And>l e x. length l = length L \<and> length e = extra_dims \<Longrightarrow>
          item tr' (l @ e @ [x]) = item (translation f) (l @ [x])"
    unfolding A_def by (auto simp: append_assoc)
  from translate_frame[OF st' _ x(1) bs, of 0] obtain t0 d0 where
    t0: "getitem_last tr' 0 = Inr t0" and
    d0: "np_sub x t0 = Inr d0" "shape d0 = S"
      "\<And>m. valid_index S m \<Longrightarrow> item d0 m = item x m - item tr' (broadcast_index A m @ [0])"
    by auto
  from translate_frame[OF st' _ x(2) bs, of 1] obtain t1 d1 where
    t1: "getitem_last tr' 1 = Inr t1" and
    d1: "np_sub y t1 = Inr d1" "shape d1 = S"
      "\<And>m. valid_index S m \<Longrightarrow> item d1 m = item y m - item tr' (broadcast_index A m @ [1])"
    by auto
  from translate_frame[OF st' _ x(3) bs, of 2] obtain t2 d2 where
    t2: "getitem_last tr' 2 = Inr t2" and
    d2: "np_sub z t2 = Inr d2" "shape d2 = S"
      "\<And>m. valid_index S m \<Longrightarrow> item d2 m = item z m - item tr' (broadcast_index A m @ [2])"
    by auto
  from apply_inverse_rot_to_vec_frame[OF sr' d0(2) d1(2) d2(2) bs] obtain q0 q1 q2 where
    q: "apply_inverse_rot_to_vec rot' [d0, d1, d2] = Inr [q0, q1, q2]"
      "shape q0 = S" "shape q1 = S" "shape q2 = S"
    and qi: "\<And>m. valid_index S m \<Longrightarrow>
        item q0 m = item rot' (broadcast_index A m @ [0, 0]) * item d0 m
                  + item rot' (broadcast_index A m @ [1, 0]) * item d1 m
                  + item rot' (broadcast_index A m @ [2, 0]) * item d2 m \<and>
        item q1 m = item rot' (broadcast_index A m @ [0, 1]) * item d0 m
                  + item rot' (broadcast_index A m @ [1, 1]) * item d1 m
                  + item rot' (broadcast_index A m @ [2, 1]) * item d2 m \<and>
        item q2 m = item rot' (broadcast_index A m @ [0, 2]) * item d0 m
                  + item rot' (broadcast_index A m @ [1, 2]) * item d1 m
                  + item rot' (broadcast_index A m @ [2, 2]) * item d2 m"
    by blast
  have ip: "invert_point f [x, y, z] extra_dims = Inr [q0, q1, q2]"
    by (simp add: invert_point_def e getitem_list_def t0 t1 t2 d0(1) d1(1) d2(1) q(1)
        del: One_nat_def)
  have v: "item ([q0, q1, q2] ! i) m =
                mvec (mtranspose (mat_at (rotation f) (leading_index L extra_dims m)))
                     (\<lambda>k. item ([x, y, z] ! k) m
                          - vec_at (translation f) (leading_index L extra_dims m) k) i"
    if m: "valid_index S m" and i: "i < 3" for m i
  proof -
    from leading_index_split[OF bs[unfolded A_def] m] obtain ex where
      P: "broadcast_index A m = leading_index L extra_dims m @ ex"
      and len: "length (leading_index L extra_dims m) = length L \<and> length ex = extra_dims"
      unfolding A_def by blast
    have R: "item rot' (broadcast_index A m @ [a, b]) =
        item (rotation f) (leading_index L extra_dims m @ [a, b])" for a b
      using ir[OF len, of a b] by (simp add: P)
    have T: "item tr' (broadcast_index A m @ [a]) =
        item (translation f) (leading_index L extra_dims m @ [a])" for a
      using it[OF len, of a] by (simp add: P)
    from i have "i = 0 \<or> i = 1 \<or> i = 2" by auto
    then show ?thesis
      using qi[OF m] d0(3)[OF m] d1(3)[OF m] d2(3)[OF m]
      by (auto simp: R T mvec_def mtranspose_def mat_at_def vec_at_def simp del: One_nat_def)
  qed
  from ip q(2,3,4) v show ?thesis by blast
qed

lemma mvec_cong3: "v 0 = w 0 \<Longrightarrow> v 1 = w 1 \<Longrightarrow> v 2 = w 2 \<Longrightarrow> mvec a v i = mvec a w i"
  by (simp add: mvec_def)

lemma mtranspose_inverse:
  assumes "orthonormal3 a" and i: "i < 3"
  shows "mvec (mtranspose a) (\<lambda>k. (mvec a v k + t k) - t k) i = v i"
proof -
  from i have "i = 0 \<or> i = 1 \<or> i = 2" by auto
  then show ?thesis
    using rot_inverse_apply[OF assms(1), of "v 0" "v 1" "v 2" "t 0" "t 1" "t 2"]
    by (auto simp: mvec_def mtranspose_def simp del: One_nat_def)
qed

text \<open>
  Claim C2. Take a frame whose rotation has shape \<open>L @ [3, 3]\<close> and is orthonormal at every
  index of \<open>L\<close> (\<open>R R\<^sup>T = I\<close>), whose translation has shape \<open>L @ [3]\<close>, and a point given
  as three arrays of one shape \<open>S\<close> into which the frame's leading shape, extended by
  \<^verbatim>\<open>extra_dims\<close> singleton axes, broadcasts. Then \<^verbatim>\<open>apply_to_point\<close> returns three arrays
  whose values at every index \<open>m\<close> are \<open>R p + t\<close>, with \<open>R\<close> and \<open>t\<close> the rotation and the
  translation of the frame at the leading index that \<open>m\<close> is paired with; \<^verbatim>\<open>invert_point\<close>
  returns on this result with the same \<^verbatim>\<open>extra_dims\<close>, its values are \<open>R\<^sup>T (p' - t)\<close> for
  the values \<open>p'\<close> it is given, and the three arrays it returns equal the point (exactly,
  as the model's arithmetic is exact).
\<close>

theorem invert_point_apply_to_point:
  "shape (rotation f) = L @ [3, 3] \<and> shape (translation f) = L @ [3] \<and>
   rotation_orthonormal (rotation f) \<and>
   shape x = S \<and> shape y = S \<and> shape z = S \<and>
   broadcast_shapes (L @ replicate extra_dims 1) S = Some S \<longrightarrow>
     (\<exists>p q. apply_to_point f [x, y, z] extra_dims = Inr p \<and> length p = 3 \<and>
            (\<forall>m i. valid_index S m \<and> i < 3 \<longrightarrow>
               item (p ! i) m =
                 mvec (mat_at (rotation f) (leading_index L extra_dims m))
                      (\<lambda>k. item ([x, y, z] ! k) m) i
                 + vec_at (translation f) (leading_index L extra_dims m) i) \<and>
            invert_point f p extra_dims = Inr q \<and> length q = 3 \<and>
            (\<forall>m i. valid_index S m \<and> i < 3 \<longrightarrow>
               item (q ! i) m =
                 mvec (mtranspose (mat_at (rotation f) (leading_index L extra_dims m)))
                      (\<lambda>k. item (p ! k) m
                           - vec_at (translation f) (leading_index L extra_dims m) k) i) \<and>
            array_equal (q ! 0) x \<and> array_equal (q ! 1) y \<and> array_equal (q ! 2) z)"
proof
  assume h: "shape (rotation f) = L @ [3, 3] \<and> shape (translation f) = L @ [3] \<and>
   rotation_orthonormal (rotation f) \<and>
   shape x = S \<and> shape y = S \<and> shape z = S \<and>
   broadcast_shapes (L @ replicate extra_dims 1) S = Some S"
  then have bs: "broadcast_shapes (L @ replicate extra_dims 1) S = Some S"
    and x: "shape x = S" "shape y = S" "shape z = S"
    and sr: "shape (rotation f) = L @ [3, 3]" and st: "shape (translation f) = L @ [3]"
    and orth: "rotation_orthonormal (rotation f)"
    by simp_all
  from apply_to_point_value[OF sr st x bs] obtain p0 p1 p2 where
    ap: "apply_to_point f [x, y, z] extra_dims = Inr [p0, p1, p2]"
    and sp: "shape p0 = S" "shape p1 = S" "shape p2 = S"
    and pv: "\<And>m i. valid_index S m \<and> i < 3 \<Longrightarrow>
              item ([p0, p1, p2] ! i) m =
                mvec (mat_at (rotation f) (leading_index L extra_dims m))
                     (\<lambda>k. item ([x, y, z] ! k) m) i
                + vec_at (translation f) (leading_index L extra_dims m) i"
    by blast
  from invert_point_value[OF sr st sp bs] obtain q0 q1 q2 where
    ip: "invert_point f [p0, p1, p2] extra_dims = Inr [q0, q1, q2]"
    and sq: "shape q0 = S" "shape q1 = S" "shape q2 = S"
    and qv: "\<And>m i. valid_index S m \<and> i < 3 \<Longrightarrow>
              item ([q0, q1, q2] ! i) m =
                mvec (mtranspose (mat_at (rotation f) (leading_index L extra_dims m)))
                     (\<lambda>k. item ([p0, p1, p2] ! k) m
                          - vec_at (translation f) (leading_index L extra_dims m) k) i"
    by blast
  have roundtrip: "item ([q0, q1, q2] ! i) m = item ([x, y, z] ! i) m"
    if m: "valid_index S m" and i: "i < 3" for m i
  proof -
    define l where "l = leading_index L extra_dims m"
    from leading_index_split[OF bs m] have vl: "valid_index L l" by (simp add: l_def)
    from rotation_orthonormalD[OF orth sr vl]
    have o: "orthonormal3 (mat_at (rotation f) l)" by (simp add: mat_at_def[abs_def])
    have "item ([q0, q1, q2] ! i) m =
        mvec (mtranspose (mat_at (rotation f) l))
          (\<lambda>k. item ([p0, p1, p2] ! k) m - vec_at (translation f) l k) i"
      using qv[of m i] m i by (simp add: l_def)
    also have "\<dots> = mvec (mtranspose (mat_at (rotation f) l))
          (\<lambda>k. (mvec (mat_at (rotation f) l) (\<lambda>k. item ([x, y, z] ! k) m) k
                 + vec_at (translation f) l k) - vec_at (translation f) l k) i"
      using pv[of m 0] pv[of m 1] pv[of m 2] m
      by (intro mvec_cong3) (simp_all add: l_def del: One_nat_def)
    also have "\<dots> = item ([x, y, z] ! i) m"
      by (rule mtranspose_inverse[OF o i])
    finally show ?thesis .
  qed
  have "array_equal q0 x \<and> array_equal q1 y \<and> array_equal q2 z"
    using roundtrip[of _ 0] roundtrip[of _ 1] roundtrip[of _ 2] sq x
    by (simp add: array_equal_iff del: One_nat_def)
  with ap ip pv qv show "\<exists>p q. apply_to_point f [x, y, z] extra_dims = Inr p \<and> length p = 3 \<and>
            (\<forall>m i. valid_index S m \<and> i < 3 \<longrightarrow>
               item (p ! i) m =
                 mvec (mat_at (rotation f) (leading_index L extra_dims m))
                      (\<lambda>k. item ([x, y, z] ! k) m) i
                 + vec_at (translation f) (leading_index L extra_dims m) i) \<and>
            invert_point f p extra_dims = Inr q \<and> length q = 3 \<and>
            (\<forall>m i. valid_index S m \<and> i < 3 \<longrightarrow>
               item (q ! i) m =
                 mvec (mtranspose (mat_at (rotation f) (leading_index L extra_dims m)))
                      (\<lambda>k. item (p ! k) m
                           - vec_at (translation f) (leading_index L extra_dims m) k) i) \<and>
            array_equal (q ! 0) x \<and> array_equal (q ! 1) y \<and> array_equal (q ! 2) z"
    by (intro exI[of _ "[p0, p1, p2]"] exI[of _ "[q0, q1, q2]"]) simp
qed

theorem invert_point_apply_to_point_witness:
  "\<exists>p q. apply_to_point
            \<lparr>quaternion = None,
             rotation = rows [rows [array1 [0, -1, 0], array1 [1, 0, 0], array1 [0, 0, 1]],
                              rows [array1 [1, 0, 0], array1 [0, 0, -1], array1 [0, 1, 0]]],
             translation = rows [array1 [1, 2, 3], array1 [10, 20, 30]]\<rparr>
            [rows [array1 [1, 4], array1 [7, 8]], rows [array1 [2, 5], array1 [9, 10]],
             rows [array1 [3, 6], array1 [11, 12]]] 1 = Inr p \<and>
         length p = 3 \<and>
         item (p ! 0) [0, 0] = -1 \<and> item (p ! 1) [0, 0] = 3 \<and> item (p ! 2) [0, 0] = 6 \<and>
         item (p ! 0) [0, 1] = -4 \<and> item (p ! 1) [0, 1] = 6 \<and> item (p ! 2) [0, 1] = 9 \<and>
         item (p ! 0) [1, 0] = 17 \<and> item (p ! 1) [1, 0] = 9 \<and> item (p ! 2) [1, 0] = 39 \<and>
         item (p ! 0) [1, 1] = 18 \<and> item (p ! 1) [1, 1] = 8 \<and> item (p ! 2) [1, 1] = 40 \<and>
         invert_point
            \<lparr>quaternion = None,
             rotation = rows [rows [array1 [0, -1, 0], array1 [1, 0, 0], array1 [0, 0, 1]],
                              rows [array1 [1, 0, 0], array1 [0, 0, -1], array1 [0, 1, 0]]],
             translation = rows [array1 [1, 2, 3], array1 [10, 20, 30]]\<rparr> p 1 = Inr q \<and>
         length q = 3 \<and> array_equal (q ! 0) (rows [array1 [1, 4], array1 [7, 8]]) \<and>
         array_equal (q ! 1) (rows [array1 [2, 5], array1 [9, 10]]) \<and>
         array_equal (q ! 2) (rows [array1 [3, 6], array1 [11, 12]])"
proof -
  let ?R = "rows [rows [array1 [0, -1, 0], array1 [1, 0, 0], array1 [0, 0, 1]],
                  rows [array1 [1, 0, 0], array1 [0, 0, -1], array1 [0, 1, 0]]]"
  let ?t = "rows [array1 [1, 2, 3], array1 [10, 20, 30]]"
  let ?f = "\<lparr>quaternion = None, rotation = ?R, translation = ?t\<rparr>"
  let ?x = "rows [array1 [1, 4], array1 [7, 8]]"
  let ?y = "rows [array1 [2, 5], array1 [9, 10]]"
  let ?z = "rows [array1 [3, 6], array1 [11, 12]]"
  have 1: "shape (rotation ?f) = [2] @ [3, 3]" by (simp add: rows_def array1_def)
  have 2: "shape (translation ?f) = [2] @ [3]" by (simp add: rows_def array1_def)
  have 3: "rotation_orthonormal (rotation ?f)"
    by (simp add: rotation_orthonormal_def orthonormal3_def rows_def array1_def upt_rec)
  have 4: "shape ?x = [2, 2]" "shape ?y = [2, 2]" "shape ?z = [2, 2]"
    by (simp_all add: rows_def array1_def)
  have 5: "broadcast_shapes ([2] @ replicate 1 1) [2, 2] = Some [2, 2]"
    by (simp add: broadcast_shapes_def)
  from 1 2 3 4 5 invert_point_apply_to_point[of ?f "[2]" ?x "[2, 2]" ?y ?z 1]
  obtain p q where
    ap: "apply_to_point ?f [?x, ?y, ?z] 1 = Inr p" "length p = 3"
    and pv: "\<And>m i. valid_index [2, 2] m \<and> i < 3 \<Longrightarrow>
               item (p ! i) m =
                 mvec (mat_at (rotation ?f) (leading_index [2] 1 m))
                      (\<lambda>k. item ([?x, ?y, ?z] ! k) m) i
                 + vec_at (translation ?f) (leading_index [2] 1 m) i"
    and ip: "invert_point ?f p 1 = Inr q" "length q = 3"
      "array_equal (q ! 0) ?x" "array_equal (q ! 1) ?y" "array_equal (q ! 2) ?z"
    by blast
  have li: "leading_index [2] (Suc 0) [a, b] = [a]" for a b
    by (simp add: leading_index_def broadcast_index_def)
  have v: "valid_index [2, 2] [0, 0]" "valid_index [2, 2] [0, 1]" "valid_index [2, 2] [1, 0]"
    "valid_index [2, 2] [1, 1]"
    by (simp_all add: valid_index_def)
  have e: "item (p ! 0) [0, 0] = -1" "item (p ! 1) [0, 0] = 3" "item (p ! 2) [0, 0] = 6"
    "item (p ! 0) [0, 1] = -4" "item (p ! 1) [0, 1] = 6" "item (p ! 2) [0, 1] = 9"
    "item (p ! 0) [1, 0] = 17" "item (p ! 1) [1, 0] = 9" "item (p ! 2) [1, 0] = 39"
    "item (p ! 0) [1, 1] = 18" "item (p ! 1) [1, 1] = 8" "item (p ! 2) [1, 1] = 40"
    using v by (simp_all add: pv li mvec_def mat_at_def vec_at_def rows_def array1_def)
  from ap ip e show ?thesis by blast
qed

lemma quat_to_rot_never: "quat_to_rot q \<noteq> Inr r"
  by (cases "quat_to_rot_tensor q") (simp_all add: quat_to_rot_def tuple_extend_def)

lemma not_Inr_is_Inl: "(\<And>y. m \<noteq> Inr y) \<Longrightarrow> \<exists>e. m = Inl e"
  by (cases m) auto

lemma QuatAffine_no_rotation: "\<exists>e. QuatAffine qo t None nz = Inl e"
proof (rule not_Inr_is_Inl)
  fix f
  show "QuatAffine qo t None nz \<noteq> Inr f"
    by (auto simp: QuatAffine_def bnd_eq_Inr quat_to_rot_never split: option.splits)
qed

lemma pre_compose_never: "\<exists>e. pre_compose f u = Inl e"
proof (rule not_Inr_is_Inl)
  fix g
  show "pre_compose f u \<noteq> Inr g"
  proof
    assume "pre_compose f u = Inr g"
    then obtain nq nt where "QuatAffine (Some nq) nt None True = Inr g"
      unfolding pre_compose_def bnd_eq_Inr by auto
    with QuatAffine_no_rotation[of "Some nq" nt True] show False by auto
  qed
qed

lemma getitem_last_slice_value:
  assumes "shape a = A @ [d]" "lo \<le> hi" "hi \<le> d"
  shows "\<exists>r. getitem_last_slice a lo hi = Inr r \<and> shape r = A @ [hi - lo] \<and>
     (\<forall>m j. item r (m @ [j]) = item a (m @ [j + lo]))"
  using assms by (simp add: getitem_last_slice_def butlast_append min_def)

lemma np_stack3_last:
  assumes "shape a = A" "shape b = A" "shape c = A"
  shows "\<exists>r. np_stack [a, b, c] (-1) = Inr r \<and> shape r = A @ [3] \<and>
     (\<forall>m. length m = length A \<longrightarrow>
        item r (m @ [0]) = item a m \<and> item r (m @ [1]) = item b m \<and> item r (m @ [2]) = item c m)"
  using assms by (simp add: np_stack_def nth_append)

lemma pre_compose_args_value:
  assumes q: "quaternion f = Some q" "shape q = L @ [4]"
    and r: "shape (rotation f) = L @ [3, 3]" and t: "shape (translation f) = L @ [3]"
    and u: "shape u = L @ [6]"
  shows "\<exists>nq nt. pre_compose_args f u = Inr (nq, nt) \<and> shape nq = L @ [4] \<and> shape nt = L @ [3] \<and>
    (\<forall>l. valid_index L l \<longrightarrow>
       quat_at nq l = (case hamilton (quat_at q l)
            (0, item u (l @ [0]), item u (l @ [1]), item u (l @ [2])) of
          (a, b, c, d) \<Rightarrow> (item q (l @ [0]) + a, item q (l @ [1]) + b,
                            item q (l @ [2]) + c, item q (l @ [3]) + d)) \<and>
       (\<forall>i < 3. item nt (l @ [i]) = item (translation f) (l @ [i])
            + (item (rotation f) (l @ [i, 0]) * item u (l @ [3])
             + item (rotation f) (l @ [i, 1]) * item u (l @ [4])
             + item (rotation f) (l @ [i, 2]) * item u (l @ [5]))))"
proof -
  from getitem_last_slice_value[OF u, of 0 3] obtain v where
    v: "getitem_last_slice u 0 3 = Inr v" "shape v = L @ [3]"
       "\<And>m j. item v (m @ [j]) = item u (m @ [j])"
    by auto
  from getitem_last_value[OF u, of 3] obtain u3 where
    u3: "getitem_last u 3 = Inr u3" "shape u3 = L" "\<And>m. item u3 m = item u (m @ [3])" by auto
  from getitem_last_value[OF u, of 4] obtain u4 where
    u4: "getitem_last u 4 = Inr u4" "shape u4 = L" "\<And>m. item u4 m = item u (m @ [4])" by auto
  from getitem_last_value[OF u, of 5] obtain u5 where
    u5: "getitem_last u 5 = Inr u5" "shape u5 = L" "\<And>m. item u5 m = item u (m @ [5])" by auto
  from quat_multiply_by_vec_product[OF q(2) v(2)] obtain qv where
    qv: "quat_multiply_by_vec q v = Inr qv" "shape qv = L @ [4]"
      "\<And>l. valid_index L l \<Longrightarrow> quat_at qv l = hamilton (quat_at q l) (pure_quat_at v l)"
    by auto
  have pv: "pure_quat_at v l = (0, item u (l @ [0]), item u (l @ [1]), item u (l @ [2]))" for l
    by (simp add: pure_quat_at_def v(3))
  from binop_same[of q qv "(+)"] q(2) qv(2) obtain nq where
    nq: "np_add q qv = Inr nq" "shape nq = L @ [4]"
      "\<And>m. valid_index (L @ [4]) m \<Longrightarrow> item nq m = item q m + item qv m"
    by (auto simp: np_add_def)
  have bsL: "broadcast_shapes L L = Some L" by simp
  from apply_rot_to_vec_frame[OF r u3(2) u4(2) u5(2) bsL] obtain r0 r1 r2 where
    rr: "apply_rot_to_vec (rotation f) [u3, u4, u5] = Inr [r0, r1, r2]"
      "shape r0 = L" "shape r1 = L" "shape r2 = L"
    and ri: "\<And>m. valid_index L m \<Longrightarrow>
        item r0 m = item (rotation f) (broadcast_index L m @ [0, 0]) * item u3 m
                  + item (rotation f) (broadcast_index L m @ [0, 1]) * item u4 m
                  + item (rotation f) (broadcast_index L m @ [0, 2]) * item u5 m \<and>
        item r1 m = item (rotation f) (broadcast_index L m @ [1, 0]) * item u3 m
                  + item (rotation f) (broadcast_index L m @ [1, 1]) * item u4 m
                  + item (rotation f) (broadcast_index L m @ [1, 2]) * item u5 m \<and>
        item r2 m = item (rotation f) (broadcast_index L m @ [2, 0]) * item u3 m
                  + item (rotation f) (broadcast_index L m @ [2, 1]) * item u4 m
                  + item (rotation f) (broadcast_index L m @ [2, 2]) * item u5 m"
    by blast
  from np_stack3_last[OF rr(2,3,4)] obtain ts where
    ts: "np_stack [r0, r1, r2] (-1) = Inr ts" "shape ts = L @ [3]"
      "\<And>m. length m = length L \<Longrightarrow>
        item ts (m @ [0]) = item r0 m \<and> item ts (m @ [1]) = item r1 m \<and> item ts (m @ [2]) = item r2 m"
    by blast
  from binop_same[of "translation f" ts "(+)"] t ts(2) obtain nt where
    nt: "np_add (translation f) ts = Inr nt" "shape nt = L @ [3]"
      "\<And>m. valid_index (L @ [3]) m \<Longrightarrow> item nt m = item (translation f) m + item ts m"
    by (auto simp: np_add_def)
  have 1: "pre_compose_args f u = Inr (nq, nt)"
    by (simp add: pre_compose_args_def v(1) u3(1) u4(1) u5(1) q(1) qv(1) nq(1) rr(1) ts(1) nt(1))
  have 2: "quat_at nq l = (case hamilton (quat_at q l)
            (0, item u (l @ [0]), item u (l @ [1]), item u (l @ [2])) of
          (a, b, c, d) \<Rightarrow> (item q (l @ [0]) + a, item q (l @ [1]) + b,
                            item q (l @ [2]) + c, item q (l @ [3]) + d))"
    if l: "valid_index L l" for l
  proof -
    have len: "length l = length L" using l by (simp add: valid_index_length)
    have vk: "valid_index (L @ [4]) (l @ [k])" if "k < 4" for k
      using l that len by (simp add: valid_index_append) (simp add: valid_index_def)
    from qv(3)[OF l] have h: "hamilton (quat_at q l)
            (0, item u (l @ [0]), item u (l @ [1]), item u (l @ [2])) = quat_at qv l"
      by (simp add: pv)
    show ?thesis
      unfolding h by (simp add: quat_at_def nq(3)[OF vk])
  qed
  have 3: "item nt (l @ [i]) = item (translation f) (l @ [i])
            + (item (rotation f) (l @ [i, 0]) * item u (l @ [3])
             + item (rotation f) (l @ [i, 1]) * item u (l @ [4])
             + item (rotation f) (l @ [i, 2]) * item u (l @ [5]))"
    if l: "valid_index L l" and i: "i < 3" for l i
  proof -
    have len: "length l = length L" using l by (simp add: valid_index_length)
    have vk: "valid_index (L @ [3]) (l @ [i])"
      using l i len by (simp add: valid_index_append) (simp add: valid_index_def)
    from i consider "i = 0" | "i = 1" | "i = 2" by linarith
    then show ?thesis
    proof cases
      case 1
      with nt(3)[OF vk] ts(3)[OF len] ri[OF l] show ?thesis
        by (simp add: broadcast_index_valid[OF l] u3(3) u4(3) u5(3) del: One_nat_def)
    next
      case 2
      with nt(3)[OF vk] ts(3)[OF len] ri[OF l] show ?thesis
        by (simp add: broadcast_index_valid[OF l] u3(3) u4(3) u5(3) del: One_nat_def)
    next
      case 3
      with nt(3)[OF vk] ts(3)[OF len] ri[OF l] show ?thesis
        by (simp add: broadcast_index_valid[OF l] u3(3) u4(3) u5(3) del: One_nat_def)
    qed
  qed
  from 1 2 3 nq(2) nt(2) show ?thesis by blast
qed

lemma valid_index_snoc:
  "valid_index (L @ [d]) m \<longleftrightarrow> (\<exists>l k. m = l @ [k] \<and> valid_index L l \<and> k < d)"
proof
  assume v: "valid_index (L @ [d]) m"
  then have len: "length m = Suc (length L)" by (simp add: valid_index_length)
  then have m: "m = butlast m @ [last m]" by (cases m rule: rev_cases) auto
  from len have "length (butlast m) = length L" by simp
  with v m have "valid_index L (butlast m) \<and> last m < d"
    by (metis list_all2_Cons list_all2_Nil valid_index_append valid_index_def)
  with m show "\<exists>l k. m = l @ [k] \<and> valid_index L l \<and> k < d" by blast
next
  assume "\<exists>l k. m = l @ [k] \<and> valid_index L l \<and> k < d"
  then show "valid_index (L @ [d]) m"
    by (auto simp: valid_index_def list_all2_appendI)
qed

lemma pre_compose_args_zero:
  assumes q: "quaternion f = Some q" "shape q = L @ [4]"
    and r: "shape (rotation f) = L @ [3, 3]" and t: "shape (translation f) = L @ [3]"
    and u: "shape u = L @ [6]" and z: "\<And>m. item u m = 0"
  shows "\<exists>nq nt. pre_compose_args f u = Inr (nq, nt) \<and>
           array_equal nq q \<and> array_equal nt (translation f)"
proof -
  from pre_compose_args_value[OF q r t u] obtain nq nt where
    a: "pre_compose_args f u = Inr (nq, nt)" "shape nq = L @ [4]" "shape nt = L @ [3]"
    and nq: "\<And>l. valid_index L l \<Longrightarrow>
       quat_at nq l = (case hamilton (quat_at q l)
            (0, item u (l @ [0]), item u (l @ [1]), item u (l @ [2])) of
          (a, b, c, d) \<Rightarrow> (item q (l @ [0]) + a, item q (l @ [1]) + b,
                            item q (l @ [2]) + c, item q (l @ [3]) + d))"
    and nt: "\<And>l i. valid_index L l \<Longrightarrow> i < 3 \<Longrightarrow>
       item nt (l @ [i]) = item (translation f) (l @ [i])
            + (item (rotation f) (l @ [i, 0]) * item u (l @ [3])
             + item (rotation f) (l @ [i, 1]) * item u (l @ [4])
             + item (rotation f) (l @ [i, 2]) * item u (l @ [5]))"
    by blast
  have 1: "item nq m = item q m" if "valid_index (L @ [4]) m" for m
  proof -
    from that obtain l k where m: "m = l @ [k]" "valid_index L l" "k < 4"
      by (auto simp: valid_index_snoc)
    from nq[OF m(2)] have e: "quat_at nq l = quat_at q l"
      by (simp add: hamilton_def quat_at_def z)
    from m(3) consider "k = 0" | "k = 1" | "k = 2" | "k = 3" by linarith
    then show ?thesis
      using e by cases (simp_all add: quat_at_def m(1))
  qed
  have 2: "item nt m = item (translation f) m" if "valid_index (L @ [3]) m" for m
  proof -
    from that obtain l k where m: "m = l @ [k]" "valid_index L l" "k < 3"
      by (auto simp: valid_index_snoc)
    from nt[OF m(2,3)] show ?thesis by (simp add: z m(1))
  qed
  from a 1 2 q(2) t show ?thesis
    by (simp add: array_equal_iff)
qed

lemma pre_compose_fails:
  assumes q: "quaternion f = Some q" "shape q = L @ [4]"
    and r: "shape (rotation f) = L @ [3, 3]" and t: "shape (translation f) = L @ [3]"
    and u: "shape u = L @ [6]"
  shows "pre_compose f u = Inl AttributeError"
proof -
  from pre_compose_args_value[OF q r t u] obtain nq nt where
    a: "pre_compose_args f u = Inr (nq, nt)" "shape nq = L @ [4]" "shape nt = L @ [3]"
    by blast
  from a(2) have ne: "shape nq \<noteq> []" by simp
  from normalize_ok[OF ne] obtain q' where
    q': "bnd (linalg_norm nq (-1)) (\<lambda>q_length.
                   bnd (np_div nq (getitem_newaxis q_length)) (\<lambda>q'. Inr (Some q'))) = Inr (Some q')"
      "shape q' = shape nq"
    by blast
  from q'(2) a(2) have "quat_to_rot q' = Inl AttributeError"
    by (simp add: quat_to_rot_fails)
  then show ?thesis
    by (simp add: pre_compose_def a(1) QuatAffine_def assert_last_dim_def a(2) q'(1))
qed

text \<open>
  Claim C5 says that \<^verbatim>\<open>pre_compose\<close> with the zero update returns the renormalized frame.
  \<^verbatim>\<open>pre_compose\<close> never returns: its last statement constructs a frame without a rotation,
  so the constructor calls \<^verbatim>\<open>quat_to_rot\<close>, which raises. On a frame with a quaternion and
  an update of matching shapes the exception is the \<^verbatim>\<open>AttributeError\<close> of
  \<^verbatim>\<open>t_shape.extend\<close>. (Up to that call the zero update does leave quaternion and
  translation unchanged: \<open>pre_compose_args_zero\<close>.)
\<close>

theorem pre_compose_raises:
  "(\<exists>e. pre_compose f u = Inl e) \<and>
   (quaternion f = Some q \<and> shape q = L @ [4] \<and> shape (rotation f) = L @ [3, 3] \<and>
    shape (translation f) = L @ [3] \<and> shape u = L @ [6] \<longrightarrow>
      pre_compose f u = Inl AttributeError)"
  using pre_compose_never[of f u] pre_compose_fails[of f q L u] by blast

theorem pre_compose_raises_witness:
  "pre_compose \<lparr>quaternion = Some (array1 [1, 0, 0, 0]), rotation = eye3,
      translation = array1 [1, 2, 3]\<rparr> (array1 [0, 0, 0, 0, 0, 0]) = Inl AttributeError"
proof -
  let ?f = "\<lparr>quaternion = Some (array1 [1, 0, 0, 0]), rotation = eye3,
      translation = array1 [1, 2, 3]\<rparr>"
  have "quaternion ?f = Some (array1 [1, 0, 0, 0]) \<and> shape (array1 [1, 0, 0, 0]) = [] @ [4] \<and>
    shape (rotation ?f) = [] @ [3, 3] \<and> shape (translation ?f) = [] @ [3] \<and>
    shape (array1 [0, 0, 0, 0, 0, 0]) = [] @ [6]"
    by (simp add: array1_def eye3_def rows_def)
  with pre_compose_raises[of ?f "array1 [0, 0, 0, 0, 0, 0]" "array1 [1, 0, 0, 0]" "[]"]
  show ?thesis by blast
qed


section \<open>The array operations, read pointwise\<close>

lemma lt3: "k < 3 \<longleftrightarrow> k = 0 \<or> k = 1 \<or> k = (2::nat)" by auto

lemma pointwise_iff:
  "pointwise S a g \<longleftrightarrow> shape a = S \<and> (\<forall>l. valid_index S l \<longrightarrow> item a l = g l)"
  by (auto simp: pointwise_def list_all_iff set_indices)

lemma pointwise_vec_iff:
  "pointwise_vec S a v \<longleftrightarrow>
     shape a = S @ [3] \<and> (\<forall>l k. valid_index S l \<and> k < 3 \<longrightarrow> item a (l @ [k]) = v l k)"
  by (auto simp: pointwise_vec_def list_all_iff set_indices lt3)

lemma pointwise_mat_iff:
  "pointwise_mat S a m \<longleftrightarrow>
     shape a = S @ [3, 3] \<and>
     (\<forall>l i j. valid_index S l \<and> i < 3 \<and> j < 3 \<longrightarrow> item a (l @ [i, j]) = m l i j)"
  by (auto simp: pointwise_mat_def list_all_iff set_indices lt3)

lemma pointwise_cong:
  "pointwise S a g \<Longrightarrow> (\<And>l. valid_index S l \<Longrightarrow> g l = h l) \<Longrightarrow> pointwise S a h"
  by (simp add: pointwise_iff)

lemma pointwise_vec_cong:
  "pointwise_vec S a v \<Longrightarrow> (\<And>l k. valid_index S l \<Longrightarrow> k < 3 \<Longrightarrow> v l k = w l k) \<Longrightarrow>
   pointwise_vec S a w"
  by (simp add: pointwise_vec_iff)

lemma pointwise_mat_cong:
  "pointwise_mat S a m \<Longrightarrow>
   (\<And>l i j. valid_index S l \<Longrightarrow> i < 3 \<Longrightarrow> j < 3 \<Longrightarrow> m l i j = m' l i j) \<Longrightarrow>
   pointwise_mat S a m'"
  by (simp add: pointwise_mat_iff)

lemma pointwise_vec_at: "shape a = S @ [3] \<Longrightarrow> pointwise_vec S a (vec_at a)"
  by (simp add: pointwise_vec_iff vec_at_def)

lemma pw_binop:
  assumes "pointwise S a g" "pointwise S b h"
  shows "\<exists>r. binop f a b = Inr r \<and> pointwise S r (\<lambda>l. f (g l) (h l))"
  using assms binop_same[of a b f] by (auto simp: pointwise_iff)

lemma pw_binop_scalar:
  assumes "pointwise S a g"
  shows "\<exists>r. binop f a (scalar c) = Inr r \<and> pointwise S r (\<lambda>l. f (g l) c)"
proof -
  from assms have "broadcast_shapes (shape (scalar c)) (shape a) = Some (shape a)"
    by (simp add: scalar_def)
  from binop_frame_right[OF this, of f] assms show ?thesis
    by (auto simp: pointwise_iff scalar_def)
qed

lemma pw_scalar_binop:
  assumes "pointwise S a g"
  shows "\<exists>r. binop f (scalar c) a = Inr r \<and> pointwise S r (\<lambda>l. f c (g l))"
proof -
  from assms have "broadcast_shapes (shape (scalar c)) (shape a) = Some (shape a)"
    by (simp add: scalar_def)
  from binop_frame_left[OF this, of f] assms show ?thesis
    by (auto simp: pointwise_iff scalar_def)
qed

lemma pw_unop: "pointwise S a g \<Longrightarrow> pointwise S (unop f a) (\<lambda>l. f (g l))"
  by (simp add: pointwise_iff unop_def)

lemma valid_index_snoc_iff:
  "length l = length S \<Longrightarrow> valid_index (S @ [d]) (l @ [k]) \<longleftrightarrow> valid_index S l \<and> k < d"
  by (simp add: valid_index_append) (simp add: valid_index_def)

lemma valid_index_snoc2_iff:
  "length l = length S \<Longrightarrow>
     valid_index (S @ [c, d]) (l @ [i, j]) \<longleftrightarrow> valid_index S l \<and> i < c \<and> j < d"
  by (simp add: valid_index_append) (simp add: valid_index_def)

lemma pw_vec_binop:
  assumes "pointwise_vec S a v" "pointwise_vec S b w"
  shows "\<exists>r. binop f a b = Inr r \<and> pointwise_vec S r (\<lambda>l k. f (v l k) (w l k))"
proof -
  from assms have s: "shape a = shape b" by (simp add: pointwise_vec_iff)
  from binop_same[OF s, of f] obtain r where
    r: "binop f a b = Inr r" "shape r = shape a"
      "\<And>i. valid_index (shape a) i \<Longrightarrow> item r i = f (item a i) (item b i)"
    by blast
  have "item r (l @ [k]) = f (v l k) (w l k)" if "valid_index S l" "k < 3" for l k
  proof -
    from that assms(1) have "valid_index (shape a) (l @ [k])"
      by (simp add: pointwise_vec_iff valid_index_snoc_iff valid_index_length)
    from r(3)[OF this] that assms show ?thesis by (simp add: pointwise_vec_iff)
  qed
  with r(1,2) assms(1) show ?thesis by (auto simp: pointwise_vec_iff)
qed

lemma pw_vec_unop:
  "pointwise_vec S a v \<Longrightarrow> pointwise_vec S (unop f a) (\<lambda>l k. f (v l k))"
  by (simp add: pointwise_vec_iff unop_def)

lemma pw_vec_getitem:
  assumes "pointwise_vec S a v" "k < 3"
  shows "\<exists>r. getitem_last a k = Inr r \<and> pointwise S r (\<lambda>l. v l k)"
proof -
  from assms(1) have s: "shape a = S @ [3]" by (simp add: pointwise_vec_iff)
  from getitem_last_value[OF s assms(2)] assms show ?thesis
    by (auto simp: pointwise_iff pointwise_vec_iff)
qed

lemma pw_mat_getitem:
  assumes "pointwise_mat S a m" "i < 3" "j < 3"
  shows "\<exists>r. getitem_last2 a i j = Inr r \<and> pointwise S r (\<lambda>l. m l i j)"
proof -
  from assms(1) have s: "shape a = S @ [3, 3]" by (simp add: pointwise_mat_iff)
  from getitem_last2_value[OF s assms(2,3)] assms show ?thesis
    by (auto simp: pointwise_iff pointwise_mat_iff)
qed

lemma pw_vec_sum:
  assumes "pointwise_vec S a v"
  shows "\<exists>r. np_sum a (-1) = Inr r \<and> pointwise S r (\<lambda>l. v l 0 + (v l 1 + v l 2))"
proof -
  from assms have s: "shape a = S @ [3]" by (simp add: pointwise_vec_iff)
  have "pointwise S (sum_axis a (length S)) (\<lambda>l. v l 0 + (v l 1 + v l 2))"
    using assms
    by (auto simp: pointwise_iff pointwise_vec_iff sum_axis_def upt_3 valid_index_length)
  then show ?thesis by (simp add: np_sum_def s)
qed

lemma pw_lin3:
  assumes "pointwise S a ga" "pointwise S b gb" "pointwise S c gc"
    "pointwise S x gx" "pointwise S y gy" "pointwise S z gz"
  shows "\<exists>r. lin3 a b c x y z = Inr r \<and>
     pointwise S r (\<lambda>l. ga l * gx l + gb l * gy l + gc l * gz l)"
proof -
  from assms have sh: "shape a = S" "shape b = S" "shape c = S"
      "shape x = S" "shape y = S" "shape z = S"
    by (simp_all add: pointwise_iff)
  have bs: "broadcast_shapes S S = Some S" by simp
  from lin3_frame[OF sh bs] obtain r where
    r: "lin3 a b c x y z = Inr r" "shape r = S"
      "\<And>i. valid_index S i \<Longrightarrow>
        item r i = item a (broadcast_index S i) * item x i
                 + item b (broadcast_index S i) * item y i
                 + item c (broadcast_index S i) * item z i"
    by blast
  from r assms show ?thesis
    by (auto simp: pointwise_iff broadcast_index_valid)
qed

lemma pw_stack3:
  assumes "pointwise S a ga" "pointwise S b gb" "pointwise S c gc"
  shows "\<exists>r. np_stack [a, b, c] (-1) = Inr r \<and>
     pointwise_vec S r (\<lambda>l k. [ga l, gb l, gc l] ! k)"
proof -
  from assms have sh: "shape a = S" "shape b = S" "shape c = S" by (simp_all add: pointwise_iff)
  from np_stack3_last[OF sh] obtain r where
    r: "np_stack [a, b, c] (-1) = Inr r" "shape r = S @ [3]"
     "\<And>m. length m = length S \<Longrightarrow>
        item r (m @ [0]) = item a m \<and> item r (m @ [1]) = item b m \<and> item r (m @ [2]) = item c m"
    by blast
  have "item r (l @ [k]) = [ga l, gb l, gc l] ! k" if "valid_index S l" "k < 3" for l k
    using that r(3)[of l] assms
    by (auto simp: pointwise_iff valid_index_length lt3)
  with r(1,2) show ?thesis by (auto simp: pointwise_vec_iff)
qed

lemma ravel_index_snoc:
  "length l = length S \<Longrightarrow> ravel_index (S @ [d]) (l @ [k]) = ravel_index S l * d + k"
  by (simp add: ravel_index_def)

lemma unravel_index_snoc:
  "unravel_index (S @ [d]) n = unravel_index S (n div d) @ [n mod d]"
  by (simp add: unravel_index_def)

lemma unravel_ravel:
  "valid_index S l \<Longrightarrow> unravel_index S (ravel_index S l) = l"
proof (induction S arbitrary: l rule: rev_induct)
  case Nil
  then show ?case by (simp add: unravel_index_def)
next
  case (snoc d S)
  from snoc.prems obtain l' k where l: "l = l' @ [k]" "valid_index S l'" "k < d"
    by (auto simp: valid_index_snoc)
  then have len: "length l' = length S" by (simp add: valid_index_length)
  show ?case
    using l snoc.IH[OF l(2)] by (simp add: ravel_index_snoc[OF len] unravel_index_snoc)
qed

lemma reshape_3x3_index:
  assumes "valid_index S l" "i < 3" "j < 3"
  shows "unravel_index (S @ [9]) (ravel_index (S @ [3, 3]) (l @ [i, j])) = l @ [3 * i + j]"
proof -
  have len: "length l = length S" using assms(1) by (simp add: valid_index_length)
  have "ravel_index (S @ [3, 3]) (l @ [i, j]) = ravel_index ((S @ [3]) @ [3]) ((l @ [i]) @ [j])"
    by simp
  also have "\<dots> = (ravel_index S l * 3 + i) * 3 + j"
    using len by (simp only: ravel_index_snoc length_append list.size)
  also have "\<dots> = ravel_index S l * 9 + (3 * i + j)" by simp
  finally have r: "ravel_index (S @ [3, 3]) (l @ [i, j]) = ravel_index S l * 9 + (3 * i + j)" .
  from assms(2,3) have b: "3 * i + j < 9" by simp
  show ?thesis
    using b by (simp add: r unravel_index_snoc unravel_ravel[OF assms(1)])
qed

lemma pw_stack_matrix:
  assumes "list_all2 (pointwise S) es gs" "length es = 9"
  shows "\<exists>r. stack_matrix es S = Inr r \<and>
     pointwise_mat S r (\<lambda>l. matrix_of (map (\<lambda>g. g l) gs))"
proof -
  from assms have ne: "es \<noteq> []" by auto
  from assms(1) have sh: "\<And>a. a \<in> set es \<Longrightarrow> shape a = S"
    by (auto simp: list_all2_conv_all_nth in_set_conv_nth pointwise_iff)
  with ne have hd: "shape (hd es) = S" by simp
  define m where "m = \<lparr>shape = S @ [9],
      item = (\<lambda>i. item (es ! (i ! length S)) (take (length S) i @ drop (Suc (length S)) i))\<rparr>"
  have st: "np_stack es (-1) = Inr m"
    using ne sh hd assms(2) by (simp add: np_stack_def list_all_iff m_def)
  define r where "r = \<lparr>shape = S @ [3, 3],
      item = (\<lambda>i. item m (unravel_index (S @ [9]) (ravel_index (S @ [3, 3]) i)))\<rparr>"
  have rs: "reshape m (S @ [3, 3]) = Inr r"
    by (simp add: reshape_def m_def r_def)
  have "item r (l @ [i, j]) = matrix_of (map (\<lambda>g. g l) gs) i j"
    if l: "valid_index S l" and i: "i < 3" and j: "j < 3" for l i j
  proof -
    have len: "length l = length S" using l by (simp add: valid_index_length)
    from i j have b: "3 * i + j < 9" by simp
    with assms have "pointwise S (es ! (3 * i + j)) (gs ! (3 * i + j))"
      by (simp add: list_all2_conv_all_nth)
    with l have "item (es ! (3 * i + j)) l = (gs ! (3 * i + j)) l"
      by (simp add: pointwise_iff)
    moreover from assms b have "length gs = 9" by (simp add: list_all2_lengthD[symmetric])
    ultimately show ?thesis
      using b by (simp add: r_def reshape_3x3_index[OF l i j] m_def len matrix_of_def nth_append)
  qed
  then have "pointwise_mat S r (\<lambda>l. matrix_of (map (\<lambda>g. g l) gs))"
    by (simp add: pointwise_mat_iff r_def)
  with st rs show ?thesis by (simp add: stack_matrix_def)
qed

lemma pw_stack_rows:
  assumes "pointwise_vec S a va" "pointwise_vec S b vb" "pointwise_vec S c vc"
  shows "\<exists>r. np_stack [a, b, c] (-2) = Inr r \<and>
     pointwise_mat S r (\<lambda>l i j. [va l j, vb l j, vc l j] ! i)"
proof -
  from assms have sh: "shape a = S @ [3]" "shape b = S @ [3]" "shape c = S @ [3]"
    by (simp_all add: pointwise_vec_iff)
  define r where "r = \<lparr>shape = S @ [3, 3],
      item = (\<lambda>i. item ([a, b, c] ! (i ! length S)) (take (length S) i @ drop (Suc (length S)) i))\<rparr>"
  have st: "np_stack [a, b, c] (-2) = Inr r"
    using sh by (simp add: np_stack_def r_def)
  have "item r (l @ [i, j]) = [va l j, vb l j, vc l j] ! i"
    if l: "valid_index S l" and i: "i < 3" and j: "j < 3" for l i j
  proof -
    have len: "length l = length S" using l by (simp add: valid_index_length)
    from i consider "i = 0" | "i = 1" | "i = 2" by linarith
    then show ?thesis
      using assms l j by cases (simp_all add: r_def len pointwise_vec_iff nth_append)
  qed
  then have "pointwise_mat S r (\<lambda>l i j. [va l j, vb l j, vc l j] ! i)"
    by (simp add: pointwise_mat_iff r_def)
  with st show ?thesis by simp
qed

lemma pw_multiply_row:
  assumes a: "pointwise S x0 (\<lambda>l. A l i 0)" "pointwise S x1 (\<lambda>l. A l i 1)"
      "pointwise S x2 (\<lambda>l. A l i 2)"
    and b: "pointwise S b1 (\<lambda>l. B l 0 0)" "pointwise S b2 (\<lambda>l. B l 1 0)"
      "pointwise S b12 (\<lambda>l. B l 2 0)" "pointwise S b3 (\<lambda>l. B l 0 1)"
      "pointwise S b11 (\<lambda>l. B l 1 1)" "pointwise S b22 (\<lambda>l. B l 2 1)"
      "pointwise S b13 (\<lambda>l. B l 0 2)" "pointwise S b21 (\<lambda>l. B l 1 2)"
      "pointwise S b23 (\<lambda>l. B l 2 2)"
  shows "\<exists>c0 c1 c2 row. pointwise_vec S row (\<lambda>l j. mmul (A l) (B l) i j) \<and>
     lin3 x0 x1 x2 b1 b2 b12 = Inr c0 \<and> lin3 x0 x1 x2 b3 b11 b22 = Inr c1 \<and>
     lin3 x0 x1 x2 b13 b21 b23 = Inr c2 \<and> np_stack [c0, c1, c2] (-1) = Inr row"
proof -
  from pw_lin3[OF a b(1,2,3)] obtain c0 where
    c0: "lin3 x0 x1 x2 b1 b2 b12 = Inr c0"
      "pointwise S c0 (\<lambda>l. A l i 0 * B l 0 0 + A l i 1 * B l 1 0 + A l i 2 * B l 2 0)"
    by blast
  from pw_lin3[OF a b(4,5,6)] obtain c1 where
    c1: "lin3 x0 x1 x2 b3 b11 b22 = Inr c1"
      "pointwise S c1 (\<lambda>l. A l i 0 * B l 0 1 + A l i 1 * B l 1 1 + A l i 2 * B l 2 1)"
    by blast
  from pw_lin3[OF a b(7,8,9)] obtain c2 where
    c2: "lin3 x0 x1 x2 b13 b21 b23 = Inr c2"
      "pointwise S c2 (\<lambda>l. A l i 0 * B l 0 2 + A l i 1 * B l 1 2 + A l i 2 * B l 2 2)"
    by blast
  from pw_stack3[OF c0(2) c1(2) c2(2)] obtain row where
    row: "np_stack [c0, c1, c2] (-1) = Inr row"
      "pointwise_vec S row (\<lambda>l k.
         [A l i 0 * B l 0 0 + A l i 1 * B l 1 0 + A l i 2 * B l 2 0,
          A l i 0 * B l 0 1 + A l i 1 * B l 1 1 + A l i 2 * B l 2 1,
          A l i 0 * B l 0 2 + A l i 1 * B l 1 2 + A l i 2 * B l 2 2] ! k)"
    by blast
  have "pointwise_vec S row (\<lambda>l j. mmul (A l) (B l) i j)"
    by (rule pointwise_vec_cong[OF row(2)]) (auto simp: mmul_def lt3)
  with c0(1) c1(1) c2(1) row(1) show ?thesis by blast
qed

lemma pw_multiply:
  assumes a: "pointwise_mat S a A" and b: "pointwise_mat S b B"
  shows "\<exists>r. multiply a b = Inr r \<and> pointwise_mat S r (\<lambda>l. mmul (A l) (B l))"
proof -
  from pw_mat_getitem[OF a, of 0 0] obtain a1 where
    a1: "getitem_last2 a 0 0 = Inr a1" "pointwise S a1 (\<lambda>l. A l 0 0)" by auto
  from pw_mat_getitem[OF a, of 0 1] obtain a2 where
    a2: "getitem_last2 a 0 1 = Inr a2" "pointwise S a2 (\<lambda>l. A l 0 1)" by auto
  from pw_mat_getitem[OF a, of 0 2] obtain a3 where
    a3: "getitem_last2 a 0 2 = Inr a3" "pointwise S a3 (\<lambda>l. A l 0 2)" by auto
  from pw_mat_getitem[OF a, of 1 0] obtain a11 where
    a11: "getitem_last2 a 1 0 = Inr a11" "pointwise S a11 (\<lambda>l. A l 1 0)" by auto
  from pw_mat_getitem[OF a, of 1 1] obtain a12 where
    a12: "getitem_last2 a 1 1 = Inr a12" "pointwise S a12 (\<lambda>l. A l 1 1)" by auto
  from pw_mat_getitem[OF a, of 1 2] obtain a13 where
    a13: "getitem_last2 a 1 2 = Inr a13" "pointwise S a13 (\<lambda>l. A l 1 2)" by auto
  from pw_mat_getitem[OF a, of 2 0] obtain a21 where
    a21: "getitem_last2 a 2 0 = Inr a21" "pointwise S a21 (\<lambda>l. A l 2 0)" by auto
  from pw_mat_getitem[OF a, of 2 1] obtain a22 where
    a22: "getitem_last2 a 2 1 = Inr a22" "pointwise S a22 (\<lambda>l. A l 2 1)" by auto
  from pw_mat_getitem[OF a, of 2 2] obtain a23 where
    a23: "getitem_last2 a 2 2 = Inr a23" "pointwise S a23 (\<lambda>l. A l 2 2)" by auto
  from pw_mat_getitem[OF b, of 0 0] obtain b1 where
    b1: "getitem_last2 b 0 0 = Inr b1" "pointwise S b1 (\<lambda>l. B l 0 0)" by auto
  from pw_mat_getitem[OF b, of 1 0] obtain b2 where
    b2: "getitem_last2 b 1 0 = Inr b2" "pointwise S b2 (\<lambda>l. B l 1 0)" by auto
  from pw_mat_getitem[OF b, of 0 1] obtain b3 where
    b3: "getitem_last2 b 0 1 = Inr b3" "pointwise S b3 (\<lambda>l. B l 0 1)" by auto
  from pw_mat_getitem[OF b, of 1 1] obtain b11 where
    b11: "getitem_last2 b 1 1 = Inr b11" "pointwise S b11 (\<lambda>l. B l 1 1)" by auto
  from pw_mat_getitem[OF b, of 2 0] obtain b12 where
    b12: "getitem_last2 b 2 0 = Inr b12" "pointwise S b12 (\<lambda>l. B l 2 0)" by auto
  from pw_mat_getitem[OF b, of 0 2] obtain b13 where
    b13: "getitem_last2 b 0 2 = Inr b13" "pointwise S b13 (\<lambda>l. B l 0 2)" by auto
  from pw_mat_getitem[OF b, of 1 2] obtain b21 where
    b21: "getitem_last2 b 1 2 = Inr b21" "pointwise S b21 (\<lambda>l. B l 1 2)" by auto
  from pw_mat_getitem[OF b, of 2 1] obtain b22 where
    b22: "getitem_last2 b 2 1 = Inr b22" "pointwise S b22 (\<lambda>l. B l 2 1)" by auto
  from pw_mat_getitem[OF b, of 2 2] obtain b23 where
    b23: "getitem_last2 b 2 2 = Inr b23" "pointwise S b23 (\<lambda>l. B l 2 2)" by auto
  from pw_multiply_row[where A = A and B = B and i = 0, OF a1(2) a2(2) a3(2) b1(2) b2(2) b12(2) b3(2) b11(2) b22(2) b13(2) b21(2) b23(2)] obtain c00 c01 c02 row0 where
    row0: "pointwise_vec S row0 (\<lambda>l j. mmul (A l) (B l) 0 j)"
      "lin3 a1 a2 a3 b1 b2 b12 = Inr c00" "lin3 a1 a2 a3 b3 b11 b22 = Inr c01"
      "lin3 a1 a2 a3 b13 b21 b23 = Inr c02" "np_stack [c00, c01, c02] (-1) = Inr row0"
    by blast
  from pw_multiply_row[where A = A and B = B and i = 1, OF a11(2) a12(2) a13(2) b1(2) b2(2) b12(2) b3(2) b11(2) b22(2) b13(2) b21(2) b23(2)] obtain c10 c11 c12 row1 where
    row1: "pointwise_vec S row1 (\<lambda>l j. mmul (A l) (B l) 1 j)"
      "lin3 a11 a12 a13 b1 b2 b12 = Inr c10" "lin3 a11 a12 a13 b3 b11 b22 = Inr c11"
      "lin3 a11 a12 a13 b13 b21 b23 = Inr c12" "np_stack [c10, c11, c12] (-1) = Inr row1"
    by blast
  from pw_multiply_row[where A = A and B = B and i = 2, OF a21(2) a22(2) a23(2) b1(2) b2(2) b12(2) b3(2) b11(2) b22(2) b13(2) b21(2) b23(2)] obtain c20 c21 c22 row2 where
    row2: "pointwise_vec S row2 (\<lambda>l j. mmul (A l) (B l) 2 j)"
      "lin3 a21 a22 a23 b1 b2 b12 = Inr c20" "lin3 a21 a22 a23 b3 b11 b22 = Inr c21"
      "lin3 a21 a22 a23 b13 b21 b23 = Inr c22" "np_stack [c20, c21, c22] (-1) = Inr row2"
    by blast
  from pw_stack_rows[OF row0(1) row1(1) row2(1)] obtain r where
    r: "np_stack [row0, row1, row2] (-2) = Inr r"
      "pointwise_mat S r (\<lambda>l i j. [mmul (A l) (B l) 0 j, mmul (A l) (B l) 1 j,
          mmul (A l) (B l) 2 j] ! i)"
    by blast
  have "pointwise_mat S r (\<lambda>l. mmul (A l) (B l))"
    by (rule pointwise_mat_cong[OF r(2)]) (auto simp: lt3)
  moreover have "multiply a b = Inr r"
    unfolding multiply_def
    by (simp add: a1(1) a2(1) a3(1) a11(1) a12(1) a13(1) a21(1) a22(1) a23(1)
        b1(1) b2(1) b3(1) b11(1) b12(1) b13(1) b21(1) b22(1) b23(1)
        row0(2,3,4,5) row1(2,3,4,5) row2(2,3,4,5) r(1)
        del: One_nat_def)
  ultimately show ?thesis by blast
qed

lemma pw_apply_rot_to_vec_unstack:
  assumes r: "pointwise_mat S rot M" and v: "pointwise_vec S p V"
  shows "\<exists>r0 r1 r2. apply_rot_to_vec_unstack rot p = Inr [r0, r1, r2] \<and>
     pointwise S r0 (\<lambda>l. mvec (M l) (V l) 0) \<and>
     pointwise S r1 (\<lambda>l. mvec (M l) (V l) 1) \<and>
     pointwise S r2 (\<lambda>l. mvec (M l) (V l) 2)"
proof -
  from pw_vec_getitem[OF v, of 0] obtain x where
    x: "getitem_last p 0 = Inr x" "pointwise S x (\<lambda>l. V l 0)" by auto
  from pw_vec_getitem[OF v, of 1] obtain y where
    y: "getitem_last p 1 = Inr y" "pointwise S y (\<lambda>l. V l 1)" by auto
  from pw_vec_getitem[OF v, of 2] obtain z where
    z: "getitem_last p 2 = Inr z" "pointwise S z (\<lambda>l. V l 2)" by auto
  have row: "\<exists>ri. rot_row rot i x y z = Inr ri \<and> pointwise S ri (\<lambda>l. mvec (M l) (V l) i)"
    if i: "i < 3" for i
  proof -
    from pw_mat_getitem[OF r i, of 0] obtain a where
      a: "getitem_last2 rot i 0 = Inr a" "pointwise S a (\<lambda>l. M l i 0)" by auto
    from pw_mat_getitem[OF r i, of 1] obtain b where
      b: "getitem_last2 rot i 1 = Inr b" "pointwise S b (\<lambda>l. M l i 1)" by auto
    from pw_mat_getitem[OF r i, of 2] obtain c where
      c: "getitem_last2 rot i 2 = Inr c" "pointwise S c (\<lambda>l. M l i 2)" by auto
    from pw_lin3[OF a(2) b(2) c(2) x(2) y(2) z(2)] obtain ri where
      ri: "lin3 a b c x y z = Inr ri"
        "pointwise S ri (\<lambda>l. M l i 0 * V l 0 + M l i 1 * V l 1 + M l i 2 * V l 2)"
      by blast
    have "rot_row rot i x y z = Inr ri"
      by (simp add: rot_row_def lin3_expr_Inr a(1) b(1) c(1) ri(1) del: One_nat_def)
    moreover have "pointwise S ri (\<lambda>l. mvec (M l) (V l) i)"
      using ri(2) by (simp add: mvec_def)
    ultimately show ?thesis by blast
  qed
  from row[of 0] obtain r0 where
    r0: "rot_row rot 0 x y z = Inr r0" "pointwise S r0 (\<lambda>l. mvec (M l) (V l) 0)" by auto
  from row[of 1] obtain r1 where
    r1: "rot_row rot 1 x y z = Inr r1" "pointwise S r1 (\<lambda>l. mvec (M l) (V l) 1)" by auto
  from row[of 2] obtain r2 where
    r2: "rot_row rot 2 x y z = Inr r2" "pointwise S r2 (\<lambda>l. mvec (M l) (V l) 2)" by auto
  have "apply_rot_to_vec_unstack rot p = Inr [r0, r1, r2]"
    by (simp add: apply_rot_to_vec_unstack_def unstack3_def apply_rot_xyz_def x(1) y(1) z(1)
        r0(1) r1(1) r2(1) del: One_nat_def)
  with r0(2) r1(2) r2(2) show ?thesis by blast
qed

lemma pw_np_add: "pointwise S a g \<Longrightarrow> pointwise S b h \<Longrightarrow>
    \<exists>r. np_add a b = Inr r \<and> pointwise S r (\<lambda>l. g l + h l)"
  using pw_binop[of S a g b h "(+)"] by (simp add: np_add_def)

lemma pw_np_div: "pointwise S a g \<Longrightarrow> pointwise S b h \<Longrightarrow>
    \<exists>r. np_div a b = Inr r \<and> pointwise S r (\<lambda>l. g l / h l)"
  using pw_binop[of S a g b h "(/)"] by (simp add: np_div_def)

lemma pw_np_add_scalar: "pointwise S a g \<Longrightarrow>
    \<exists>r. np_add a (scalar c) = Inr r \<and> pointwise S r (\<lambda>l. g l + c)"
  using pw_binop_scalar[of S a g "(+)" c] by (simp add: np_add_def)

lemma pw_np_square: "pointwise S a g \<Longrightarrow> pointwise S (np_square a) (\<lambda>l. (g l)^2)"
  using pw_unop[of S a g "\<lambda>x. x^2"] by (simp add: np_square_def)

lemma pw_np_sqrt: "pointwise S a g \<Longrightarrow> pointwise S (np_sqrt a) (\<lambda>l. sqrt (g l))"
  using pw_unop[of S a g sqrt] by (simp add: np_sqrt_def)

lemma pw_np_neg: "pointwise S a g \<Longrightarrow> pointwise S (np_neg a) (\<lambda>l. - g l)"
  using pw_unop[of S a g uminus] by (simp add: np_neg_def)

lemma pw_zeros_like: "pointwise S a g \<Longrightarrow> pointwise S (zeros_like a) (\<lambda>l. 0)"
  using pw_unop[of S a g "\<lambda>x. 0"] by (simp add: zeros_like_def)

lemma pw_ones_like: "pointwise S a g \<Longrightarrow> pointwise S (ones_like a) (\<lambda>l. 1)"
  using pw_unop[of S a g "\<lambda>x. 1"] by (simp add: ones_like_def)

lemma pw_planar_rotation:
  assumes u: "pointwise S u gu" and v: "pointwise S v gv"
  shows "\<exists>s1 s2 sn cs.
      np_add (np_square u) (np_square v) = Inr s1 \<and>
      np_add s1 (scalar eps) = Inr s2 \<and>
      np_div (np_neg v) (np_sqrt s2) = Inr sn \<and>
      np_div u (np_sqrt s2) = Inr cs \<and>
      pointwise S s1 (\<lambda>l. (gu l)^2 + (gv l)^2) \<and>
      pointwise S sn (\<lambda>l. - gv l / sqrt ((gu l)^2 + (gv l)^2 + eps)) \<and>
      pointwise S cs (\<lambda>l. gu l / sqrt ((gu l)^2 + (gv l)^2 + eps))"
proof -
  from pw_np_add[OF pw_np_square[OF u] pw_np_square[OF v]] obtain s1 where
    s1: "np_add (np_square u) (np_square v) = Inr s1"
      "pointwise S s1 (\<lambda>l. (gu l)^2 + (gv l)^2)" by blast
  from pw_np_add_scalar[OF s1(2), of eps] obtain s2 where
    s2: "np_add s1 (scalar eps) = Inr s2"
      "pointwise S s2 (\<lambda>l. (gu l)^2 + (gv l)^2 + eps)" by blast
  from pw_np_div[OF pw_np_neg[OF v] pw_np_sqrt[OF s2(2)]] obtain sn where
    sn: "np_div (np_neg v) (np_sqrt s2) = Inr sn"
      "pointwise S sn (\<lambda>l. - gv l / sqrt ((gu l)^2 + (gv l)^2 + eps))" by blast
  from pw_np_div[OF u pw_np_sqrt[OF s2(2)]] obtain cs where
    cs: "np_div u (np_sqrt s2) = Inr cs"
      "pointwise S cs (\<lambda>l. gu l / sqrt ((gu l)^2 + (gv l)^2 + eps))" by blast
  from s1 s2 sn cs show ?thesis by blast
qed

lemma pw_vec_np_add:
  "pointwise_vec S a v \<Longrightarrow> pointwise_vec S b w \<Longrightarrow>
    \<exists>r. np_add a b = Inr r \<and> pointwise_vec S r (\<lambda>l k. v l k + w l k)"
  using pw_vec_binop[of S a v b w "(+)"] by (simp add: np_add_def)

lemma pw_vec_np_neg: "pointwise_vec S a v \<Longrightarrow> pointwise_vec S (np_neg a) (\<lambda>l k. - v l k)"
  using pw_vec_unop[of S a v uminus] by (simp add: np_neg_def)

lemma pw_vec_np_square: "pointwise_vec S a v \<Longrightarrow> pointwise_vec S (np_square a) (\<lambda>l k. (v l k)^2)"
  using pw_vec_unop[of S a v "\<lambda>x. x^2"] by (simp add: np_square_def)

lemma pointwise_shape: "pointwise S a g \<Longrightarrow> shape a = S"
  by (simp add: pointwise_iff)

lemma make_canonical_transform_value:
  assumes sn: "shape n = S @ [3]" and sca: "shape ca = S @ [3]" and sc: "shape c = S @ [3]"
    and len: "length S = 2"
  shows "\<exists>R. make_canonical_transform n ca c = Inr (np_neg ca, R) \<and>
     pointwise_mat S R (\<lambda>l. canonical_rotation (vec_at n l) (vec_at ca l) (vec_at c l))"
proof -
  define NV where "NV = (\<lambda>l. shifted (vec_at n l) (vec_at ca l))"
  define CV where "CV = (\<lambda>l. shifted (vec_at c l) (vec_at ca l))"
  define CR where "CR = (\<lambda>l. mmul (c2_rot (CV l)) (c1_rot (CV l)))"
  define N2 where "N2 = (\<lambda>l. mvec (CR l) (NV l))"
  note tr = pw_vec_np_neg[OF pointwise_vec_at[OF sca]]
  from pw_vec_np_add[OF pointwise_vec_at[OF sn] tr] obtain n1 where
    n1': "np_add n (np_neg ca) = Inr n1"
      "pointwise_vec S n1 (\<lambda>l k. vec_at n l k + - vec_at ca l k)"
    by blast
  have n1: "np_add n (np_neg ca) = Inr n1" "pointwise_vec S n1 NV"
    using n1' by (simp_all add: NV_def shifted_def[abs_def])
  from pw_vec_np_add[OF pointwise_vec_at[OF sc] tr] obtain c1 where
    c1': "np_add c (np_neg ca) = Inr c1"
      "pointwise_vec S c1 (\<lambda>l k. vec_at c l k + - vec_at ca l k)"
    by blast
  have c1: "np_add c (np_neg ca) = Inr c1" "pointwise_vec S c1 CV"
    using c1' by (simp_all add: CV_def shifted_def[abs_def])
  from pw_vec_getitem[OF c1(2), of 0] obtain cx where
    cx: "getitem_last c1 0 = Inr cx" "pointwise S cx (\<lambda>l. CV l 0)" by auto
  from pw_vec_getitem[OF c1(2), of 1] obtain cy where
    cy: "getitem_last c1 1 = Inr cy" "pointwise S cy (\<lambda>l. CV l 1)" by auto
  from pw_vec_getitem[OF c1(2), of 2] obtain cz where
    cz: "getitem_last c1 2 = Inr cz" "pointwise S cz (\<lambda>l. CV l 2)" by auto
  from pw_planar_rotation[OF cx(2) cy(2)] obtain s1 s2 sin1 cos1 where
    p1: "np_add (np_square cx) (np_square cy) = Inr s1"
      "np_add s1 (scalar eps) = Inr s2"
      "np_div (np_neg cy) (np_sqrt s2) = Inr sin1"
      "np_div cx (np_sqrt s2) = Inr cos1"
    and s1: "pointwise S s1 (\<lambda>l. (CV l 0)^2 + (CV l 1)^2)"
    and sin1: "pointwise S sin1 (\<lambda>l. - CV l 1 / sqrt ((CV l 0)^2 + (CV l 1)^2 + eps))"
    and cos1: "pointwise S cos1 (\<lambda>l. CV l 0 / sqrt ((CV l 0)^2 + (CV l 1)^2 + eps))"
    by blast
  note zeros = pw_zeros_like[OF sin1]
  note ones = pw_ones_like[OF sin1]
  have "list_all2 (pointwise S)
      [cos1, np_neg sin1, zeros_like sin1, sin1, cos1, zeros_like sin1,
       zeros_like sin1, zeros_like sin1, ones_like sin1]
      [\<lambda>l. CV l 0 / sqrt ((CV l 0)^2 + (CV l 1)^2 + eps),
       \<lambda>l. - (- CV l 1 / sqrt ((CV l 0)^2 + (CV l 1)^2 + eps)),
       \<lambda>l. 0,
       \<lambda>l. - CV l 1 / sqrt ((CV l 0)^2 + (CV l 1)^2 + eps),
       \<lambda>l. CV l 0 / sqrt ((CV l 0)^2 + (CV l 1)^2 + eps),
       \<lambda>l. 0, \<lambda>l. 0, \<lambda>l. 0, \<lambda>l. 1]"
    using sin1 cos1 zeros ones pw_np_neg[OF sin1] by simp
  from pw_stack_matrix[OF this] obtain c1m where
    c1m: "stack_matrix [cos1, np_neg sin1, zeros_like sin1, sin1, cos1, zeros_like sin1,
       zeros_like sin1, zeros_like sin1, ones_like sin1] S = Inr c1m"
      "pointwise_mat S c1m (\<lambda>l. c1_rot (CV l))"
    by (auto simp: c1_rot_def Let_def)
  from pw_vec_sum[OF pw_vec_np_square[OF c1(2)]] obtain ss where
    ss: "np_sum (np_square c1) (-1) = Inr ss"
      "pointwise S ss (\<lambda>l. (CV l 0)^2 + ((CV l 1)^2 + (CV l 2)^2))" by blast
  from pw_np_add_scalar[OF pw_np_sqrt[OF ss(2)], of eps] obtain norm2 where
    norm2: "np_add (np_sqrt ss) (scalar eps) = Inr norm2"
      "pointwise S norm2 (\<lambda>l. sqrt ((CV l 0)^2 + ((CV l 1)^2 + (CV l 2)^2)) + eps)" by blast
  from pw_np_div[OF cz(2) norm2(2)] obtain sin2 where
    sin2: "np_div cz norm2 = Inr sin2"
      "pointwise S sin2 (\<lambda>l. CV l 2 / (sqrt ((CV l 0)^2 + ((CV l 1)^2 + (CV l 2)^2)) + eps))"
    by blast
  from pw_np_div[OF pw_np_sqrt[OF s1] norm2(2)] obtain cos2 where
    cos2: "np_div (np_sqrt s1) norm2 = Inr cos2"
      "pointwise S cos2 (\<lambda>l. sqrt ((CV l 0)^2 + (CV l 1)^2) /
          (sqrt ((CV l 0)^2 + ((CV l 1)^2 + (CV l 2)^2)) + eps))"
    by blast
  have "list_all2 (pointwise S)
      [cos2, zeros_like sin1, sin2, zeros_like sin1, ones_like sin1, zeros_like sin1,
       np_neg sin2, zeros_like sin1, cos2]
      [\<lambda>l. sqrt ((CV l 0)^2 + (CV l 1)^2) /
          (sqrt ((CV l 0)^2 + ((CV l 1)^2 + (CV l 2)^2)) + eps),
       \<lambda>l. 0,
       \<lambda>l. CV l 2 / (sqrt ((CV l 0)^2 + ((CV l 1)^2 + (CV l 2)^2)) + eps),
       \<lambda>l. 0, \<lambda>l. 1, \<lambda>l. 0,
       \<lambda>l. - (CV l 2 / (sqrt ((CV l 0)^2 + ((CV l 1)^2 + (CV l 2)^2)) + eps)),
       \<lambda>l. 0,
       \<lambda>l. sqrt ((CV l 0)^2 + (CV l 1)^2) /
          (sqrt ((CV l 0)^2 + ((CV l 1)^2 + (CV l 2)^2)) + eps)]"
    using sin2(2) cos2(2) zeros ones pw_np_neg[OF sin2(2)] by simp
  from pw_stack_matrix[OF this] obtain c2m where
    c2m: "stack_matrix [cos2, zeros_like sin1, sin2, zeros_like sin1, ones_like sin1,
       zeros_like sin1, np_neg sin2, zeros_like sin1, cos2] S = Inr c2m"
      "pointwise_mat S c2m (\<lambda>l. c2_rot (CV l))"
    by (auto simp: c2_rot_def Let_def)
  from pw_multiply[OF c2m(2) c1m(2)] obtain crot where
    crot: "multiply c2m c1m = Inr crot" "pointwise_mat S crot CR"
    by (auto simp: CR_def)
  from pw_apply_rot_to_vec_unstack[OF crot(2) n1(2)] obtain r0 r1 r2 where
    rr: "apply_rot_to_vec_unstack crot n1 = Inr [r0, r1, r2]"
      "pointwise S r0 (\<lambda>l. N2 l 0)" "pointwise S r1 (\<lambda>l. N2 l 1)" "pointwise S r2 (\<lambda>l. N2 l 2)"
    by (auto simp: N2_def)
  from pw_stack3[OF rr(2,3,4)] obtain n2 where
    n2: "np_stack [r0, r1, r2] (-1) = Inr n2"
      "pointwise_vec S n2 (\<lambda>l k. [N2 l 0, N2 l 1, N2 l 2] ! k)" by blast
  have n2v: "pointwise_vec S n2 N2"
    by (rule pointwise_vec_cong[OF n2(2)]) (auto simp: lt3)
  from pw_vec_getitem[OF n2v, of 0] obtain nx where
    nx: "getitem_last n2 0 = Inr nx" by auto
  from pw_vec_getitem[OF n2v, of 1] obtain ny where
    ny: "getitem_last n2 1 = Inr ny" "pointwise S ny (\<lambda>l. N2 l 1)" by auto
  from pw_vec_getitem[OF n2v, of 2] obtain nz where
    nz: "getitem_last n2 2 = Inr nz" "pointwise S nz (\<lambda>l. N2 l 2)" by auto
  from pw_planar_rotation[OF ny(2) nz(2)] obtain s4 s5 sinn cosn where
    p3: "np_add (np_square ny) (np_square nz) = Inr s4"
      "np_add s4 (scalar eps) = Inr s5"
      "np_div (np_neg nz) (np_sqrt s5) = Inr sinn"
      "np_div ny (np_sqrt s5) = Inr cosn"
    and sinn: "pointwise S sinn (\<lambda>l. - N2 l 2 / sqrt ((N2 l 1)^2 + (N2 l 2)^2 + eps))"
    and cosn: "pointwise S cosn (\<lambda>l. N2 l 1 / sqrt ((N2 l 1)^2 + (N2 l 2)^2 + eps))"
    by blast
  have "list_all2 (pointwise S)
      [ones_like sin1, zeros_like sin1, zeros_like sin1,
       zeros_like sin1, cosn, np_neg sinn,
       zeros_like sin1, sinn, cosn]
      [\<lambda>l. 1, \<lambda>l. 0, \<lambda>l. 0,
       \<lambda>l. 0,
       \<lambda>l. N2 l 1 / sqrt ((N2 l 1)^2 + (N2 l 2)^2 + eps),
       \<lambda>l. - (- N2 l 2 / sqrt ((N2 l 1)^2 + (N2 l 2)^2 + eps)),
       \<lambda>l. 0,
       \<lambda>l. - N2 l 2 / sqrt ((N2 l 1)^2 + (N2 l 2)^2 + eps),
       \<lambda>l. N2 l 1 / sqrt ((N2 l 1)^2 + (N2 l 2)^2 + eps)]"
    using sinn cosn zeros ones pw_np_neg[OF sinn] by simp
  from pw_stack_matrix[OF this] obtain nm where
    nm: "stack_matrix [ones_like sin1, zeros_like sin1, zeros_like sin1,
       zeros_like sin1, cosn, np_neg sinn, zeros_like sin1, sinn, cosn] S = Inr nm"
      "pointwise_mat S nm (\<lambda>l. n_rot (N2 l))"
    by (auto simp: n_rot_def Let_def)
  from pw_multiply[OF nm(2) crot(2)] obtain R where
    R: "multiply nm crot = Inr R" "pointwise_mat S R (\<lambda>l. mmul (n_rot (N2 l)) (CR l))"
    by blast
  have sh: "shape sin1 = S" "shape sin2 = S" "shape sinn = S"
    using sin1 sin2(2) sinn by (simp_all add: pointwise_shape)
  have "make_canonical_transform n ca c = Inr (np_neg ca, R)"
    unfolding make_canonical_transform_def Let_def
    by (simp add: sn sca sc len n1(1) c1(1) cx(1) cy(1) cz(1) p1 sh c1m(1) ss(1) norm2(1)
        sin2(1) cos2(1) c2m(1) crot(1) rr(1) n2(1) nx(1) ny(1) nz(1) p3 nm(1) R(1)
        del: One_nat_def)
  moreover have "pointwise_mat S R
      (\<lambda>l. canonical_rotation (vec_at n l) (vec_at ca l) (vec_at c l))"
    using R(2) by (simp add: canonical_rotation_def Let_def N2_def CR_def NV_def CV_def)
  ultimately show ?thesis by blast
qed

section \<open>Geometry of the canonical rotation\<close>



lemma matrix_of_entries [simp]:
  "matrix_of [a, b, c, d, e, f, g, h, i] 0 0 = a"
  "matrix_of [a, b, c, d, e, f, g, h, i] 0 1 = b"
  "matrix_of [a, b, c, d, e, f, g, h, i] 0 2 = c"
  "matrix_of [a, b, c, d, e, f, g, h, i] 1 0 = d"
  "matrix_of [a, b, c, d, e, f, g, h, i] 1 1 = e"
  "matrix_of [a, b, c, d, e, f, g, h, i] 1 2 = f"
  "matrix_of [a, b, c, d, e, f, g, h, i] 2 0 = g"
  "matrix_of [a, b, c, d, e, f, g, h, i] 2 1 = h"
  "matrix_of [a, b, c, d, e, f, g, h, i] 2 2 = i"
  by (simp_all add: matrix_of_def)































section \<open>The per-vector builder against the batched one\<close>

lemma pointwise_vec0_iff:
  "pointwise_vec0 S a v \<longleftrightarrow>
     shape a = 3 # S \<and> (\<forall>l k. valid_index S l \<and> k < 3 \<longrightarrow> item a (k # l) = v l k)"
  by (auto simp: pointwise_vec0_def list_all_iff set_indices lt3)

lemma pointwise_mat0_iff:
  "pointwise_mat0 S a m \<longleftrightarrow>
     shape a = 3 # 3 # S \<and>
     (\<forall>l i j. valid_index S l \<and> i < 3 \<and> j < 3 \<longrightarrow> item a (i # j # l) = m l i j)"
  by (auto simp: pointwise_mat0_def list_all_iff set_indices lt3)

lemma pw_getitem_first2:
  assumes "pointwise_mat0 S a m" "i < 3" "j < 3"
  shows "\<exists>r. getitem_first2 a i j = Inr r \<and> pointwise S r (\<lambda>l. m l i j)"
  using assms
  by (simp add: pointwise_mat0_iff pointwise_iff getitem_first2_def getitem_first_def)

lemma pw_np_array3:
  assumes "pointwise S a ga" "pointwise S b gb" "pointwise S c gc"
  shows "\<exists>r. np_array [a, b, c] = Inr r \<and> pointwise_vec0 S r (\<lambda>l k. [ga l, gb l, gc l] ! k)"
  using assms
  by (auto simp: pointwise_vec0_iff pointwise_iff np_array_def rows_def lt3)

lemma pw_stack0_3:
  assumes "pointwise S a ga" "pointwise S b gb" "pointwise S c gc"
  shows "\<exists>r. np_stack [a, b, c] 0 = Inr r \<and> pointwise_vec0 S r (\<lambda>l k. [ga l, gb l, gc l] ! k)"
proof -
  have "normalize_axis 0 (Suc (length S)) = Inr 0" by (simp add: normalize_axis_def)
  with assms show ?thesis
    by (auto simp: pointwise_vec0_iff pointwise_iff np_stack_def lt3)
qed

lemma pw_stack0_rows:
  assumes "pointwise_vec0 S a va" "pointwise_vec0 S b vb" "pointwise_vec0 S c vc"
  shows "\<exists>r. np_stack [a, b, c] 0 = Inr r \<and> pointwise_mat0 S r (\<lambda>l i. [va l, vb l, vc l] ! i)"
proof -
  have "normalize_axis 0 (Suc (Suc (length S))) = Inr 0" by (simp add: normalize_axis_def)
  with assms show ?thesis
    by (auto simp: pointwise_vec0_iff pointwise_mat0_iff np_stack_def lt3)
qed

lemma pw_stack_rows_np:
  assumes "pointwise S e00 g00" "pointwise S e01 g01" "pointwise S e02 g02"
    "pointwise S e10 g10" "pointwise S e11 g11" "pointwise S e12 g12"
    "pointwise S e20 g20" "pointwise S e21 g21" "pointwise S e22 g22"
  shows "\<exists>r. stack_rows_np [e00, e01, e02] [e10, e11, e12] [e20, e21, e22] = Inr r \<and>
     pointwise_mat0 S r (\<lambda>l. matrix_of [g00 l, g01 l, g02 l, g10 l, g11 l, g12 l,
                                          g20 l, g21 l, g22 l])"
proof -
  from pw_np_array3[OF assms(1-3)] obtain r0 where
    r0: "np_array [e00, e01, e02] = Inr r0" "pointwise_vec0 S r0 (\<lambda>l k. [g00 l, g01 l, g02 l] ! k)"
    by blast
  from pw_np_array3[OF assms(4-6)] obtain r1 where
    r1: "np_array [e10, e11, e12] = Inr r1" "pointwise_vec0 S r1 (\<lambda>l k. [g10 l, g11 l, g12 l] ! k)"
    by blast
  from pw_np_array3[OF assms(7-9)] obtain r2 where
    r2: "np_array [e20, e21, e22] = Inr r2" "pointwise_vec0 S r2 (\<lambda>l k. [g20 l, g21 l, g22 l] ! k)"
    by blast
  from pw_stack0_rows[OF r0(2) r1(2) r2(2)] obtain r where
    r: "np_stack [r0, r1, r2] 0 = Inr r"
      "pointwise_mat0 S r (\<lambda>l i. [\<lambda>k. [g00 l, g01 l, g02 l] ! k, \<lambda>k. [g10 l, g11 l, g12 l] ! k,
                                   \<lambda>k. [g20 l, g21 l, g22 l] ! k] ! i)"
    by blast
  from r(2) have "pointwise_mat0 S r (\<lambda>l. matrix_of [g00 l, g01 l, g02 l, g10 l, g11 l, g12 l,
                                          g20 l, g21 l, g22 l])"
    by (auto simp: pointwise_mat0_iff lt3 matrix_of_def)
  with r0(1) r1(1) r2(1) r(1) show ?thesis by (simp add: stack_rows_np_def)
qed

lemma pw_multiply_np_entry:
  assumes a: "pointwise_mat0 S a A" and b: "pointwise_mat0 S b B" and i: "i < 3" and k: "k < 3"
  shows "\<exists>r. multiply_np_entry a b i k = Inr r \<and> pointwise S r (\<lambda>l. mmul (A l) (B l) i k)"
proof -
  from pw_getitem_first2[OF a i, of 0] obtain a0 where
    a0: "getitem_first2 a i 0 = Inr a0" "pointwise S a0 (\<lambda>l. A l i 0)" by auto
  from pw_getitem_first2[OF a i, of 1] obtain a1 where
    a1: "getitem_first2 a i 1 = Inr a1" "pointwise S a1 (\<lambda>l. A l i 1)" by auto
  from pw_getitem_first2[OF a i, of 2] obtain a2 where
    a2: "getitem_first2 a i 2 = Inr a2" "pointwise S a2 (\<lambda>l. A l i 2)" by auto
  from pw_getitem_first2[OF b _ k, of 0] obtain b0 where
    b0: "getitem_first2 b 0 k = Inr b0" "pointwise S b0 (\<lambda>l. B l 0 k)" by auto
  from pw_getitem_first2[OF b _ k, of 1] obtain b1 where
    b1: "getitem_first2 b 1 k = Inr b1" "pointwise S b1 (\<lambda>l. B l 1 k)" by auto
  from pw_getitem_first2[OF b _ k, of 2] obtain b2 where
    b2: "getitem_first2 b 2 k = Inr b2" "pointwise S b2 (\<lambda>l. B l 2 k)" by auto
  from pw_lin3[OF a0(2) a1(2) a2(2) b0(2) b1(2) b2(2)] obtain r where
    r: "lin3 a0 a1 a2 b0 b1 b2 = Inr r"
      "pointwise S r (\<lambda>l. A l i 0 * B l 0 k + A l i 1 * B l 1 k + A l i 2 * B l 2 k)"
    by blast
  show ?thesis
    using r by (simp add: multiply_np_entry_def a0(1) a1(1) a2(1) b0(1) b1(1) b2(1) lin3_expr_Inr
        mmul_def del: One_nat_def)
qed

lemma pw_multiply_np_row:
  assumes a: "pointwise_mat0 S a A" and b: "pointwise_mat0 S b B" and i: "i < 3"
  shows "\<exists>r. multiply_np_row a b i = Inr r \<and>
     pointwise_vec0 S r (\<lambda>l k. [mmul (A l) (B l) i 0, mmul (A l) (B l) i 1,
                                  mmul (A l) (B l) i 2] ! k)"
proof -
  from pw_multiply_np_entry[OF a b i, of 0] obtain c0 where
    c0: "multiply_np_entry a b i 0 = Inr c0" "pointwise S c0 (\<lambda>l. mmul (A l) (B l) i 0)" by auto
  from pw_multiply_np_entry[OF a b i, of 1] obtain c1 where
    c1: "multiply_np_entry a b i 1 = Inr c1" "pointwise S c1 (\<lambda>l. mmul (A l) (B l) i 1)" by auto
  from pw_multiply_np_entry[OF a b i, of 2] obtain c2 where
    c2: "multiply_np_entry a b i 2 = Inr c2" "pointwise S c2 (\<lambda>l. mmul (A l) (B l) i 2)" by auto
  from pw_np_array3[OF c0(2) c1(2) c2(2)] c0(1) c1(1) c2(1) show ?thesis
    by (simp add: multiply_np_row_def del: One_nat_def)
qed

lemma pw_multiply_np:
  assumes a: "pointwise_mat0 S a A" and b: "pointwise_mat0 S b B"
  shows "\<exists>r. multiply_np a b = Inr r \<and> pointwise_mat0 S r (\<lambda>l. mmul (A l) (B l))"
proof -
  from pw_multiply_np_row[OF a b, of 0] obtain r0 where
    r0: "multiply_np_row a b 0 = Inr r0"
      "pointwise_vec0 S r0 (\<lambda>l k. [mmul (A l) (B l) 0 0, mmul (A l) (B l) 0 1,
                                  mmul (A l) (B l) 0 2] ! k)" by auto
  from pw_multiply_np_row[OF a b, of 1] obtain r1 where
    r1: "multiply_np_row a b 1 = Inr r1"
      "pointwise_vec0 S r1 (\<lambda>l k. [mmul (A l) (B l) 1 0, mmul (A l) (B l) 1 1,
                                  mmul (A l) (B l) 1 2] ! k)" by auto
  from pw_multiply_np_row[OF a b, of 2] obtain r2 where
    r2: "multiply_np_row a b 2 = Inr r2"
      "pointwise_vec0 S r2 (\<lambda>l k. [mmul (A l) (B l) 2 0, mmul (A l) (B l) 2 1,
                                  mmul (A l) (B l) 2 2] ! k)" by auto
  from pw_stack0_rows[OF r0(2) r1(2) r2(2)] obtain r where
    r: "np_stack [r0, r1, r2] 0 = Inr r"
     "pointwise_mat0 S r (\<lambda>l i. [\<lambda>k. [mmul (A l) (B l) 0 0, mmul (A l) (B l) 0 1,
                                  mmul (A l) (B l) 0 2] ! k,
            \<lambda>k. [mmul (A l) (B l) 1 0, mmul (A l) (B l) 1 1, mmul (A l) (B l) 1 2] ! k,
            \<lambda>k. [mmul (A l) (B l) 2 0, mmul (A l) (B l) 2 1, mmul (A l) (B l) 2 2] ! k] ! i)"
    by blast
  from r(2) have "pointwise_mat0 S r (\<lambda>l. mmul (A l) (B l))"
    by (auto simp: pointwise_mat0_iff lt3)
  with r0(1) r1(1) r2(1) r(1) show ?thesis by (simp add: multiply_np_def del: One_nat_def)
qed

lemma pw_apply_rot_to_vec_np_unstack:
  assumes r: "pointwise_mat0 S rot M" and v: "pointwise_vec S p V"
  shows "\<exists>r0 r1 r2. apply_rot_to_vec_np_unstack rot p = Inr [r0, r1, r2] \<and>
     pointwise S r0 (\<lambda>l. mvec (M l) (V l) 0) \<and>
     pointwise S r1 (\<lambda>l. mvec (M l) (V l) 1) \<and>
     pointwise S r2 (\<lambda>l. mvec (M l) (V l) 2)"
proof -
  from pw_vec_getitem[OF v, of 0] obtain x where
    x: "getitem_last p 0 = Inr x" "pointwise S x (\<lambda>l. V l 0)" by auto
  from pw_vec_getitem[OF v, of 1] obtain y where
    y: "getitem_last p 1 = Inr y" "pointwise S y (\<lambda>l. V l 1)" by auto
  from pw_vec_getitem[OF v, of 2] obtain z where
    z: "getitem_last p 2 = Inr z" "pointwise S z (\<lambda>l. V l 2)" by auto
  have row: "\<exists>q. lin3_expr (getitem_first2 rot i 0) (Inr x) (getitem_first2 rot i 1) (Inr y)
            (getitem_first2 rot i 2) (Inr z) = Inr q \<and> pointwise S q (\<lambda>l. mvec (M l) (V l) i)"
    if i: "i < 3" for i
  proof -
    from pw_getitem_first2[OF r i, of 0] obtain a0 where
      a0: "getitem_first2 rot i 0 = Inr a0" "pointwise S a0 (\<lambda>l. M l i 0)" by auto
    from pw_getitem_first2[OF r i, of 1] obtain a1 where
      a1: "getitem_first2 rot i 1 = Inr a1" "pointwise S a1 (\<lambda>l. M l i 1)" by auto
    from pw_getitem_first2[OF r i, of 2] obtain a2 where
      a2: "getitem_first2 rot i 2 = Inr a2" "pointwise S a2 (\<lambda>l. M l i 2)" by auto
    from pw_lin3[OF a0(2) a1(2) a2(2) x(2) y(2) z(2)] show ?thesis
      by (simp add: a0(1) a1(1) a2(1) lin3_expr_Inr mvec_def del: One_nat_def)
  qed
  from row[of 0] obtain r0 where
    r0: "lin3_expr (getitem_first2 rot 0 0) (Inr x) (getitem_first2 rot 0 1) (Inr y)
            (getitem_first2 rot 0 2) (Inr z) = Inr r0" "pointwise S r0 (\<lambda>l. mvec (M l) (V l) 0)"
    by auto
  from row[of 1] obtain r1 where
    r1: "lin3_expr (getitem_first2 rot 1 0) (Inr x) (getitem_first2 rot 1 1) (Inr y)
            (getitem_first2 rot 1 2) (Inr z) = Inr r1" "pointwise S r1 (\<lambda>l. mvec (M l) (V l) 1)"
    by auto
  from row[of 2] obtain r2 where
    r2: "lin3_expr (getitem_first2 rot 2 0) (Inr x) (getitem_first2 rot 2 1) (Inr y)
            (getitem_first2 rot 2 2) (Inr z) = Inr r2" "pointwise S r2 (\<lambda>l. mvec (M l) (V l) 2)"
    by auto
  show ?thesis
    using r0 r1 r2
    by (simp add: apply_rot_to_vec_np_unstack_def unstack3_def x(1) y(1) z(1) del: One_nat_def)
qed

lemma valid_index_1: "valid_index [b] l \<longleftrightarrow> (\<exists>k. l = [k] \<and> k < b)"
  by (cases l) (auto simp: valid_index_def)

lemma pointwise_vec_1:
  "pointwise_vec [b] a v \<longleftrightarrow>
     shape a = [b, 3] \<and> (\<forall>l k. l < b \<and> k < 3 \<longrightarrow> item a [l, k] = v [l] k)"
proof -
  have "(\<forall>l k. valid_index [b] l \<and> k < 3 \<longrightarrow> item a (l @ [k]) = v l k) \<longleftrightarrow>
        (\<forall>l k. l < b \<and> k < 3 \<longrightarrow> item a [l, k] = v [l] k)"
    (is "?L \<longleftrightarrow> ?R")
  proof
    assume l: ?L
    show ?R
    proof (intro allI impI)
      fix l k :: nat assume "l < b \<and> k < 3"
      then have "valid_index [b] [l] \<and> k < 3" by (simp add: valid_index_1)
      with l have "item a ([l] @ [k]) = v [l] k" by blast
      then show "item a [l, k] = v [l] k" by simp
    qed
  next
    assume ?R then show ?L by (auto simp: valid_index_1)
  qed
  then show ?thesis by (simp add: pointwise_vec_iff)
qed

lemma pointwise_mat_1:
  "pointwise_mat [b] a m \<longleftrightarrow>
     shape a = [b, 3, 3] \<and>
     (\<forall>l i j. l < b \<and> i < 3 \<and> j < 3 \<longrightarrow> item a [l, i, j] = m [l] i j)"
proof -
  have "(\<forall>l i j. valid_index [b] l \<and> i < 3 \<and> j < 3 \<longrightarrow> item a (l @ [i, j]) = m l i j) \<longleftrightarrow>
        (\<forall>l i j. l < b \<and> i < 3 \<and> j < 3 \<longrightarrow> item a [l, i, j] = m [l] i j)"
    (is "?L \<longleftrightarrow> ?R")
  proof
    assume l: ?L
    show ?R
    proof (intro allI impI)
      fix l i j :: nat assume "l < b \<and> i < 3 \<and> j < 3"
      then have "valid_index [b] [l] \<and> i < 3 \<and> j < 3" by (simp add: valid_index_1)
      with l have "item a ([l] @ [i, j]) = m [l] i j" by blast
      then show "item a [l, i, j] = m [l] i j" by simp
    qed
  next
    assume ?R then show ?L by (auto simp: valid_index_1)
  qed
  then show ?thesis by (simp add: pointwise_mat_iff)
qed

lemma pointwise_1:
  "pointwise [b] a g \<longleftrightarrow> shape a = [b] \<and> (\<forall>l. l < b \<longrightarrow> item a [l] = g [l])"
  by (auto simp: pointwise_iff valid_index_1)

lemma pointwise_vec0_1:
  "pointwise_vec0 [b] a v \<longleftrightarrow>
     shape a = [3, b] \<and> (\<forall>l k. l < b \<and> k < 3 \<longrightarrow> item a [k, l] = v [l] k)"
  by (auto simp: pointwise_vec0_iff valid_index_1)

lemma pointwise_mat0_1:
  "pointwise_mat0 [b] a m \<longleftrightarrow>
     shape a = [3, 3, b] \<and>
     (\<forall>l i j. l < b \<and> i < 3 \<and> j < 3 \<longrightarrow> item a [i, j, l] = m [l] i j)"
  by (auto simp: pointwise_mat0_iff valid_index_1)

lemma pw_transpose_T:
  assumes "pointwise_vec0 [b] a v"
  shows "pointwise_vec [b] (transpose_T a) v"
  using assms by (simp add: pointwise_vec0_1 pointwise_vec_1 transpose_T_def)

lemma pw_vec_getitem_colon:
  assumes "pointwise_vec [b] a v" "k < 3"
  shows "\<exists>r. getitem_colon a k = Inr r \<and> pointwise [b] r (\<lambda>l. v l k)"
  using assms by (simp add: pointwise_vec_1 pointwise_1 getitem_colon_def)

lemma pw_np_transpose_201:
  assumes "pointwise_mat0 [b] a m"
  shows "\<exists>r. np_transpose a [2, 0, 1] = Inr r \<and> pointwise_mat [b] r m"
proof -
  from assms have sh: "shape a = [3, 3, b]" by (simp add: pointwise_mat0_1)
  have s: "sort [2, 0, 1::nat] = [0..<length (shape a)]" by (simp add: sh upt_3)
  have u: "[0..<length (shape a)] = [0, 1, 2]" by (simp add: sh upt_3)
  have "np_transpose a [2, 0, 1] =
      Inr \<lparr>shape = map (\<lambda>d. shape a ! d) [2, 0, 1],
           item = (\<lambda>idx. item a (map (\<lambda>d. idx ! index_of d [2, 0, 1]) [0, 1, 2]))\<rparr>"
    unfolding np_transpose_def u[symmetric] using s by simp
  with assms show ?thesis
    by (simp add: pointwise_mat0_1 pointwise_mat_1)
qed

lemma pw_scalar_np_add: "pointwise S a g \<Longrightarrow>
    \<exists>r. np_add (scalar c) a = Inr r \<and> pointwise S r (\<lambda>l. c + g l)"
  using pw_scalar_binop[of S a g "(+)" c] by (simp add: np_add_def)

lemma pw_norm_np2:
  assumes x: "pointwise S x gx" and y: "pointwise S y gy"
  shows "\<exists>r. norm_np2 x y = Inr r \<and> pointwise S r (\<lambda>l. sqrt (eps + (gx l)^2 + (gy l)^2))"
proof -
  from pw_scalar_np_add[OF pw_np_square[OF x], of eps] obtain s1 where
    s1: "np_add (scalar eps) (np_square x) = Inr s1" "pointwise S s1 (\<lambda>l. eps + (gx l)^2)"
    by blast
  from pw_np_add[OF s1(2) pw_np_square[OF y]] obtain s2 where
    s2: "np_add s1 (np_square y) = Inr s2" "pointwise S s2 (\<lambda>l. eps + (gx l)^2 + (gy l)^2)"
    by blast
  from pw_np_sqrt[OF s2(2)] s1(1) s2(1) show ?thesis by (simp add: norm_np2_def)
qed

lemma pw_norm_np3:
  assumes x: "pointwise S x gx" and y: "pointwise S y gy" and z: "pointwise S z gz"
  shows "\<exists>r. norm_np3 x y z = Inr r \<and>
     pointwise S r (\<lambda>l. sqrt (eps + (gx l)^2 + (gy l)^2 + (gz l)^2))"
proof -
  from pw_scalar_np_add[OF pw_np_square[OF x], of eps] obtain s1 where
    s1: "np_add (scalar eps) (np_square x) = Inr s1" "pointwise S s1 (\<lambda>l. eps + (gx l)^2)"
    by blast
  from pw_np_add[OF s1(2) pw_np_square[OF y]] obtain s2 where
    s2: "np_add s1 (np_square y) = Inr s2" "pointwise S s2 (\<lambda>l. eps + (gx l)^2 + (gy l)^2)"
    by blast
  from pw_np_add[OF s2(2) pw_np_square[OF z]] obtain s3 where
    s3: "np_add s2 (np_square z) = Inr s3"
      "pointwise S s3 (\<lambda>l. eps + (gx l)^2 + (gy l)^2 + (gz l)^2)"
    by blast
  from pw_np_sqrt[OF s3(2)] s1(1) s2(1) s3(1) show ?thesis by (simp add: norm_np3_def)
qed

lemma pw_planar_rotation_np:
  assumes u: "pointwise S u gu" and v: "pointwise S v gv"
  shows "\<exists>nrm sn cs.
      norm_np2 u v = Inr nrm \<and>
      np_div (np_neg v) nrm = Inr sn \<and>
      np_div u nrm = Inr cs \<and>
      pointwise S sn (\<lambda>l. - gv l / sqrt (eps + (gu l)^2 + (gv l)^2)) \<and>
      pointwise S cs (\<lambda>l. gu l / sqrt (eps + (gu l)^2 + (gv l)^2))"
proof -
  from pw_norm_np2[OF u v] obtain nrm where
    nrm: "norm_np2 u v = Inr nrm" "pointwise S nrm (\<lambda>l. sqrt (eps + (gu l)^2 + (gv l)^2))"
    by blast
  from pw_np_div[OF pw_np_neg[OF v] nrm(2)] obtain sn where
    sn: "np_div (np_neg v) nrm = Inr sn"
      "pointwise S sn (\<lambda>l. - gv l / sqrt (eps + (gu l)^2 + (gv l)^2))" by blast
  from pw_np_div[OF u nrm(2)] obtain cs where
    cs: "np_div u nrm = Inr cs"
      "pointwise S cs (\<lambda>l. gu l / sqrt (eps + (gu l)^2 + (gv l)^2))" by blast
  from nrm(1) sn cs show ?thesis by blast
qed

lemma make_canonical_transform_np_value:
  assumes sn: "shape n = [b, 3]" and sca: "shape ca = [b, 3]" and sc: "shape c = [b, 3]"
  shows "\<exists>R. make_canonical_transform_np n ca c = Inr (np_neg ca, R) \<and>
     pointwise_mat [b] R (\<lambda>l. canonical_rotation_np (vec_at n l) (vec_at ca l) (vec_at c l))"
proof -
  define NV where "NV = (\<lambda>l. shifted (vec_at n l) (vec_at ca l))"
  define CV where "CV = (\<lambda>l. shifted (vec_at c l) (vec_at ca l))"
  define CR where "CR = (\<lambda>l. mmul (c2_rot_np (CV l)) (c1_rot_np (CV l)))"
  define N2 where "N2 = (\<lambda>l. mvec (CR l) (NV l))"
  have sn': "shape n = [b] @ [3]" and sca': "shape ca = [b] @ [3]" and sc': "shape c = [b] @ [3]"
    using sn sca sc by simp_all
  note tr = pw_vec_np_neg[OF pointwise_vec_at[OF sca']]
  from pw_vec_np_add[OF pointwise_vec_at[OF sn'] tr] obtain n1 where
    n1': "np_add n (np_neg ca) = Inr n1"
      "pointwise_vec [b] n1 (\<lambda>l k. vec_at n l k + - vec_at ca l k)"
    by blast
  have n1: "np_add n (np_neg ca) = Inr n1" "pointwise_vec [b] n1 NV"
    using n1' by (simp_all add: NV_def shifted_def[abs_def])
  from pw_vec_np_add[OF pointwise_vec_at[OF sc'] tr] obtain c1 where
    c1': "np_add c (np_neg ca) = Inr c1"
      "pointwise_vec [b] c1 (\<lambda>l k. vec_at c l k + - vec_at ca l k)"
    by blast
  have c1: "np_add c (np_neg ca) = Inr c1" "pointwise_vec [b] c1 CV"
    using c1' by (simp_all add: CV_def shifted_def[abs_def])
  from pw_vec_getitem_colon[OF c1(2), of 0] obtain cx where
    cx: "getitem_colon c1 0 = Inr cx" "pointwise [b] cx (\<lambda>l. CV l 0)" by auto
  from pw_vec_getitem_colon[OF c1(2), of 1] obtain cy where
    cy: "getitem_colon c1 1 = Inr cy" "pointwise [b] cy (\<lambda>l. CV l 1)" by auto
  from pw_vec_getitem_colon[OF c1(2), of 2] obtain cz where
    cz: "getitem_colon c1 2 = Inr cz" "pointwise [b] cz (\<lambda>l. CV l 2)" by auto
  from pw_planar_rotation_np[OF cx(2) cy(2)] obtain nrm1 sin1 cos1 where
    p1: "norm_np2 cx cy = Inr nrm1"
      "np_div (np_neg cy) nrm1 = Inr sin1"
      "np_div cx nrm1 = Inr cos1"
    and sin1: "pointwise [b] sin1 (\<lambda>l. - CV l 1 / sqrt (eps + (CV l 0)^2 + (CV l 1)^2))"
    and cos1: "pointwise [b] cos1 (\<lambda>l. CV l 0 / sqrt (eps + (CV l 0)^2 + (CV l 1)^2))"
    by blast
  note zeros = pw_zeros_like[OF sin1]
  note ones = pw_ones_like[OF sin1]
  from pw_stack_rows_np[OF cos1 pw_np_neg[OF sin1] zeros sin1 cos1 zeros zeros zeros ones]
  obtain c1m where
    c1m: "stack_rows_np [cos1, np_neg sin1, zeros_like sin1] [sin1, cos1, zeros_like sin1]
       [zeros_like sin1, zeros_like sin1, ones_like sin1] = Inr c1m"
      "pointwise_mat0 [b] c1m (\<lambda>l. c1_rot_np (CV l))"
    by (auto simp: c1_rot_np_def Let_def)
  from pw_norm_np3[OF cx(2) cy(2) cz(2)] obtain nrm2 where
    nrm2: "norm_np3 cx cy cz = Inr nrm2"
      "pointwise [b] nrm2 (\<lambda>l. sqrt (eps + (CV l 0)^2 + (CV l 1)^2 + (CV l 2)^2))"
    by blast
  from pw_np_div[OF cz(2) nrm2(2)] obtain sin2 where
    sin2: "np_div cz nrm2 = Inr sin2"
      "pointwise [b] sin2 (\<lambda>l. CV l 2 / sqrt (eps + (CV l 0)^2 + (CV l 1)^2 + (CV l 2)^2))"
    by blast
  from pw_np_add[OF pw_np_square[OF cx(2)] pw_np_square[OF cy(2)]] obtain s1 where
    s1: "np_add (np_square cx) (np_square cy) = Inr s1"
      "pointwise [b] s1 (\<lambda>l. (CV l 0)^2 + (CV l 1)^2)" by blast
  from pw_np_div[OF pw_np_sqrt[OF s1(2)] nrm2(2)] obtain cos2 where
    cos2: "np_div (np_sqrt s1) nrm2 = Inr cos2"
      "pointwise [b] cos2 (\<lambda>l. sqrt ((CV l 0)^2 + (CV l 1)^2) /
          sqrt (eps + (CV l 0)^2 + (CV l 1)^2 + (CV l 2)^2))"
    by blast
  from pw_stack_rows_np[OF cos2(2) zeros sin2(2) zeros ones zeros pw_np_neg[OF sin2(2)] zeros
      cos2(2)]
  obtain c2m where
    c2m: "stack_rows_np [cos2, zeros_like sin1, sin2]
       [zeros_like sin1, ones_like sin1, zeros_like sin1]
       [np_neg sin2, zeros_like sin1, cos2] = Inr c2m"
      "pointwise_mat0 [b] c2m (\<lambda>l. c2_rot_np (CV l))"
    by (auto simp: c2_rot_np_def Let_def)
  from pw_multiply_np[OF c2m(2) c1m(2)] obtain crot where
    crot: "multiply_np c2m c1m = Inr crot" "pointwise_mat0 [b] crot CR"
    by (auto simp: CR_def)
  from pw_apply_rot_to_vec_np_unstack[OF crot(2) n1(2)] obtain r0 r1 r2 where
    rr: "apply_rot_to_vec_np_unstack crot n1 = Inr [r0, r1, r2]"
      "pointwise [b] r0 (\<lambda>l. N2 l 0)" "pointwise [b] r1 (\<lambda>l. N2 l 1)"
      "pointwise [b] r2 (\<lambda>l. N2 l 2)"
    by (auto simp: N2_def)
  from pw_stack0_3[OF rr(2,3,4)] obtain st where
    st: "np_stack [r0, r1, r2] 0 = Inr st"
      "pointwise_vec0 [b] st (\<lambda>l k. [N2 l 0, N2 l 1, N2 l 2] ! k)" by blast
  have n2v: "pointwise_vec [b] (transpose_T st) N2"
    by (rule pointwise_vec_cong[OF pw_transpose_T[OF st(2)]]) (auto simp: lt3)
  from pw_vec_getitem_colon[OF n2v, of 0] obtain nx where
    nx: "getitem_colon (transpose_T st) 0 = Inr nx" by auto
  from pw_vec_getitem_colon[OF n2v, of 1] obtain ny where
    ny: "getitem_colon (transpose_T st) 1 = Inr ny" "pointwise [b] ny (\<lambda>l. N2 l 1)" by auto
  from pw_vec_getitem_colon[OF n2v, of 2] obtain nz where
    nz: "getitem_colon (transpose_T st) 2 = Inr nz" "pointwise [b] nz (\<lambda>l. N2 l 2)" by auto
  from pw_planar_rotation_np[OF ny(2) nz(2)] obtain nrm3 sinn cosn where
    p3: "norm_np2 ny nz = Inr nrm3"
      "np_div (np_neg nz) nrm3 = Inr sinn"
      "np_div ny nrm3 = Inr cosn"
    and sinn: "pointwise [b] sinn (\<lambda>l. - N2 l 2 / sqrt (eps + (N2 l 1)^2 + (N2 l 2)^2))"
    and cosn: "pointwise [b] cosn (\<lambda>l. N2 l 1 / sqrt (eps + (N2 l 1)^2 + (N2 l 2)^2))"
    by blast
  from pw_stack_rows_np[OF ones zeros zeros zeros cosn pw_np_neg[OF sinn] zeros sinn cosn]
  obtain nm where
    nm: "stack_rows_np [ones_like sin1, zeros_like sin1, zeros_like sin1]
       [zeros_like sin1, cosn, np_neg sinn] [zeros_like sin1, sinn, cosn] = Inr nm"
      "pointwise_mat0 [b] nm (\<lambda>l. n_rot_np (N2 l))"
    by (auto simp: n_rot_np_def Let_def)
  from pw_multiply_np[OF nm(2) crot(2)] obtain M where
    M: "multiply_np nm crot = Inr M" "pointwise_mat0 [b] M (\<lambda>l. mmul (n_rot_np (N2 l)) (CR l))"
    by blast
  from pw_np_transpose_201[OF M(2)] obtain R where
    R: "np_transpose M [2, 0, 1] = Inr R"
      "pointwise_mat [b] R (\<lambda>l. mmul (n_rot_np (N2 l)) (CR l))"
    by blast
  have "make_canonical_transform_np n ca c = Inr (np_neg ca, R)"
    unfolding make_canonical_transform_np_def Let_def
    by (simp add: sn sca sc n1(1) c1(1) cx(1) cy(1) cz(1) p1 c1m(1) nrm2(1)
        sin2(1) s1(1) cos2(1) c2m(1) crot(1) rr(1) st(1) nx(1) ny(1) nz(1) p3 nm(1) M(1) R(1)
        del: One_nat_def)
  moreover have "pointwise_mat [b] R
      (\<lambda>l. canonical_rotation_np (vec_at n l) (vec_at ca l) (vec_at c l))"
    using R(2) by (simp add: canonical_rotation_np_def Let_def N2_def CR_def NV_def CV_def)
  ultimately show ?thesis by blast
qed

lemma canonical_rotation_02:
  "canonical_rotation n ca c 0 2 =
     shifted c ca 2 /
       (sqrt ((shifted c ca 0)^2 + ((shifted c ca 1)^2 + (shifted c ca 2)^2)) + eps)"
  by (simp add: canonical_rotation_def Let_def mmul_def n_rot_def c2_rot_def c1_rot_def
      del: One_nat_def)

lemma canonical_rotation_np_02:
  "canonical_rotation_np n ca c 0 2 =
     shifted c ca 2 /
       sqrt (eps + (shifted c ca 0)^2 + (shifted c ca 1)^2 + (shifted c ca 2)^2)"
  by (simp add: canonical_rotation_np_def Let_def mmul_def n_rot_np_def c2_rot_np_def
      c1_rot_np_def del: One_nat_def)

lemma c1_rot_np_eq: "c1_rot_np = c1_rot"
  by (simp add: fun_eq_iff c1_rot_np_def c1_rot_def Let_def add.commute add.left_commute)

lemma n_rot_np_eq: "n_rot_np = n_rot"
  by (simp add: fun_eq_iff n_rot_np_def n_rot_def Let_def add.commute add.left_commute)

lemma sqrt_near_degenerate: "sqrt (eps + 0^2 + 0^2 + (3 / (4 * 10 ^ 10))^2) = 5 / (4 * 10 ^ 10)"
  by (rule real_sqrt_unique) (simp_all add: eps_def power_divide)

lemma sqrt_on_axis: "sqrt (0^2 + (0^2 + (3 / (4 * 10 ^ 10))^2)) = 3 / (4 * 10 ^ 10)"
  by (rule real_sqrt_unique) (simp_all add: power_divide)

lemma make_canonical_transform_entry_02:
  assumes sn: "shape n = [b, r, 3]" and sca: "shape ca = [b, r, 3]" and sc: "shape c = [b, r, 3]"
    and l: "valid_index [b, r] l"
  shows "\<exists>R. make_canonical_transform n ca c = Inr (np_neg ca, R) \<and>
           item R (l @ [0, 2]) =
             shifted (vec_at c l) (vec_at ca l) 2 /
               (sqrt ((shifted (vec_at c l) (vec_at ca l) 0)^2 +
                      ((shifted (vec_at c l) (vec_at ca l) 1)^2 +
                       (shifted (vec_at c l) (vec_at ca l) 2)^2)) + eps)"
proof -
  from make_canonical_transform_value[of n "[b, r]" ca c] sn sca sc obtain R where
    R: "make_canonical_transform n ca c = Inr (np_neg ca, R)"
      "pointwise_mat [b, r] R (\<lambda>l. canonical_rotation (vec_at n l) (vec_at ca l) (vec_at c l))"
    by auto
  from R(2) l have "item R (l @ [0, 2]) =
      canonical_rotation (vec_at n l) (vec_at ca l) (vec_at c l) 0 2"
    by (simp add: pointwise_mat_iff)
  with R(1) show ?thesis by (simp only: canonical_rotation_02) blast
qed

lemma make_canonical_transform_np_entry_02:
  assumes sn: "shape n = [b, 3]" and sca: "shape ca = [b, 3]" and sc: "shape c = [b, 3]"
    and l: "valid_index [b] l"
  shows "\<exists>R. make_canonical_transform_np n ca c = Inr (np_neg ca, R) \<and>
           item R (l @ [0, 2]) =
             shifted (vec_at c l) (vec_at ca l) 2 /
               sqrt (eps + (shifted (vec_at c l) (vec_at ca l) 0)^2 +
                     (shifted (vec_at c l) (vec_at ca l) 1)^2 +
                     (shifted (vec_at c l) (vec_at ca l) 2)^2)"
proof -
  from make_canonical_transform_np_value[OF sn sca sc] obtain R where
    R: "make_canonical_transform_np n ca c = Inr (np_neg ca, R)"
      "pointwise_mat [b] R (\<lambda>l. canonical_rotation_np (vec_at n l) (vec_at ca l) (vec_at c l))"
    by auto
  from R(2) l have "item R (l @ [0, 2]) =
      canonical_rotation_np (vec_at n l) (vec_at ca l) (vec_at c l) 0 2"
    by (simp add: pointwise_mat_iff)
  with R(1) show ?thesis by (simp only: canonical_rotation_np_02) blast
qed

text \<open>
  Claim C6 says that the batched builder and the per-vector builder implement the same
  formulas and return the same pair on the same triplet. They return the same translation,
  but the second rotation angle is normalized by \<open>sqrt (x\<^sup>2 + y\<^sup>2 + z\<^sup>2) + 1e-20\<close> in the batched
  builder and by \<open>sqrt (1e-20 + x\<^sup>2 + y\<^sup>2 + z\<^sup>2)\<close> in the per-vector one. For N = (0, 1, 0),
  CA = (0, 0, 0) and C = (0, 0, 0.75e-10) the entry in row 0, column 2 of the rotation is
  7500000000/7500000001 in the batched builder and 3/5 in the per-vector builder.
\<close>

theorem canonical_builders_differ:
  "\<exists>R R'. make_canonical_transform (triplet 0 1 0) (triplet 0 0 0)
             (triplet 0 0 (3 / (4 * 10 ^ 10))) = Inr (np_neg (triplet 0 0 0), R) \<and>
          make_canonical_transform_np (triplet_np 0 1 0) (triplet_np 0 0 0)
             (triplet_np 0 0 (3 / (4 * 10 ^ 10))) = Inr (np_neg (triplet_np 0 0 0), R') \<and>
          item (np_neg (triplet 0 0 0)) [0, 0, 0] = item (np_neg (triplet_np 0 0 0)) [0, 0] \<and>
          item (np_neg (triplet 0 0 0)) [0, 0, 1] = item (np_neg (triplet_np 0 0 0)) [0, 1] \<and>
          item (np_neg (triplet 0 0 0)) [0, 0, 2] = item (np_neg (triplet_np 0 0 0)) [0, 2] \<and>
          item R [0, 0, 0, 2] = 7500000000 / 7500000001 \<and>
          item R' [0, 0, 2] = 3 / 5"
proof -
  let ?d = "3 / (4 * 10 ^ 10) :: real"
  have s: "shape (triplet 0 1 0) = [1, 1, 3]" "shape (triplet 0 0 0) = [1, 1, 3]"
    "shape (triplet 0 0 ?d) = [1, 1, 3]"
    by (simp_all add: triplet_def rows_def array1_def)
  have s': "shape (triplet_np 0 1 0) = [1, 3]" "shape (triplet_np 0 0 0) = [1, 3]"
    "shape (triplet_np 0 0 ?d) = [1, 3]"
    by (simp_all add: triplet_np_def rows_def array1_def)
  have v: "valid_index [1, 1] [0, 0]" "valid_index [1] [0]" by (simp_all add: valid_index_def)
  have c: "shifted (vec_at (triplet 0 0 ?d) [0, 0]) (vec_at (triplet 0 0 0) [0, 0]) 0 = 0"
    "shifted (vec_at (triplet 0 0 ?d) [0, 0]) (vec_at (triplet 0 0 0) [0, 0]) 1 = 0"
    "shifted (vec_at (triplet 0 0 ?d) [0, 0]) (vec_at (triplet 0 0 0) [0, 0]) 2 = ?d"
    by (simp_all add: shifted_def vec_at_def triplet_def rows_def array1_def)
  have c': "shifted (vec_at (triplet_np 0 0 ?d) [0]) (vec_at (triplet_np 0 0 0) [0]) 0 = 0"
    "shifted (vec_at (triplet_np 0 0 ?d) [0]) (vec_at (triplet_np 0 0 0) [0]) 1 = 0"
    "shifted (vec_at (triplet_np 0 0 ?d) [0]) (vec_at (triplet_np 0 0 0) [0]) 2 = ?d"
    by (simp_all add: shifted_def vec_at_def triplet_np_def rows_def array1_def)
  from make_canonical_transform_entry_02[OF s v(1)] obtain R where
    R: "make_canonical_transform (triplet 0 1 0) (triplet 0 0 0) (triplet 0 0 ?d) =
          Inr (np_neg (triplet 0 0 0), R)"
      "item R ([0, 0] @ [0, 2]) = ?d / (sqrt (0^2 + (0^2 + ?d^2)) + eps)"
    unfolding c by blast
  from make_canonical_transform_np_entry_02[OF s' v(2)] obtain R' where
    R': "make_canonical_transform_np (triplet_np 0 1 0) (triplet_np 0 0 0) (triplet_np 0 0 ?d) =
          Inr (np_neg (triplet_np 0 0 0), R')"
      "item R' ([0] @ [0, 2]) = ?d / sqrt (eps + 0^2 + 0^2 + ?d^2)"
    unfolding c' by blast
  from R(2) have 1: "item R [0, 0, 0, 2] = 7500000000 / 7500000001"
    unfolding sqrt_on_axis by (simp add: eps_def)
  from R'(2) have 2: "item R' [0, 0, 2] = 3 / 5"
    unfolding sqrt_near_degenerate by simp
  have 3: "item (np_neg (triplet 0 0 0)) [0, 0, k] = item (np_neg (triplet_np 0 0 0)) [0, k]" for k
    by (simp add: np_neg_def unop_def triplet_def triplet_np_def rows_def)
  from R(1) R'(1) 1 2 3 show ?thesis by blast
qed


end
